(* ===== verification/Prelude.thy ===== *)
theory Prelude
  imports Main "HOL-Library.Char_ord" "HOL-Library.List_Lexorder"
begin

text \<open>
  Shared vocabulary of the development: Go maps keyed by strings, the traversal of a list by
  a function that may fail, and the collections of rewrite rules the component theories fill.

  A Go map value (\<open>map[string]V\<close>) has no order and no duplicate keys, and Go writes it out
  sorted by key.  It is modelled by the association list it would be written as: strictly
  sorted by the bytes of its keys.  The empty list stands for the empty map and for the nil
  map, which no operation modelled here tells apart (\<open>len\<close> is 0 for both and the first
  assignment allocates).
\<close>

named_theorems go_map "laws of Go maps as sorted association lists"
named_theorems codec_simps "definitions of the value codecs of encoding/json"
named_theorems codec_ok "value codecs that satisfy their contract"

section \<open>Traversals that may fail\<close>

fun traverse :: "('a \<Rightarrow> 'b option) \<Rightarrow> 'a list \<Rightarrow> 'b list option" where
  "traverse f [] = Some []"
| "traverse f (x # xs) =
     (case f x of None \<Rightarrow> None
      | Some y \<Rightarrow> (case traverse f xs of None \<Rightarrow> None | Some ys \<Rightarrow> Some (y # ys)))"

lemma traverse_cong [fundef_cong]:
  assumes "xs = ys" and "\<And>x. x \<in> set ys \<Longrightarrow> f x = g x"
  shows "traverse f xs = traverse g ys"
  unfolding assms(1) using assms(2) by (induction ys) (auto split: option.splits)

lemma traverse_eq_Some_iff:
  "traverse f xs = Some ys \<longleftrightarrow> list_all2 (\<lambda>x y. f x = Some y) xs ys"
proof (induction xs arbitrary: ys)
  case Nil
  then show ?case by auto
next
  case (Cons x xs)
  then show ?case by (auto simp: list_all2_Cons1 simp flip: Cons.IH split: option.splits)
qed

lemma list_all2_set2D: "list_all2 P xs ys \<Longrightarrow> y \<in> set ys \<Longrightarrow> \<exists>x \<in> set xs. P x y"
  by (induction rule: list_all2_induct) auto

lemma traverse_all_Some:
  "(\<And>x. x \<in> set xs \<Longrightarrow> f x = Some (g x)) \<Longrightarrow> traverse f xs = Some (map g xs)"
  by (induction xs) auto

lemma traverse_id:
  "(\<And>x. x \<in> set xs \<Longrightarrow> f x = Some x) \<Longrightarrow> traverse f xs = Some xs"
  using traverse_all_Some [of xs f "\<lambda>x. x"] by simp

lemma traverse_None_iff: "traverse f xs = None \<longleftrightarrow> (\<exists>x \<in> set xs. f x = None)"
  by (induction xs) (auto split: option.splits)

lemma traverse_map: "traverse f (map g xs) = traverse (\<lambda>x. f (g x)) xs"
  by (induction xs) (auto split: option.splits)

lemma pred_option_True [simp]: "pred_option (\<lambda>_. True) x"
  by (cases x) simp_all

section \<open>Go maps keyed by strings\<close>

type_synonym 'v gomap = "(string \<times> 'v) list"

definition gm_ok :: "'v gomap \<Rightarrow> bool" where
  "gm_ok m \<longleftrightarrow> sorted_wrt (<) (map fst m)"

definition gm_get :: "'v gomap \<Rightarrow> string \<Rightarrow> 'v option" where
  "gm_get m k = map_of m k"

fun gm_put :: "string \<Rightarrow> 'v \<Rightarrow> 'v gomap \<Rightarrow> 'v gomap" where
  "gm_put k v [] = [(k, v)]"
| "gm_put k v ((k', v') # m) =
     (if k < k' then (k, v) # (k', v') # m
      else if k = k' then (k, v) # m
      else (k', v') # gm_put k v m)"

definition gm_put_all :: "(string \<times> 'v) list \<Rightarrow> 'v gomap \<Rightarrow> 'v gomap" where
  "gm_put_all kvs m = fold (\<lambda>(k, v). gm_put k v) kvs m"

lemma gm_ok_simps [simp]:
  "gm_ok []"
  "gm_ok ((k, v) # m) \<longleftrightarrow> (\<forall>k' \<in> fst ` set m. k < k') \<and> gm_ok m"
  by (auto simp: gm_ok_def)

lemma gm_put_all_simps [simp]:
  "gm_put_all [] m = m"
  "gm_put_all ((k, v) # kvs) m = gm_put_all kvs (gm_put k v m)"
  by (simp_all add: gm_put_all_def)

lemma keys_gm_put [simp]: "fst ` set (gm_put k v m) = insert k (fst ` set m)"
  by (induction k v m rule: gm_put.induct) auto

lemma gm_get_put: "gm_get (gm_put k v m) = (gm_get m)(k \<mapsto> v)"
  unfolding gm_get_def by (induction k v m rule: gm_put.induct) (auto simp: fun_eq_iff)

lemma gm_ok_put: "gm_ok m \<Longrightarrow> gm_ok (gm_put k v m)"
proof (induction k v m rule: gm_put.induct)
  case (2 k v k' v' m)
  then show ?case by auto
qed simp

lemma gm_put_put [simp]: "gm_put k v (gm_put k w m) = gm_put k v m"
  by (induction k w m rule: gm_put.induct) auto

lemma gm_ok_distinct: "gm_ok m \<Longrightarrow> distinct (map fst m)"
  by (auto simp: gm_ok_def strict_sorted_iff)

lemma alist_of_keys:
  "distinct (map fst m) \<Longrightarrow> map (\<lambda>k. (k, the (map_of m k))) (map fst m) = m"
  by (rule map_idI [where xs = m, THEN trans [rotated], unfolded map_map]) (auto simp: o_def)

lemma gm_ext:
  assumes ok: "gm_ok m" "gm_ok m'" and eq: "gm_get m = gm_get m'"
  shows "m = m'"
proof -
  have get: "map_of m = map_of m'"
    using eq by (simp add: gm_get_def fun_eq_iff)
  have "set (map fst m) = set (map fst m')"
    using arg_cong [OF get, of dom] by (simp add: dom_map_of_conv_image_fst)
  then have "map fst m = map fst m'"
    using ok unfolding gm_ok_def by (metis strict_sorted_equal)
  then show ?thesis
    using alist_of_keys [OF gm_ok_distinct [OF ok(1)]] alist_of_keys [OF gm_ok_distinct [OF ok(2)]] get
    by metis
qed

text \<open>
  The contract of a finite map with a well-formedness invariant.  The components that hold Go
  maps (the extra keys of a document, the field maps of a predicate, headers) rely on these
  laws only; \<open>string_map\<close> lemmas are about a run of assignments.
\<close>

locale string_map =
  fixes ok :: "'m \<Rightarrow> bool"
    and get :: "'m \<Rightarrow> 'k \<Rightarrow> 'v option"
    and put :: "'k \<Rightarrow> 'v \<Rightarrow> 'm \<Rightarrow> 'm"
  assumes get_put: "get (put k v m) = (get m)(k \<mapsto> v)"
    and ok_put: "ok m \<Longrightarrow> ok (put k v m)"
    and ext_ok: "ok m \<Longrightarrow> ok m' \<Longrightarrow> get m = get m' \<Longrightarrow> m = m'"
begin

lemma put_idem: "ok m \<Longrightarrow> get m k = Some v \<Longrightarrow> put k v m = m"
  by (rule ext_ok) (auto simp: get_put ok_put fun_eq_iff)

lemma put_put_same: "ok m \<Longrightarrow> put k v (put k w m) = put k v m"
  by (rule ext_ok) (auto simp: get_put ok_put fun_eq_iff)

lemma put_commute: "ok m \<Longrightarrow> k \<noteq> k' \<Longrightarrow> put k v (put k' w m) = put k' w (put k v m)"
  by (rule ext_ok) (auto simp: get_put ok_put fun_eq_iff)

lemma ok_fold_put: "ok m \<Longrightarrow> ok (fold (\<lambda>(k, v). put k v) kvs m)"
  by (induction kvs arbitrary: m) (auto simp: ok_put)

lemma get_fold_put: "get (fold (\<lambda>(k, v). put k v) kvs m) = get m ++ map_of (rev kvs)"
proof (induction kvs arbitrary: m)
  case Nil
  then show ?case by simp
next
  case (Cons kv kvs)
  then show ?case
    by (cases kv) (auto simp: get_put map_add_def fun_eq_iff map_of_append split: option.splits)
qed

end

interpretation gm: string_map gm_ok gm_get gm_put
  by unfold_locales (auto simp: gm_get_put gm_ok_put intro: gm_ext)

lemma gm_ok_put_all [simp]: "gm_ok m \<Longrightarrow> gm_ok (gm_put_all kvs m)"
  unfolding gm_put_all_def by (rule gm.ok_fold_put)

lemma gm_get_put_all: "gm_get (gm_put_all kvs m) = gm_get m ++ map_of (rev kvs)"
  unfolding gm_put_all_def by (rule gm.get_fold_put)

lemma gm_get_Nil [simp]: "gm_get [] = Map.empty"
  by (simp add: gm_get_def fun_eq_iff)

lemma map_of_rev_distinct: "distinct (map fst kvs) \<Longrightarrow> map_of (rev kvs) = map_of kvs"
  by (rule map_of_inject_set [THEN iffD2]) (auto simp: rev_map [symmetric])

lemma gm_put_all_ok_self: "gm_ok m \<Longrightarrow> gm_put_all m [] = m"
  by (rule gm_ext) (simp_all add: gm_get_put_all map_of_rev_distinct gm_ok_distinct, simp add: gm_get_def fun_eq_iff)

lemma gm_in_set_get: "gm_ok m \<Longrightarrow> (k, v) \<in> set m \<longleftrightarrow> gm_get m k = Some v"
  by (simp add: gm_get_def gm_ok_distinct)

lemma gm_get_in_set: "gm_get m k = Some v \<Longrightarrow> (k, v) \<in> set m"
  by (simp add: gm_get_def map_of_SomeD)

lemma gm_ok_filter [simp]: "gm_ok m \<Longrightarrow> gm_ok (filter P m)"
  by (induction m) auto

lemma gm_get_filter:
  "distinct (map fst m) \<Longrightarrow> gm_get (filter (\<lambda>(k, v). P k) m) k = (if P k then gm_get m k else None)"
  unfolding gm_get_def by (induction m) (auto simp: map_of_eq_None_iff)

lemmas go_map_laws [go_map] =
  gm_get_put gm_ok_put gm_get_put_all gm_ok_put_all gm_get_Nil gm_get_filter

section \<open>Decimal numerals\<close>

text \<open>The \<open>%d\<close> verb of the fmt package.\<close>

definition digit :: "nat \<Rightarrow> char" where
  "digit n = char_of (48 + n)"

fun decimal :: "nat \<Rightarrow> string" where
  "decimal n = (if n < 10 then [digit n] else decimal (n div 10) @ [digit (n mod 10)])"

declare decimal.simps [simp del]

definition decimal_int :: "int \<Rightarrow> string" where
  "decimal_int i = (if i < 0 then CHR ''-'' # decimal (nat (- i)) else decimal (nat i))"

definition digit_value :: "char \<Rightarrow> nat" where
  "digit_value c = of_char c - 48"

definition decimal_value :: "string \<Rightarrow> nat" where
  "decimal_value s = foldl (\<lambda>n c. 10 * n + digit_value c) 0 s"

lemma digit_value_digit [simp]: "n < 10 \<Longrightarrow> digit_value (digit n) = n"
  by (simp add: digit_def digit_value_def)

lemma decimal_value_decimal [simp]: "decimal_value (decimal n) = n"
proof (induction n rule: decimal.induct)
  case (1 n)
  then show ?case
    by (subst decimal.simps) (auto simp: decimal_value_def)
qed

lemma decimal_inj: "decimal m = decimal n \<longleftrightarrow> m = n"
  by (metis decimal_value_decimal)

lemma decimal_digits: "c \<in> set (decimal n) \<Longrightarrow> \<exists>d < 10. c = digit d"
proof (induction n rule: decimal.induct)
  case (1 n)
  have "n mod 10 < 10" by simp
  then show ?case
    using 1 decimal.simps [of n] by (cases "n < 10") (auto intro: exI [of _ "n mod 10"])
qed

lemma decimal_not_Nil [simp]: "decimal n \<noteq> []"
  by (subst decimal.simps) simp

lemma digit_neq [simp]: "d < 10 \<Longrightarrow> digit d \<noteq> CHR ''/''" "d < 10 \<Longrightarrow> digit d \<noteq> CHR '':''"
  by (auto simp: digit_def dest!: arg_cong [where f = "of_char :: char \<Rightarrow> nat"])

end
