(* ===== verification/Json.thy ===== *)
theory Json
  imports Prelude
begin

text \<open>
  JSON documents and the part of Go's \<open>encoding/json\<close> that the SDK uses.

  A document is a tree.  An object keeps its members in document order, duplicates included,
  because the decoder visits them in that order and a later duplicate wins.  Text is not
  modelled: a document stands for the bytes that spell it.  Numbers are integer literals (all
  the grammar's own numbers are); a literal with a fraction or an exponent is outside the model.
  A number that passes through an untyped value becomes a float64: \<open>f64_of_int\<close> is the rounding
  of the IEEE conversion, and a number in an emitted document stands for the float64 it spells.
\<close>

section \<open>Documents\<close>

datatype json =
    JNull
  | JBool bool
  | JNum int
  | JStr string
  | JArr "json list"
  | JObj "(string \<times> json) list"

type_synonym members = "(string \<times> json) list"

text \<open>Member \<open>k\<close> of an object, as a reader that keeps the last duplicate sees it.\<close>

definition obj_get :: "json \<Rightarrow> string \<Rightarrow> json option" where
  "obj_get j k = (case j of JObj kvs \<Rightarrow> map_of (rev kvs) k | _ \<Rightarrow> None)"

text \<open>Nesting depth: what bounds the recursion of a decoder.\<close>

fun json_depth :: "json \<Rightarrow> nat" where
  "json_depth (JArr js) = Suc (Max (set (0 # map json_depth js)))"
| "json_depth (JObj kvs) = Suc (Max (set (0 # map (\<lambda>kv. json_depth (snd kv)) kvs)))"
| "json_depth _ = 0"

lemma json_depth_JArr: "j \<in> set js \<Longrightarrow> json_depth j < json_depth (JArr js)"
  by (simp add: less_Suc_eq_le)

lemma json_depth_JObj: "(k, j) \<in> set kvs \<Longrightarrow> json_depth j < json_depth (JObj kvs)"
  by (force simp: less_Suc_eq_le intro!: Max_ge)

section \<open>Numbers in untyped values\<close>

fun bit_len :: "nat \<Rightarrow> nat" where
  "bit_len n = (if n = 0 then 0 else Suc (bit_len (n div 2)))"

declare bit_len.simps [simp del]

text \<open>Round to a 53-bit significand, ties to even; \<open>2 ^ 1024\<close> and above overflow.\<close>

definition f64_nat :: "nat \<Rightarrow> nat option" where
  "f64_nat n =
     (let e = bit_len n - 53; q = n div 2 ^ e; r = n mod 2 ^ e;
          q' = (if 2 ^ e < 2 * r \<or> (2 ^ e = 2 * r \<and> odd q) then Suc q else q);
          v = q' * 2 ^ e
      in if 2 ^ 1024 \<le> v then None else Some v)"

definition f64_of_int :: "int \<Rightarrow> int option" where
  "f64_of_int i = map_option (\<lambda>n. sgn i * int n) (f64_nat (nat \<bar>i\<bar>))"

lemma bit_len_le: "n < 2 ^ k \<Longrightarrow> bit_len n \<le> k"
proof (induction k arbitrary: n)
  case 0
  then show ?case by (simp add: bit_len.simps)
next
  case (Suc k)
  have "n div 2 < 2 ^ k" using Suc.prems by auto
  then show ?case using Suc.IH [of "n div 2"] by (subst bit_len.simps) simp
qed

lemma less_bit_len: "n < 2 ^ bit_len n"
proof (induction n rule: bit_len.induct)
  case (1 n)
  show ?case
  proof (cases "n = 0")
    case False
    with 1 have "n div 2 < 2 ^ bit_len (n div 2)" by simp
    then have "n < 2 * 2 ^ bit_len (n div 2)" by auto
    with False show ?thesis by (subst bit_len.simps) simp
  qed (simp add: bit_len.simps)
qed

lemma f64_nat_aligned:
  assumes "n mod 2 ^ (bit_len n - 53) = 0" and "n < 2 ^ 1024"
  shows "f64_nat n = Some n"
  using assms div_mult_mod_eq [of n "2 ^ (bit_len n - 53)"] by (auto simp: f64_nat_def Let_def)

lemma f64_nat_exact: "n \<le> 2 ^ 53 \<Longrightarrow> f64_nat n = Some n"
proof (rule f64_nat_aligned)
  assume "n \<le> 2 ^ 53"
  then consider "n < 2 ^ 53" | "n = 2 ^ 53" by linarith
  then show "n mod 2 ^ (bit_len n - 53) = 0"
  proof cases
    case 1
    then have "bit_len n - 53 = 0" using bit_len_le [of n 53] by simp
    then show ?thesis by simp
  next
    case 2
    then have "bit_len n \<le> 54" using bit_len_le [of n 54] by simp
    then have "2 ^ (bit_len n - 53) dvd (2::nat) ^ 53"
      by (intro le_imp_power_dvd) simp
    with 2 show ?thesis by auto
  qed
  have "(2::nat) ^ 53 < 2 ^ 1024" by simp
  then show "n < 2 ^ 1024" using \<open>n \<le> 2 ^ 53\<close> by linarith
qed

text \<open>A float64 converts to itself: rounding is idempotent.\<close>

lemma f64_nat_idem:
  assumes "f64_nat n = Some v"
  shows "f64_nat v = Some v"
proof -
  define e where "e = bit_len n - 53"
  define q where "q = (if 2 ^ e < 2 * (n mod 2 ^ e) \<or> (2 ^ e = 2 * (n mod 2 ^ e) \<and> odd (n div 2 ^ e))
     then Suc (n div 2 ^ e) else n div 2 ^ e)"
  have v: "v = q * 2 ^ e" and lt: "v < 2 ^ 1024"
    using assms by (auto simp: f64_nat_def Let_def e_def q_def split: if_splits)
  have "n < 2 ^ (53 + e)"
    using less_bit_len [of n] power_increasing [of "bit_len n" "53 + e" "2::nat"]
    unfolding e_def by linarith
  then have "n div 2 ^ e < 2 ^ 53"
    by (simp add: power_add less_mult_imp_div_less)
  then have "q \<le> 2 ^ 53" by (simp add: q_def)
  then consider "q < 2 ^ 53" | "q = 2 ^ 53" by linarith
  then have "2 ^ (bit_len v - 53) dvd v"
  proof cases
    case 1
    then have "v < 2 ^ (53 + e)" by (simp add: v power_add)
    then have "bit_len v - 53 \<le> e" using bit_len_le [of v "53 + e"] by simp
    then show ?thesis unfolding v by (intro dvd_mult le_imp_power_dvd)
  next
    case 2
    then have v2: "v = 2 ^ (53 + e)" by (simp add: v power_add)
    then have "bit_len v \<le> 54 + e" using bit_len_le [of v "54 + e"] by simp
    then show ?thesis unfolding v2 by (intro le_imp_power_dvd) simp
  qed
  then show ?thesis using lt by (intro f64_nat_aligned) auto
qed

lemma f64_of_int_exact: "\<bar>i\<bar> \<le> 2 ^ 53 \<Longrightarrow> f64_of_int i = Some i"
proof -
  assume "\<bar>i\<bar> \<le> 2 ^ 53"
  then have "nat \<bar>i\<bar> \<le> 2 ^ 53" by simp
  then show ?thesis by (simp add: f64_of_int_def f64_nat_exact sgn_mult_abs)
qed

lemma bit_len_numeral:
  "bit_len 0 = 0" "bit_len (Suc 0) = 1" "bit_len (numeral n) = Suc (bit_len (numeral n div 2))"
  by (simp_all add: bit_len.simps [of "numeral n"] bit_len.simps [of "Suc 0"] bit_len.simps [of 0])

text \<open>The first integer float64 does not represent.\<close>

lemma f64_of_int_rounds: "f64_of_int 9007199254740993 = Some 9007199254740992"
  by (simp add: f64_of_int_def f64_nat_def bit_len_numeral Let_def)

lemma f64_of_int_idem: "f64_of_int i = Some v \<Longrightarrow> f64_of_int v = Some v"
  by (auto simp: f64_of_int_def f64_nat_idem abs_mult sgn_mult sgn_if split: if_splits
      dest: f64_nat_idem)

section \<open>Untyped values\<close>

text \<open>
  \<open>json.Unmarshal\<close> into \<open>any\<close>: numbers become float64 (an error when they overflow), objects
  become maps.  The value is again a document tree, with every object a Go map.
\<close>

fun go_any :: "json \<Rightarrow> json option" where
  "go_any (JNum i) = map_option JNum (f64_of_int i)"
| "go_any (JArr js) = map_option JArr (traverse go_any js)"
| "go_any (JObj kvs) =
     map_option (\<lambda>vs. JObj (gm_put_all vs []))
       (traverse (\<lambda>kv. map_option (Pair (fst kv)) (go_any (snd kv))) kvs)"
| "go_any j = Some j"

text \<open>The members of an object decoded into \<open>map[string]any\<close>.\<close>

definition go_any_members :: "members \<Rightarrow> json gomap option" where
  "go_any_members kvs =
     map_option (\<lambda>vs. gm_put_all vs [])
       (traverse (\<lambda>kv. map_option (Pair (fst kv)) (go_any (snd kv))) kvs)"

lemma go_any_JObj: "go_any (JObj kvs) = map_option JObj (go_any_members kvs)"
  by (simp add: go_any_members_def option.map_comp o_def)

text \<open>Values that decoding leaves as they are, and documents whose numbers fit float64.\<close>

fun canonical :: "json \<Rightarrow> bool" where
  "canonical (JNum i) = (f64_of_int i = Some i)"
| "canonical (JArr js) = list_all canonical js"
| "canonical (JObj kvs) = (gm_ok kvs \<and> list_all (\<lambda>kv. canonical (snd kv)) kvs)"
| "canonical _ = True"

fun nums_ok :: "json \<Rightarrow> bool" where
  "nums_ok (JNum i) = (f64_of_int i \<noteq> None)"
| "nums_ok (JArr js) = list_all nums_ok js"
| "nums_ok (JObj kvs) = list_all (\<lambda>kv. nums_ok (snd kv)) kvs"
| "nums_ok _ = True"

lemma go_any_canonical: "canonical j \<Longrightarrow> go_any j = Some j"
proof (induction j rule: go_any.induct)
  case (2 js)
  then show ?case by (auto simp: list_all_iff intro!: traverse_id)
next
  case (3 kvs)
  have "traverse (\<lambda>kv. map_option (Pair (fst kv)) (go_any (snd kv))) kvs = Some kvs"
  proof (rule traverse_id)
    fix kv assume "kv \<in> set kvs"
    then have "go_any (snd kv) = Some (snd kv)"
      using 3 by (cases kv) (auto simp: list_all_iff)
    then show "map_option (Pair (fst kv)) (go_any (snd kv)) = Some kv" by simp
  qed
  then show ?case using 3 by (simp add: gm_put_all_ok_self)
qed auto

lemma go_any_nums_ok: "go_any j \<noteq> None \<longleftrightarrow> nums_ok j"
proof (induction j rule: go_any.induct)
  case (2 js)
  then show ?case by (auto simp: list_all_iff traverse_None_iff)
next
  case (3 kvs)
  have "\<And>kv. kv \<in> set kvs \<Longrightarrow> (go_any (snd kv) = None) = (\<not> nums_ok (snd kv))"
    using 3 by (metis prod.collapse)
  then show ?case by (auto simp: list_all_iff traverse_None_iff)
qed auto

lemma canonical_nums_ok: "canonical j \<Longrightarrow> nums_ok j"
  using go_any_canonical [of j] go_any_nums_ok [of j] by simp

lemma gm_put_all_keys: "fst ` set (gm_put_all kvs m) = fst ` set kvs \<union> fst ` set m"
proof (induction kvs arbitrary: m)
  case (Cons kv kvs)
  then show ?case by (cases kv) simp
qed simp

lemma set_gm_put: "set (gm_put k v m) \<subseteq> insert (k, v) (set m)"
  by (induction k v m rule: gm_put.induct) auto

lemma set_gm_put_all: "set (gm_put_all kvs m) \<subseteq> set kvs \<union> set m"
proof (induction kvs arbitrary: m)
  case (Cons kv kvs)
  then show ?case using set_gm_put [of "fst kv" "snd kv" m] by (cases kv) fastforce
qed simp

text \<open>Decoding yields a canonical value, so decoding is idempotent.\<close>

lemma go_any_is_canonical: "go_any j = Some v \<Longrightarrow> canonical v"
proof (induction j arbitrary: v rule: go_any.induct)
  case (1 i)
  then show ?case by (auto dest: f64_of_int_idem)
next
  case (2 js)
  then obtain vs where vs: "list_all2 (\<lambda>x y. go_any x = Some y) js vs" and "v = JArr vs"
    by (auto simp: traverse_eq_Some_iff)
  moreover have "list_all canonical vs"
    using vs 2(1) by (force simp: list_all_iff list_all2_conv_all_nth in_set_conv_nth)
  ultimately show ?case by simp
next
  case (3 kvs)
  then obtain vs where
    vs: "list_all2 (\<lambda>x y. map_option (Pair (fst x)) (go_any (snd x)) = Some y) kvs vs"
    and v: "v = JObj (gm_put_all vs [])"
    by (auto simp: traverse_eq_Some_iff)
  have "canonical (snd y)" if y: "y \<in> set vs" for y
  proof -
    obtain x where "x \<in> set kvs" "map_option (Pair (fst x)) (go_any (snd x)) = Some y"
      using list_all2_set2D [OF vs y] by blast
    then show ?thesis using 3(1) [of x] by auto
  qed
  then show ?case using set_gm_put_all [of vs "[]"] by (auto simp: v list_all_iff)
qed auto

lemma go_any_idem: "go_any j = Some v \<Longrightarrow> go_any v = Some v"
  by (rule go_any_canonical) (rule go_any_is_canonical)

text \<open>The map an object decodes to, member by member.\<close>

lemma map_of_traverse_members:
  "traverse (\<lambda>kv. map_option (Pair (fst kv)) (f (snd kv))) kvs = Some vs \<Longrightarrow>
   map_of (rev vs) k = Option.bind (map_of (rev kvs) k) f"
proof (induction kvs arbitrary: vs)
  case (Cons kv kvs)
  then obtain v vs' where v: "f (snd kv) = Some v"
    and vs': "traverse (\<lambda>kv. map_option (Pair (fst kv)) (f (snd kv))) kvs = Some vs'"
    and vs: "vs = (fst kv, v) # vs'"
    by (auto split: option.splits)
  have "f x \<noteq> None" if "map_of (rev kvs) k = Some x" for x
  proof -
    have "(k, x) \<in> set kvs" using map_of_SomeD [OF that] by simp
    moreover have "\<not> (\<exists>kv \<in> set kvs. map_option (Pair (fst kv)) (f (snd kv)) = None)"
      using vs' unfolding traverse_None_iff [symmetric] by simp
    ultimately show ?thesis by auto
  qed
  then show ?case
    using Cons.IH [OF vs'] v
    by (cases kv) (auto simp: vs map_of_append map_add_def split: option.splits)
qed simp

lemma go_any_members_ok: "go_any_members kvs = Some m \<Longrightarrow> gm_ok m"
  by (auto simp: go_any_members_def)

lemma go_any_members_get:
  "go_any_members kvs = Some m \<Longrightarrow> gm_get m k = Option.bind (map_of (rev kvs) k) go_any"
  by (auto simp: go_any_members_def gm_get_put_all map_of_traverse_members)

lemma go_any_members_exists:
  "(\<And>k j. (k, j) \<in> set kvs \<Longrightarrow> nums_ok j) \<Longrightarrow> \<exists>m. go_any_members kvs = Some m"
proof -
  assume "\<And>k j. (k, j) \<in> set kvs \<Longrightarrow> nums_ok j"
  then have "nums_ok (JObj kvs)" by (auto simp: list_all_iff)
  then show ?thesis using go_any_nums_ok [of "JObj kvs"] unfolding go_any_JObj by auto
qed

lemma go_any_members_canonical:
  assumes "gm_ok kvs" and "\<And>k j. (k, j) \<in> set kvs \<Longrightarrow> canonical j"
  shows "go_any_members kvs = Some kvs"
proof -
  have "canonical (JObj kvs)" using assms by (auto simp: list_all_iff)
  then show ?thesis using go_any_canonical [of "JObj kvs"] unfolding go_any_JObj by simp
qed

end
