(* ===== verification/Codec.thy ===== *)
theory Codec
  imports Json "HOL-Library.Word"
begin

text \<open>
  Struct encoding: how \<open>encoding/json\<close> maps a tagged Go struct to an object, and the
  escape-hatch contract of \<open>rift/json.go\<close> on top of it (\<open>marshalWithExtra\<close> and
  \<open>unmarshalWithExtra\<close>).

  The encoder works from a table with one entry per tagged field, in declaration order, as
  Go's cached type information does: the wire key, how the field is written (\<open>None\<close> when
  \<open>omitempty\<close> drops it), how a member is decoded into it, and the assignment of that one field.
  A member is matched to a field by exact name, else by case folding.
\<close>

section \<open>Fields\<close>

record 'v vcodec =
  vc_enc :: "'v \<Rightarrow> json option"
  vc_dec :: "'v \<Rightarrow> json \<Rightarrow> 'v option"  \<comment> \<open>old value, document\<close>
  vc_zero :: "'v"

record 'r field =
  fname :: string
  fenc :: "'r \<Rightarrow> json option"
  fdec :: "json \<Rightarrow> 'r \<Rightarrow> 'r option"
  fcopy :: "'r \<Rightarrow> 'r \<Rightarrow> 'r"  \<comment> \<open>assign the first struct's field into the second struct\<close>

definition mk_field ::
    "string \<Rightarrow> 'v vcodec \<Rightarrow> ('r \<Rightarrow> 'v) \<Rightarrow> (('v \<Rightarrow> 'v) \<Rightarrow> 'r \<Rightarrow> 'r) \<Rightarrow> 'r field" where
  "mk_field n c get upd =
     \<lparr>fname = n,
      fenc = (\<lambda>r. vc_enc c (get r)),
      fdec = (\<lambda>j s. map_option (\<lambda>v. upd (\<lambda>_. v) s) (vc_dec c (get s) j)),
      fcopy = (\<lambda>r s. upd (\<lambda>_. get r) s)\<rparr>"

lemma mk_field_simps [simp]:
  "fname (mk_field n c get upd) = n"
  "fenc (mk_field n c get upd) r = vc_enc c (get r)"
  "fdec (mk_field n c get upd) j s = map_option (\<lambda>v. upd (\<lambda>_. v) s) (vc_dec c (get s) j)"
  by (simp_all add: mk_field_def)

lemma mk_field_copy: "fcopy (mk_field n c get upd) r s = upd (\<lambda>_. get r) s"
  by (simp add: mk_field_def)

text \<open>
  Case folding of member names: ASCII letters to upper case, and the two runes beyond ASCII
  whose fold class holds an ASCII letter, U+017F (bytes C5 BF, S) and U+212A (bytes E2 84 AA,
  K).  Any other rune folds to a rune beyond ASCII, which no wire key of the model contains.
\<close>

definition upcase :: "char \<Rightarrow> char" where
  "upcase c = (let n = (of_char c :: nat) in if 97 \<le> n \<and> n \<le> 122 then char_of (n - 32) else c)"

fun fold_name :: "string \<Rightarrow> string" where
  "fold_name [] = []"
| "fold_name (c # cs) =
     (if c = CHR 0xC5 \<and> take 1 cs = [CHR 0xBF] then CHR ''S'' # fold_name (drop 1 cs)
      else if c = CHR 0xE2 \<and> take 2 cs = [CHR 0x84, CHR 0xAA] then CHR ''K'' # fold_name (drop 2 cs)
      else upcase c # fold_name cs)"

definition find_field :: "'r field list \<Rightarrow> string \<Rightarrow> 'r field option" where
  "find_field fs k =
     (case find (\<lambda>f. fname f = k) fs of
        Some f \<Rightarrow> Some f
      | None \<Rightarrow> find (\<lambda>f. fold_name (fname f) = fold_name k) fs)"

section \<open>Structs\<close>

definition enc_fields :: "'r field list \<Rightarrow> 'r \<Rightarrow> members" where
  "enc_fields fs r = List.map_filter (\<lambda>f. map_option (Pair (fname f)) (fenc f r)) fs"

fun dec_fields :: "'r field list \<Rightarrow> members \<Rightarrow> 'r \<Rightarrow> 'r option" where
  "dec_fields fs [] s = Some s"
| "dec_fields fs ((k, j) # kvs) s =
     (case find_field fs k of
        None \<Rightarrow> dec_fields fs kvs s
      | Some f \<Rightarrow> (case fdec f j s of None \<Rightarrow> None | Some s' \<Rightarrow> dec_fields fs kvs s'))"

text \<open>A struct without methods: null leaves it as it is, anything but an object is an error.\<close>

definition dec_struct :: "'r field list \<Rightarrow> json \<Rightarrow> 'r \<Rightarrow> 'r option" where
  "dec_struct fs j s =
     (case j of JNull \<Rightarrow> Some s | JObj kvs \<Rightarrow> dec_fields fs kvs s | _ \<Rightarrow> None)"

definition enc_struct :: "'r field list \<Rightarrow> 'r \<Rightarrow> json" where
  "enc_struct fs r = JObj (enc_fields fs r)"

section \<open>The escape hatch (rift/json.go)\<close>

definition known_keys :: "'r field list \<Rightarrow> string list" where
  "known_keys fs = map fname fs"

text \<open>\<open>marshalWithExtra\<close>: an extra entry is skipped when its key was already written.\<close>

fun add_extra :: "json gomap \<Rightarrow> json gomap \<Rightarrow> json gomap" where
  "add_extra [] merged = merged"
| "add_extra ((k, v) # extra) merged =
     add_extra extra (if gm_get merged k \<noteq> None then merged else gm_put k v merged)"

definition merge_extra :: "members \<Rightarrow> json gomap \<Rightarrow> json gomap" where
  "merge_extra kvs extra = add_extra extra (gm_put_all kvs [])"

definition marshal_with_extra :: "members \<Rightarrow> json gomap \<Rightarrow> json" where
  "marshal_with_extra kvs extra =
     (if extra = [] then JObj kvs else JObj (merge_extra kvs extra))"

text \<open>\<open>unmarshalWithExtra\<close>: decode the struct, then collect every key that is not a wire key.\<close>

definition unmarshal_with_extra ::
    "'r field list \<Rightarrow> json \<Rightarrow> 'r \<Rightarrow> ('r \<times> json gomap) option" where
  "unmarshal_with_extra fs j s =
     (case dec_struct fs j s of
        None \<Rightarrow> None
      | Some s' \<Rightarrow>
          (case j of
             JObj kvs \<Rightarrow>
               (case go_any_members kvs of
                  None \<Rightarrow> None
                | Some all_kvs \<Rightarrow>
                    Some (s', filter (\<lambda>(k, v). k \<notin> set (known_keys fs)) all_kvs))
           | _ \<Rightarrow> Some (s', [])))"

text \<open>
  The \<open>MarshalJSON\<close> and \<open>UnmarshalJSON\<close> methods of the open structs are these two functions at
  the struct's table; the second starts from the zero struct.
\<close>

definition marshal_open :: "'r field list \<Rightarrow> ('r \<Rightarrow> json gomap) \<Rightarrow> 'r \<Rightarrow> json" where
  "marshal_open fs get_extra r = marshal_with_extra (enc_fields fs r) (get_extra r)"

definition unmarshal_open ::
    "'r field list \<Rightarrow> 'r \<Rightarrow> (json gomap \<Rightarrow> 'r \<Rightarrow> 'r) \<Rightarrow> json \<Rightarrow> 'r option" where
  "unmarshal_open fs zero set_extra j =
     map_option (\<lambda>(s, rest). set_extra rest s) (unmarshal_with_extra fs j zero)"

section \<open>Value codecs\<close>

definition omit_string :: "string vcodec" where
  "omit_string =
     \<lparr>vc_enc = (\<lambda>s. if s = [] then None else Some (JStr s)),
      vc_dec = (\<lambda>old j. case j of JNull \<Rightarrow> Some old | JStr s \<Rightarrow> Some s | _ \<Rightarrow> None),
      vc_zero = []\<rparr>"

definition req_string :: "string vcodec" where
  "req_string = omit_string\<lparr>vc_enc := (\<lambda>s. Some (JStr s))\<rparr>"

definition omit_bool :: "bool vcodec" where
  "omit_bool =
     \<lparr>vc_enc = (\<lambda>b. if b then Some (JBool True) else None),
      vc_dec = (\<lambda>old j. case j of JNull \<Rightarrow> Some old | JBool b \<Rightarrow> Some b | _ \<Rightarrow> None),
      vc_zero = False\<rparr>"

definition omit_u16 :: "16 word vcodec" where
  "omit_u16 =
     \<lparr>vc_enc = (\<lambda>w. if w = 0 then None else Some (JNum (uint w))),
      vc_dec = (\<lambda>old j. case j of JNull \<Rightarrow> Some old
                 | JNum i \<Rightarrow> if 0 \<le> i \<and> i < 2 ^ 16 then Some (word_of_int i) else None
                 | _ \<Rightarrow> None),
      vc_zero = 0\<rparr>"

definition req_u16 :: "16 word vcodec" where
  "req_u16 = omit_u16\<lparr>vc_enc := (\<lambda>w. Some (JNum (uint w)))\<rparr>"

text \<open>Go's \<open>int\<close> is 64 bits wide; the SDK only stores and compares these, so the model keeps
  the value and checks the range where a document is decoded.\<close>

definition go_int :: "int \<Rightarrow> bool" where
  "go_int i \<longleftrightarrow> - (2 ^ 63) \<le> i \<and> i < 2 ^ 63"

definition omit_int :: "int vcodec" where
  "omit_int =
     \<lparr>vc_enc = (\<lambda>i. if i = 0 then None else Some (JNum i)),
      vc_dec = (\<lambda>old j. case j of JNull \<Rightarrow> Some old
                 | JNum i \<Rightarrow> if go_int i then Some i else None
                 | _ \<Rightarrow> None),
      vc_zero = 0\<rparr>"

definition req_int :: "int vcodec" where
  "req_int = omit_int\<lparr>vc_enc := (\<lambda>i. Some (JNum i))\<rparr>"

text \<open>\<open>*bool\<close> and \<open>*uint64\<close>: nil is omitted, a pointer to the zero value is written.\<close>

definition omit_bool_ptr :: "bool option vcodec" where
  "omit_bool_ptr =
     \<lparr>vc_enc = map_option JBool,
      vc_dec = (\<lambda>old j. case j of JNull \<Rightarrow> Some None | JBool b \<Rightarrow> Some (Some b) | _ \<Rightarrow> None),
      vc_zero = None\<rparr>"

definition omit_u64_ptr :: "64 word option vcodec" where
  "omit_u64_ptr =
     \<lparr>vc_enc = map_option (\<lambda>w. JNum (uint w)),
      vc_dec = (\<lambda>old j. case j of JNull \<Rightarrow> Some None
                 | JNum i \<Rightarrow> if 0 \<le> i \<and> i < 2 ^ 64 then Some (Some (word_of_int i)) else None
                 | _ \<Rightarrow> None),
      vc_zero = None\<rparr>"

text \<open>\<open>JSON\<close> (\<open>any\<close>): nil is \<open>JNull\<close>.\<close>

definition omit_any :: "json vcodec" where
  "omit_any =
     \<lparr>vc_enc = (\<lambda>v. if v = JNull then None else Some v),
      vc_dec = (\<lambda>old j. go_any j),
      vc_zero = JNull\<rparr>"

definition req_any :: "json vcodec" where
  "req_any = omit_any\<lparr>vc_enc := Some\<rparr>"

text \<open>\<open>map[string]JSON\<close> and \<open>map[string]string\<close>: a member is added to the map already there.\<close>

definition omit_map :: "json gomap vcodec" where
  "omit_map =
     \<lparr>vc_enc = (\<lambda>m. if m = [] then None else Some (JObj m)),
      vc_dec = (\<lambda>old j. case j of JNull \<Rightarrow> Some []
                 | JObj kvs \<Rightarrow> map_option (\<lambda>m. gm_put_all m old) (go_any_members kvs)
                 | _ \<Rightarrow> None),
      vc_zero = []\<rparr>"

definition dec_string_elem :: "json \<Rightarrow> string option" where
  "dec_string_elem j = (case j of JNull \<Rightarrow> Some [] | JStr s \<Rightarrow> Some s | _ \<Rightarrow> None)"

definition omit_string_map :: "string gomap vcodec" where
  "omit_string_map =
     \<lparr>vc_enc = (\<lambda>m. if m = [] then None else Some (JObj (map (map_prod id JStr) m))),
      vc_dec = (\<lambda>old j. case j of JNull \<Rightarrow> Some []
                 | JObj kvs \<Rightarrow>
                     map_option (\<lambda>m. gm_put_all m old)
                       (traverse (\<lambda>kv. map_option (Pair (fst kv)) (dec_string_elem (snd kv))) kvs)
                 | _ \<Rightarrow> None),
      vc_zero = []\<rparr>"

text \<open>Slices and pointers of an element type with encoder \<open>e\<close> and decoder \<open>d\<close>.\<close>

definition omit_slice :: "('a \<Rightarrow> json) \<Rightarrow> (json \<Rightarrow> 'a option) \<Rightarrow> 'a list vcodec" where
  "omit_slice e d =
     \<lparr>vc_enc = (\<lambda>xs. if xs = [] then None else Some (JArr (map e xs))),
      vc_dec = (\<lambda>old j. case j of JNull \<Rightarrow> Some [] | JArr js \<Rightarrow> traverse d js | _ \<Rightarrow> None),
      vc_zero = []\<rparr>"

text \<open>Without \<open>omitempty\<close> a nil slice is written as null and an empty one as \<open>[]\<close>.\<close>

definition req_slice :: "('a \<Rightarrow> json) \<Rightarrow> (json \<Rightarrow> 'a option) \<Rightarrow> 'a list option vcodec" where
  "req_slice e d =
     \<lparr>vc_enc = (\<lambda>v. Some (case v of None \<Rightarrow> JNull | Some xs \<Rightarrow> JArr (map e xs))),
      vc_dec = (\<lambda>old j. case j of JNull \<Rightarrow> Some None
                 | JArr js \<Rightarrow> map_option Some (traverse d js) | _ \<Rightarrow> None),
      vc_zero = None\<rparr>"

definition omit_ptr :: "('a \<Rightarrow> json) \<Rightarrow> (json \<Rightarrow> 'a option) \<Rightarrow> 'a option vcodec" where
  "omit_ptr e d =
     \<lparr>vc_enc = map_option e,
      vc_dec = (\<lambda>old j. if j = JNull then Some None else map_option Some (d j)),
      vc_zero = None\<rparr>"

text \<open>A struct value with methods, and structs without methods behind a pointer or by value.\<close>

definition req_value :: "('a \<Rightarrow> json) \<Rightarrow> (json \<Rightarrow> 'a option) \<Rightarrow> 'a \<Rightarrow> 'a vcodec" where
  "req_value e d z = \<lparr>vc_enc = (\<lambda>v. Some (e v)), vc_dec = (\<lambda>old j. d j), vc_zero = z\<rparr>"

definition omit_struct_ptr :: "'a field list \<Rightarrow> 'a \<Rightarrow> 'a option vcodec" where
  "omit_struct_ptr fs z =
     \<lparr>vc_enc = map_option (enc_struct fs),
      vc_dec = (\<lambda>old j. if j = JNull then Some None
                 else map_option Some (dec_struct fs j (case old of None \<Rightarrow> z | Some s \<Rightarrow> s))),
      vc_zero = None\<rparr>"

definition req_struct :: "'a field list \<Rightarrow> 'a \<Rightarrow> 'a vcodec" where
  "req_struct fs z =
     \<lparr>vc_enc = (\<lambda>v. Some (enc_struct fs v)),
      vc_dec = (\<lambda>old j. dec_struct fs j old),
      vc_zero = z\<rparr>"

lemmas vcodec_defs [codec_simps] =
  omit_string_def req_string_def omit_bool_def omit_u16_def req_u16_def omit_int_def req_int_def
  omit_bool_ptr_def omit_u64_ptr_def omit_any_def req_any_def omit_map_def omit_string_map_def
  omit_slice_def req_slice_def omit_ptr_def req_value_def omit_struct_ptr_def req_struct_def

end
