(* ===== verification/CodecLaws.thy ===== *)
theory CodecLaws
  imports Codec
begin

text \<open>
  The contracts of the codecs and what follows from them for every struct of the wire model:
  a well-formed value decodes back from its own encoding, a key that is not a wire key passes
  through untouched, and a written field wins over an extra entry.  The proofs are done once,
  in the locales \<open>struct_codec\<close>, \<open>closed_struct\<close> and \<open>open_struct\<close>; the theory of the wire model
  interprets them at its tables.
\<close>

section \<open>Contracts\<close>

locale value_codec =
  fixes c :: "'v vcodec" and valid :: "'v \<Rightarrow> bool"
  assumes dec_enc: "valid v \<Longrightarrow> vc_enc c v = Some j \<Longrightarrow> vc_dec c (vc_zero c) j = Some v"
    and enc_nums: "valid v \<Longrightarrow> vc_enc c v = Some j \<Longrightarrow> nums_ok j"
    and enc_none: "vc_enc c v = None \<Longrightarrow> v = vc_zero c"

text \<open>Documents for the values of one type.\<close>

locale doc_codec =
  fixes e :: "'a \<Rightarrow> json" and d :: "json \<Rightarrow> 'a option" and valid :: "'a \<Rightarrow> bool"
  assumes roundtrip: "valid v \<Longrightarrow> d (e v) = Some v"
    and nums: "valid v \<Longrightarrow> nums_ok (e v)"
begin

lemma traverse_enc: "list_all valid xs \<Longrightarrow> traverse d (map e xs) = Some xs"
  by (induction xs) (auto simp: roundtrip)

lemma nums_map: "list_all valid xs \<Longrightarrow> list_all nums_ok (map e xs)"
  by (induction xs) (auto simp: nums)

lemma by_value_codec: "value_codec (req_value e d z) valid"
  by unfold_locales (auto simp: req_value_def roundtrip nums)

end

sublocale doc_codec \<subseteq> slice: value_codec "omit_slice e d" "list_all valid"
  by unfold_locales (auto simp: omit_slice_def traverse_enc nums_map split: if_splits)

sublocale doc_codec \<subseteq> rslice: value_codec "req_slice e d" "pred_option (list_all valid)"
  by unfold_locales (auto simp: req_slice_def traverse_enc nums_map split: option.splits)

text \<open>Behind a pointer null is taken by nil, so a value must not be written as null.\<close>

locale nonnull_codec = doc_codec e d valid
  for e :: "'a \<Rightarrow> json" and d :: "json \<Rightarrow> 'a option" and valid :: "'a \<Rightarrow> bool" +
  assumes not_null: "e v \<noteq> JNull"

sublocale nonnull_codec \<subseteq> ptr: value_codec "omit_ptr e d" "pred_option valid"
  by unfold_locales (auto simp: omit_ptr_def roundtrip nums not_null)

context nonnull_codec
begin

lemma ptr_codec: "value_codec (omit_ptr e d) (pred_option valid)"
  by (rule ptr.value_codec_axioms)

lemma slice_codec: "value_codec (omit_slice e d) (list_all valid)"
  by (rule slice.value_codec_axioms)

end

section \<open>The value codecs satisfy the contract\<close>

lemma uint_u16_less: "uint (w :: 16 word) < 65536"
  using uint_lt2p [of w] by simp

lemma uint_u64_less: "uint (w :: 64 word) < 18446744073709551616"
proof -
  have "2 ^ LENGTH(64) = (18446744073709551616 :: int)" by simp
  then show ?thesis using uint_bounded [of w] by (simp only:)
qed

text \<open>Every 64-bit integer is in the range of float64.\<close>

lemma f64_nat_total: "n < 2 ^ 1023 \<Longrightarrow> f64_nat n \<noteq> None"
proof -
  assume n: "n < 2 ^ 1023"
  define e where "e = bit_len n - 53"
  define q where "q = n div 2 ^ e"
  have "e \<le> 970" using bit_len_le [OF n] by (simp add: e_def)
  have "n < 2 ^ (53 + e)"
    using less_bit_len [of n] power_increasing [of "bit_len n" "53 + e" "2::nat"]
    unfolding e_def by linarith
  then have "q < 2 ^ 53" unfolding q_def by (simp add: power_add less_mult_imp_div_less)
  then have le: "Suc q * 2 ^ e \<le> 2 ^ 53 * 2 ^ e" by (intro mult_right_mono) simp_all
  have "(2::nat) ^ (53 + e) \<le> 2 ^ 1023" using \<open>e \<le> 970\<close> by (intro power_increasing) simp_all
  then have "Suc q * 2 ^ e < 2 ^ 1024" using le by (simp only: power_add [symmetric]) simp
  moreover have "q * 2 ^ e \<le> Suc q * 2 ^ e" by simp
  ultimately show ?thesis
    unfolding f64_nat_def Let_def e_def [symmetric] q_def [symmetric] by (auto split: if_splits)
qed

lemma f64_of_int_64: "\<bar>i\<bar> < 2 ^ 64 \<Longrightarrow> nums_ok (JNum i)"
proof -
  assume "\<bar>i\<bar> < 2 ^ 64"
  then have "nat \<bar>i\<bar> < 2 ^ 64" by (simp add: nat_less_iff)
  also have "(2::nat) ^ 64 < 2 ^ 1023" by simp
  finally show ?thesis using f64_nat_total by (simp add: f64_of_int_def)
qed

lemma nums_ok_u16 [simp]: "nums_ok (JNum (uint (w :: 16 word)))"
  by (rule f64_of_int_64) (use uint_u16_less [of w] in simp)

lemma nums_ok_u64 [simp]: "nums_ok (JNum (uint (w :: 64 word)))"
  by (rule f64_of_int_64) (use uint_u64_less [of w] in simp)

lemma nums_ok_go_int: "go_int i \<Longrightarrow> nums_ok (JNum i)"
  by (rule f64_of_int_64) (auto simp: go_int_def)

declare nums_ok.simps(1) [simp del]

interpretation omit_string: value_codec omit_string "\<lambda>_. True"
  by unfold_locales (auto simp: codec_simps split: if_splits)

interpretation req_string: value_codec req_string "\<lambda>_. True"
  by unfold_locales (auto simp: codec_simps)

interpretation omit_bool: value_codec omit_bool "\<lambda>_. True"
  by unfold_locales (auto simp: codec_simps split: if_splits)

interpretation omit_u16: value_codec omit_u16 "\<lambda>_. True"
  by unfold_locales (auto simp: codec_simps uint_u16_less split: if_splits)

interpretation req_u16: value_codec req_u16 "\<lambda>_. True"
  by unfold_locales (auto simp: codec_simps uint_u16_less)

interpretation omit_int: value_codec omit_int go_int
  by unfold_locales (auto simp: codec_simps nums_ok_go_int split: if_splits)

interpretation req_int: value_codec req_int go_int
  by unfold_locales (auto simp: codec_simps nums_ok_go_int)

interpretation omit_bool_ptr: value_codec omit_bool_ptr "\<lambda>_. True"
  by unfold_locales (auto simp: codec_simps)

interpretation omit_u64_ptr: value_codec omit_u64_ptr "\<lambda>_. True"
  by unfold_locales (auto simp: codec_simps uint_u64_less)

interpretation omit_any: value_codec omit_any canonical
  by unfold_locales (auto simp: codec_simps go_any_canonical canonical_nums_ok split: if_splits)

interpretation req_any: value_codec req_any canonical
  by unfold_locales (auto simp: codec_simps go_any_canonical canonical_nums_ok)


interpretation any_elem: doc_codec id go_any canonical
  by unfold_locales (auto simp: go_any_canonical canonical_nums_ok)

section \<open>Fields\<close>

text \<open>
  What a table entry must do at a well-formed struct: decoding what was encoded assigns the
  field, starting from a struct whose field is still zero; an omitted field is zero; assigning
  twice is assigning once.
\<close>

definition field_ok :: "'r \<Rightarrow> ('r \<Rightarrow> bool) \<Rightarrow> 'r field \<Rightarrow> bool" where
  "field_ok zero valid f \<longleftrightarrow>
     (\<forall>r s j. valid r \<longrightarrow> fenc f r = Some j \<longrightarrow> fcopy f zero s = s \<longrightarrow>
        fdec f j s = Some (fcopy f r s) \<and> nums_ok j) \<and>
     (\<forall>r s. valid r \<longrightarrow> fenc f r = None \<longrightarrow> fcopy f r s = fcopy f zero s) \<and>
     (\<forall>r s. fcopy f r (fcopy f r s) = fcopy f r s) \<and>
     fcopy f zero zero = zero"

definition commute_fields :: "'r field \<Rightarrow> 'r field \<Rightarrow> bool" where
  "commute_fields f g \<longleftrightarrow>
     (\<forall>r r' s. fcopy f r (fcopy g r' s) = fcopy g r' (fcopy f r s))"

lemma commute_fields_sym: "commute_fields f g \<Longrightarrow> commute_fields g f"
  unfolding commute_fields_def by metis

lemma field_okI:
  assumes c: "value_codec c P"
    and get_upd: "\<And>g s. get (upd g s) = g (get s)"
    and upd_upd: "\<And>x y s. upd (\<lambda>_. x) (upd (\<lambda>_. y) s) = upd (\<lambda>_. x) s"
    and upd_get: "upd (\<lambda>_. get zero) zero = zero"
    and zero: "get zero = vc_zero c"
    and valid: "\<And>r. valid r \<Longrightarrow> P (get r)"
  shows "field_ok zero valid (mk_field n c get upd)"
proof -
  have z: "get s = vc_zero c" if "upd (\<lambda>_. get zero) s = s" for s
    using get_upd [of "\<lambda>_. get zero" s] that zero by simp
  show ?thesis
    unfolding field_ok_def mk_field_simps mk_field_copy
    using value_codec.dec_enc [OF c valid] value_codec.enc_nums [OF c valid] value_codec.enc_none [OF c]
    by (auto simp: z upd_upd upd_get [unfolded zero] zero)
qed

lemma commute_mk_fieldI:
  "(\<And>x y s. upd (\<lambda>_. x) (upd' (\<lambda>_. y) s) = upd' (\<lambda>_. y) (upd (\<lambda>_. x) s)) \<Longrightarrow>
   commute_fields (mk_field n c get upd) (mk_field n' c' get' upd')"
  by (simp add: commute_fields_def mk_field_copy)

section \<open>Structs\<close>

lemma in_enc_fields:
  "(k, j) \<in> set (enc_fields fs r) \<longleftrightarrow> (\<exists>f \<in> set fs. fname f = k \<and> fenc f r = Some j)"
  by (induction fs) (auto simp: enc_fields_def List.map_filter_simps split: option.splits)

lemma map_fst_enc_fields:
  "map fst (enc_fields fs r) = map fname (filter (\<lambda>f. fenc f r \<noteq> None) fs)"
  by (induction fs) (auto simp: enc_fields_def List.map_filter_simps split: option.splits)

lemma enc_fields_simps:
  "enc_fields [] r = []"
  "enc_fields (f # fs) r =
     (case fenc f r of None \<Rightarrow> enc_fields fs r | Some j \<Rightarrow> (fname f, j) # enc_fields fs r)"
  by (simp_all add: enc_fields_def List.map_filter_simps split: option.split)

lemma enc_fields_append: "enc_fields (fs @ gs) r = enc_fields fs r @ enc_fields gs r"
  by (simp add: enc_fields_def List.map_filter_def)

text \<open>Two tables that decode the members of an object alike.\<close>

lemma find_rel:
  "list_all2 R fs gs \<Longrightarrow> (\<And>f g. R f g \<Longrightarrow> P f = Q g) \<Longrightarrow> rel_option R (find P fs) (find Q gs)"
  by (induction rule: list_all2_induct) auto

lemma find_field_rel:
  "list_all2 R fs gs \<Longrightarrow> (\<And>f g. R f g \<Longrightarrow> fname f = fname g) \<Longrightarrow>
   rel_option R (find_field fs k) (find_field gs k)"
  using find_rel [of R fs gs "\<lambda>f. fname f = k" "\<lambda>f. fname f = k"]
    find_rel [of R fs gs "\<lambda>f. fold_name (fname f) = fold_name k" "\<lambda>f. fold_name (fname f) = fold_name k"]
  by (auto simp: find_field_def option_rel_Some1 option_rel_Some2 split: option.splits)

definition same_decoding :: "json set \<Rightarrow> 'r field \<Rightarrow> 'r field \<Rightarrow> bool" where
  "same_decoding js f g \<longleftrightarrow> fname f = fname g \<and> (\<forall>j \<in> js. \<forall>s. fdec f j s = fdec g j s)"

lemma dec_fields_cong:
  assumes "list_all2 (same_decoding js) fs gs" and "snd ` set kvs \<subseteq> js"
  shows "dec_fields fs kvs s = dec_fields gs kvs s"
  using assms(2)
proof (induction kvs arbitrary: s)
  case (Cons kj kvs)
  have "rel_option (same_decoding js) (find_field fs (fst kj)) (find_field gs (fst kj))"
    by (rule find_field_rel [OF assms(1)]) (simp add: same_decoding_def)
  then show ?case
    using Cons
    by (cases kj) (auto simp: same_decoding_def option_rel_Some1 split: option.splits)
qed simp

locale struct_codec =
  fixes fs :: "'r field list" and zero :: 'r and valid :: "'r \<Rightarrow> bool"
  assumes names: "distinct (map fname fs)"
    and fields_ok: "list_all (field_ok zero valid) fs"
    and commutes: "sorted_wrt commute_fields fs"
begin

lemma field_okD: "f \<in> set fs \<Longrightarrow> field_ok zero valid f"
  using fields_ok by (simp add: list_all_iff)

lemma dec_enc_field:
  "f \<in> set fs \<Longrightarrow> valid r \<Longrightarrow> fenc f r = Some j \<Longrightarrow> fcopy f zero s = s \<Longrightarrow>
   fdec f j s = Some (fcopy f r s)"
  using field_okD unfolding field_ok_def by blast

lemma field_nums: "f \<in> set fs \<Longrightarrow> valid r \<Longrightarrow> fenc f r = Some j \<Longrightarrow> nums_ok j"
  using field_okD unfolding field_ok_def by metis

lemma omitted_field: "f \<in> set fs \<Longrightarrow> valid r \<Longrightarrow> fenc f r = None \<Longrightarrow> fcopy f r s = fcopy f zero s"
  using field_okD unfolding field_ok_def by blast

lemma copy_copy: "f \<in> set fs \<Longrightarrow> fcopy f r (fcopy f r s) = fcopy f r s"
  using field_okD unfolding field_ok_def by blast

lemma copy_zero: "f \<in> set fs \<Longrightarrow> fcopy f zero zero = zero"
  using field_okD unfolding field_ok_def by blast

lemma commute:
  assumes "f \<in> set fs" and "g \<in> set fs" and "f \<noteq> g"
  shows "fcopy f r (fcopy g r' s) = fcopy g r' (fcopy f r s)"
proof -
  obtain i j where "i < length fs" "j < length fs" "fs ! i = f" "fs ! j = g" "i \<noteq> j"
    using assms by (metis in_set_conv_nth)
  then have "commute_fields f g \<or> commute_fields g f"
    using commutes unfolding sorted_wrt_iff_nth_less by (metis linorder_neqE_nat)
  then show ?thesis using commute_fields_sym unfolding commute_fields_def by blast
qed

lemma same_name: "f \<in> set fs \<Longrightarrow> g \<in> set fs \<Longrightarrow> fname f = fname g \<Longrightarrow> f = g"
  using names by (metis distinct_map inj_onD)

lemma find_exact: "f \<in> set fs \<Longrightarrow> find_field fs (fname f) = Some f"
proof -
  assume f: "f \<in> set fs"
  have "find (\<lambda>g. fname g = fname f) fs \<noteq> None"
    using f by (auto simp: find_None_iff)
  then obtain g where g: "find (\<lambda>g. fname g = fname f) fs = Some g" by auto
  then have "g \<in> set fs" "fname g = fname f" by (auto simp: find_Some_iff)
  then show ?thesis using g f same_name by (auto simp: find_field_def)
qed

lemma find_in_set: "find_field fs k = Some f \<Longrightarrow> f \<in> set fs"
  by (auto simp: find_field_def find_Some_iff split: option.splits)

lemma find_None_unknown: "find_field fs k = None \<Longrightarrow> k \<notin> set (known_keys fs)"
  using find_exact by (force simp: known_keys_def)

text \<open>The members a struct writes.\<close>

lemma keys_enc_fields: "fst ` set (enc_fields fs r) \<subseteq> set (known_keys fs)"
  by (auto simp: in_enc_fields known_keys_def)

lemma distinct_enc_fields: "distinct (map fst (enc_fields fs r))"
  unfolding map_fst_enc_fields using names by (rule distinct_map_filter)

lemma map_of_enc_fields: "f \<in> set fs \<Longrightarrow> map_of (enc_fields fs r) (fname f) = fenc f r"
proof (cases "fenc f r")
  case None
  assume "f \<in> set fs"
  then have "fname f \<notin> fst ` set (enc_fields fs r)"
    using None same_name by (force simp: in_enc_fields)
  then show ?thesis using None by (simp add: map_of_eq_None_iff)
next
  case (Some j)
  assume "f \<in> set fs"
  then show ?thesis using Some distinct_enc_fields by (auto simp: in_enc_fields)
qed

lemma map_of_enc_fields_unknown: "k \<notin> set (known_keys fs) \<Longrightarrow> map_of (enc_fields fs r) k = None"
  using keys_enc_fields by (fastforce simp: map_of_eq_None_iff)

lemma dec_fields_assigns:
  assumes valid: "valid r"
    and dist: "distinct (map fst kvs)"
    and hit: "\<And>k j f. (k, j) \<in> set kvs \<Longrightarrow> find_field fs k = Some f \<Longrightarrow>
                fname f = k \<and> fenc f r = Some j"
    and fresh: "\<And>f. f \<in> set fs \<Longrightarrow> fname f \<in> fst ` set kvs \<Longrightarrow> fcopy f zero s = s"
  shows "\<exists>s'. dec_fields fs kvs s = Some s' \<and>
    (\<forall>f \<in> set fs. fname f \<in> fst ` set kvs \<longrightarrow> fcopy f r s' = s') \<and>
    (\<forall>f \<in> set fs. fname f \<notin> fst ` set kvs \<longrightarrow> (\<forall>t. fcopy f t s = s \<longrightarrow> fcopy f t s' = s'))"
  using dist hit fresh
proof (induction kvs arbitrary: s)
  case Nil
  then show ?case by simp
next
  case (Cons kj kvs)
  obtain k j where kj: "kj = (k, j)" by force
  have dist: "distinct (map fst kvs)" using Cons.prems(1) by simp
  have hit: "fname f = k \<and> fenc f r = Some j" if "(k, j) \<in> set kvs" "find_field fs k = Some f" for k j f
    using Cons.prems(2) [of k j f] that by simp
  show ?case
  proof (cases "find_field fs k")
    case None
    then have "fname f \<noteq> k" if "f \<in> set fs" for f using find_exact [OF that] by auto
    moreover obtain s' where "dec_fields fs kvs s = Some s'"
      "\<forall>f \<in> set fs. fname f \<in> fst ` set kvs \<longrightarrow> fcopy f r s' = s'"
      "\<forall>f \<in> set fs. fname f \<notin> fst ` set kvs \<longrightarrow> (\<forall>t. fcopy f t s = s \<longrightarrow> fcopy f t s' = s')"
      using Cons.IH [OF dist hit, of s] Cons.prems(3) by (auto simp: kj)
    ultimately show ?thesis using None by (auto simp: kj)
  next
    case (Some f)
    then have f: "f \<in> set fs" "fname f = k" "fenc f r = Some j"
      using Cons.prems(2) [of k j f] find_in_set by (auto simp: kj)
    define s1 where "s1 = fcopy f r s"
    have dec: "fdec f j s = Some s1"
      unfolding s1_def using dec_enc_field [OF f(1) valid f(3)] Cons.prems(3) [OF f(1)] f(2)
      by (simp add: kj)
    have other: "fcopy g t s1 = s1" if "g \<in> set fs" "g \<noteq> f" "fcopy g t s = s" for g t
      unfolding s1_def using commute [OF that(1) f(1) that(2)] that(3) by simp
    have notin: "fname f \<notin> fst ` set kvs" using Cons.prems(1) f(2) by (auto simp: kj)
    have "fcopy g zero s1 = s1" if "g \<in> set fs" "fname g \<in> fst ` set kvs" for g
      using that notin Cons.prems(3) [of g] by (intro other) auto
    then obtain s' where s': "dec_fields fs kvs s1 = Some s'"
      "\<forall>f \<in> set fs. fname f \<in> fst ` set kvs \<longrightarrow> fcopy f r s' = s'"
      "\<forall>f \<in> set fs. fname f \<notin> fst ` set kvs \<longrightarrow> (\<forall>t. fcopy f t s1 = s1 \<longrightarrow> fcopy f t s' = s')"
      using Cons.IH [OF dist hit, of s1] by blast
    have "fcopy f r s' = s'"
      using s'(3) f(1) notin copy_copy [OF f(1), of r s] by (auto simp: s1_def)
    then have "\<forall>g \<in> set fs. fname g \<in> fst ` set (kj # kvs) \<longrightarrow> fcopy g r s' = s'"
      using s'(2) same_name f(1,2) by (metis imageE insertE list.simps(15) fst_conv image_insert kj)
    moreover have "\<forall>g \<in> set fs. fname g \<notin> fst ` set (kj # kvs) \<longrightarrow>
        (\<forall>t. fcopy g t s = s \<longrightarrow> fcopy g t s' = s')"
      using s'(3) other f(2) by (auto simp: kj)
    ultimately show ?thesis using Some dec s'(1) by (auto simp: kj)
  qed
qed

text \<open>
  Decoding, from the zero struct, an object whose wire keys hold exactly what \<open>r\<close> writes gives a
  struct that agrees with \<open>r\<close> in every field, whatever the order of the members and whatever
  else the object holds under keys that match no field.
\<close>

lemma dec_fields_agree:
  assumes valid: "valid r" and dist: "distinct (map fst kvs)"
    and known: "\<And>f. f \<in> set fs \<Longrightarrow> map_of kvs (fname f) = fenc f r"
    and unknown: "\<And>k. k \<in> fst ` set kvs \<Longrightarrow> k \<notin> set (known_keys fs) \<Longrightarrow> find_field fs k = None"
  shows "\<exists>s. dec_fields fs kvs zero = Some s \<and> (\<forall>f \<in> set fs. fcopy f r s = s)"
proof -
  have hit: "fname f = k \<and> fenc f r = Some j" if "(k, j) \<in> set kvs" "find_field fs k = Some f" for k j f
  proof -
    have "k \<in> set (known_keys fs)" using that unknown [of k] by force
    then obtain g where g: "g \<in> set fs" "fname g = k" by (auto simp: known_keys_def)
    then have "g = f" using find_exact that(2) by auto
    then show ?thesis using g known [of f] that(1) dist by (auto simp: map_of_eq_Some_iff)
  qed
  obtain s where s: "dec_fields fs kvs zero = Some s"
    "\<forall>f \<in> set fs. fname f \<in> fst ` set kvs \<longrightarrow> fcopy f r s = s"
    "\<forall>f \<in> set fs. fname f \<notin> fst ` set kvs \<longrightarrow> (\<forall>t. fcopy f t zero = zero \<longrightarrow> fcopy f t s = s)"
    using dec_fields_assigns [OF valid dist hit, of zero] copy_zero by blast
  have "fcopy f r s = s" if f: "f \<in> set fs" "fname f \<notin> fst ` set kvs" for f
  proof -
    have "fenc f r = None" using known [OF f(1)] f(2) by (metis map_of_eq_None_iff)
    then have "fcopy f r s = fcopy f zero s" by (rule omitted_field [OF f(1) valid])
    then show ?thesis using s(3) f copy_zero by simp
  qed
  then show ?thesis using s by blast
qed

lemma enc_fields_nums: "valid r \<Longrightarrow> (k, j) \<in> set (enc_fields fs r) \<Longrightarrow> nums_ok j"
  using field_nums by (auto simp: in_enc_fields)

lemma dec_enc_fields:
  assumes "valid r"
  shows "\<exists>s. dec_fields fs (enc_fields fs r) zero = Some s \<and> (\<forall>f \<in> set fs. fcopy f r s = s)"
proof (rule dec_fields_agree [OF assms distinct_enc_fields map_of_enc_fields])
  fix k assume k: "k \<in> fst ` set (enc_fields fs r)" and unknown: "k \<notin> set (known_keys fs)"
  from subsetD [OF keys_enc_fields k] unknown show "find_field fs k = None" by contradiction
qed

end

text \<open>Structs without methods.\<close>

locale closed_struct = struct_codec fs zero valid
  for fs :: "'r field list" and zero :: 'r and valid :: "'r \<Rightarrow> bool" +
  assumes cover: "(\<And>f. f \<in> set fs \<Longrightarrow> fcopy f r s = s) \<Longrightarrow> s = r"
begin

lemma dec_enc_struct: "valid r \<Longrightarrow> dec_struct fs (enc_struct fs r) zero = Some r"
proof -
  assume "valid r"
  then obtain s where s: "dec_fields fs (enc_fields fs r) zero = Some s"
    and same: "\<And>f. f \<in> set fs \<Longrightarrow> fcopy f r s = s"
    using dec_enc_fields by blast
  from same have "s = r" by (rule cover)
  with s show ?thesis by (simp add: dec_struct_def enc_struct_def)
qed

lemma nums_enc_struct: "valid r \<Longrightarrow> nums_ok (enc_struct fs r)"
  using enc_fields_nums by (auto simp: enc_struct_def list_all_iff)

end

sublocale closed_struct \<subseteq> doc: nonnull_codec "enc_struct fs" "\<lambda>j. dec_struct fs j zero" valid
  by unfold_locales (simp_all add: dec_enc_struct nums_enc_struct, simp add: enc_struct_def)

sublocale closed_struct \<subseteq> struct_ptr: value_codec "omit_struct_ptr fs zero" "pred_option valid"
  by unfold_locales
     (auto simp: omit_struct_ptr_def dec_enc_struct nums_enc_struct, simp add: enc_struct_def)

sublocale closed_struct \<subseteq> struct_val: value_codec "req_struct fs zero" valid
  by unfold_locales (auto simp: req_struct_def dec_enc_struct nums_enc_struct)

text \<open>
  Open structs, with the map of extra keys.  An extra entry is well formed when its value is a
  Go value and its key matches no field, not even up to case.
\<close>

definition extra_ok :: "'r field list \<Rightarrow> json gomap \<Rightarrow> bool" where
  "extra_ok fs m \<longleftrightarrow>
     gm_ok m \<and> list_all (\<lambda>(k, v). canonical v \<and> find_field fs k = None) m"

text \<open>What \<open>marshalWithExtra\<close> writes under each key: a written field wins, then the extra entry.\<close>

lemma add_extra_get:
  "gm_get (add_extra extra m) k = (case gm_get m k of None \<Rightarrow> map_of extra k | Some j \<Rightarrow> Some j)"
  by (induction extra m rule: add_extra.induct) (auto simp: gm_get_put split: option.splits if_splits)

lemma add_extra_ok: "gm_ok m \<Longrightarrow> gm_ok (add_extra extra m)"
  by (induction extra m rule: add_extra.induct) (auto simp: gm_ok_put)

lemma merge_extra_ok: "gm_ok (merge_extra kvs extra)"
  by (simp add: merge_extra_def add_extra_ok)

lemma merge_extra_get:
  "distinct (map fst kvs) \<Longrightarrow>
   gm_get (merge_extra kvs extra) k = (case map_of kvs k of None \<Rightarrow> map_of extra k | Some j \<Rightarrow> Some j)"
  by (simp add: merge_extra_def add_extra_get gm_get_put_all map_of_rev_distinct)

lemma marshal_with_extra_get:
  assumes "distinct (map fst kvs)"
  shows "obj_get (marshal_with_extra kvs extra) k =
     (case map_of kvs k of None \<Rightarrow> map_of extra k | Some j \<Rightarrow> Some j)"
proof (cases "extra = []")
  case True
  then show ?thesis
    using assms by (simp add: marshal_with_extra_def obj_get_def map_of_rev_distinct split: option.splits)
next
  case False
  have "map_of (rev (merge_extra kvs extra)) = gm_get (merge_extra kvs extra)"
    by (simp add: gm_get_def fun_eq_iff map_of_rev_distinct gm_ok_distinct merge_extra_ok)
  then show ?thesis
    using False assms
    by (simp add: marshal_with_extra_def obj_get_def merge_extra_get)
qed

lemma marshal_with_extra_members:
  assumes "distinct (map fst kvs)"
  shows "\<exists>ms. marshal_with_extra kvs extra = JObj ms \<and> distinct (map fst ms) \<and>
    (\<forall>k. map_of ms k = (case map_of kvs k of None \<Rightarrow> map_of extra k | Some j \<Rightarrow> Some j))"
proof -
  obtain ms where ms: "marshal_with_extra kvs extra = JObj ms" "distinct (map fst ms)"
    using assms gm_ok_distinct [OF merge_extra_ok]
    by (cases "extra = []") (auto simp: marshal_with_extra_def)
  then show ?thesis
    using marshal_with_extra_get [OF assms, of extra]
    by (auto simp: obj_get_def map_of_rev_distinct)
qed

locale open_struct = struct_codec fs zero valid
  for fs :: "'r field list" and zero :: 'r and valid :: "'r \<Rightarrow> bool" +
  fixes get_extra :: "'r \<Rightarrow> json gomap" and set_extra :: "json gomap \<Rightarrow> 'r \<Rightarrow> 'r"
  assumes cover: "(\<And>f. f \<in> set fs \<Longrightarrow> fcopy f r s = s) \<Longrightarrow> set_extra (get_extra r) s = r"
    and get_set: "get_extra (set_extra m s) = m"
    and valid_extra: "valid r \<Longrightarrow> extra_ok fs (get_extra r)"
begin

lemma marshal_get:
  "obj_get (marshal_open fs get_extra r) k =
     (case map_of (enc_fields fs r) k of None \<Rightarrow> gm_get (get_extra r) k | Some j \<Rightarrow> Some j)"
  unfolding marshal_open_def gm_get_def by (rule marshal_with_extra_get [OF distinct_enc_fields])

text \<open>A written field wins over an extra entry of the same key.\<close>

lemma marshal_declared:
  "f \<in> set fs \<Longrightarrow> fenc f r = Some j \<Longrightarrow>
   obj_get (marshal_open fs get_extra r) (fname f) = Some j"
  by (simp add: marshal_get map_of_enc_fields)

text \<open>A field dropped by \<open>omitempty\<close> does not: the extra entry takes its place.\<close>

lemma marshal_omitted:
  "f \<in> set fs \<Longrightarrow> fenc f r = None \<Longrightarrow>
   obj_get (marshal_open fs get_extra r) (fname f) = gm_get (get_extra r) (fname f)"
  by (simp add: marshal_get map_of_enc_fields)

text \<open>
  The escape hatch: a member under a key that is not a wire key comes out of a round trip as
  the untyped value it decodes to.
\<close>

lemma unknown_key_survives:
  assumes dec: "unmarshal_open fs zero set_extra (JObj kvs) = Some r"
    and k: "k \<notin> set (known_keys fs)"
  shows "obj_get (marshal_open fs get_extra r) k = Option.bind (obj_get (JObj kvs) k) go_any"
proof -
  obtain s m where s: "dec_fields fs kvs zero = Some s" and m: "go_any_members kvs = Some m"
    and r: "r = set_extra (filter (\<lambda>(k, v). k \<notin> set (known_keys fs)) m) s"
    using dec by (auto simp: unmarshal_open_def unmarshal_with_extra_def dec_struct_def
        split: option.splits)
  have "gm_get (get_extra r) k = gm_get m k"
    using k gm_get_filter [OF gm_ok_distinct [OF go_any_members_ok [OF m]], of "\<lambda>k. k \<notin> set (known_keys fs)" k]
    by (simp add: r get_set)
  then show ?thesis
    using map_of_enc_fields_unknown [OF k] go_any_members_get [OF m]
    by (simp add: marshal_get) (simp add: obj_get_def)
qed

lemma filter_unknown_members:
  assumes valid: "valid r" and m: "go_any_members ms = Some m" and dist: "distinct (map fst ms)"
    and ms: "\<And>k. map_of ms k =
      (case map_of (enc_fields fs r) k of None \<Rightarrow> map_of (get_extra r) k | Some j \<Rightarrow> Some j)"
  shows "filter (\<lambda>(k, v). k \<notin> set (known_keys fs)) m = get_extra r" (is "?rest = _")
proof (rule gm_ext)
  have ok: "extra_ok fs (get_extra r)" by (rule valid_extra [OF valid])
  show "gm_ok ?rest" using go_any_members_ok [OF m] by simp
  show "gm_ok (get_extra r)" using ok by (simp add: extra_ok_def)
  have extra: "go_any v = Some v \<and> k \<notin> set (known_keys fs)"
    if "gm_get (get_extra r) k = Some v" for k v
    using gm_get_in_set [OF that] ok find_None_unknown
    by (auto simp: extra_ok_def list_all_iff go_any_canonical)
  show "gm_get ?rest = gm_get (get_extra r)"
  proof
    fix k
    have "gm_get ?rest k = (if k \<notin> set (known_keys fs) then gm_get m k else None)"
      by (rule gm_get_filter) (rule gm_ok_distinct, rule go_any_members_ok [OF m])
    also have "\<dots> = gm_get (get_extra r) k"
      using extra [of k] map_of_enc_fields_unknown [of k r] go_any_members_get [OF m, of k]
      by (cases "gm_get (get_extra r) k")
         (auto simp: map_of_rev_distinct [OF dist] ms gm_get_def)
    finally show "gm_get ?rest k = gm_get (get_extra r) k" .
  qed
qed

lemma members_of_valid:
  assumes "valid r"
  obtains ms where "marshal_open fs get_extra r = JObj ms" and "distinct (map fst ms)"
    and "\<And>k. map_of ms k =
      (case map_of (enc_fields fs r) k of None \<Rightarrow> map_of (get_extra r) k | Some j \<Rightarrow> Some j)"
    and "\<And>k j. (k, j) \<in> set ms \<Longrightarrow> nums_ok j"
    and "\<And>k. k \<in> fst ` set ms \<Longrightarrow> k \<notin> set (known_keys fs) \<Longrightarrow> find_field fs k = None"
    and "\<And>f. f \<in> set fs \<Longrightarrow> map_of ms (fname f) = fenc f r"
proof -
  have ok: "extra_ok fs (get_extra r)" by (rule valid_extra [OF assms])
  obtain ms where ms: "marshal_open fs get_extra r = JObj ms" "distinct (map fst ms)"
    "\<And>k. map_of ms k =
      (case map_of (enc_fields fs r) k of None \<Rightarrow> map_of (get_extra r) k | Some j \<Rightarrow> Some j)"
    using marshal_with_extra_members [OF distinct_enc_fields, of r "get_extra r"]
    unfolding marshal_open_def by auto
  have split: "(k, j) \<in> set (enc_fields fs r) \<or> (k, j) \<in> set (get_extra r)" if "(k, j) \<in> set ms" for k j
    using map_of_is_SomeI [OF ms(2) that] ms(3) [of k]
    by (auto split: option.splits dest: map_of_SomeD)
  have "nums_ok j" if "(k, j) \<in> set ms" for k j
    using split [OF that] enc_fields_nums [OF assms] ok
    by (auto simp: extra_ok_def list_all_iff canonical_nums_ok)
  moreover have "find_field fs k = None" if "k \<in> fst ` set ms" "k \<notin> set (known_keys fs)" for k
    using that split keys_enc_fields [of r] ok by (fastforce simp: extra_ok_def list_all_iff)
  moreover have "map_of ms (fname f) = fenc f r" if "f \<in> set fs" for f
  proof -
    have "fname f \<notin> fst ` set (get_extra r)"
      using ok find_exact [OF that] by (fastforce simp: extra_ok_def list_all_iff)
    then have "map_of (get_extra r) (fname f) = None" by (simp add: map_of_eq_None_iff)
    then show ?thesis using ms(3) map_of_enc_fields [OF that] by (simp split: option.splits)
  qed
  ultimately show thesis using ms that by blast
qed

lemma open_roundtrip:
  assumes "valid r"
  shows "unmarshal_open fs zero set_extra (marshal_open fs get_extra r) = Some r"
proof -
  obtain ms where ms: "marshal_open fs get_extra r = JObj ms" "distinct (map fst ms)"
    "\<And>k. map_of ms k =
      (case map_of (enc_fields fs r) k of None \<Rightarrow> map_of (get_extra r) k | Some j \<Rightarrow> Some j)"
    "\<And>k j. (k, j) \<in> set ms \<Longrightarrow> nums_ok j"
    "\<And>k. k \<in> fst ` set ms \<Longrightarrow> k \<notin> set (known_keys fs) \<Longrightarrow> find_field fs k = None"
    "\<And>f. f \<in> set fs \<Longrightarrow> map_of ms (fname f) = fenc f r"
    using members_of_valid [OF assms] by blast
  obtain s where s: "dec_fields fs ms zero = Some s" "\<forall>f \<in> set fs. fcopy f r s = s"
    using dec_fields_agree [OF assms ms(2,6,5)] by blast
  obtain m where m: "go_any_members ms = Some m" using go_any_members_exists [of ms] ms(4) by blast
  show ?thesis
    using s(1) m filter_unknown_members [OF assms m ms(2,3)] cover [of r s, OF s(2) [rule_format]]
    by (simp add: unmarshal_open_def unmarshal_with_extra_def dec_struct_def ms(1))
qed

lemma nums_marshal_open: "valid r \<Longrightarrow> nums_ok (marshal_open fs get_extra r)"
  by (erule members_of_valid) (force simp: list_all_iff)

end

lemma marshal_open_not_null: "marshal_open fs ge r \<noteq> JNull"
  by (simp add: marshal_open_def marshal_with_extra_def)

sublocale open_struct \<subseteq>
    doc: nonnull_codec "marshal_open fs get_extra" "unmarshal_open fs zero set_extra" valid
  by unfold_locales (simp_all add: open_roundtrip nums_marshal_open marshal_open_not_null)

sublocale open_struct \<subseteq>
    val: value_codec "req_value (marshal_open fs get_extra) (unmarshal_open fs zero set_extra) zero" valid
  by unfold_locales (auto simp: req_value_def open_roundtrip nums_marshal_open)

text \<open>Assigning a field changes nothing exactly when the structs agree in it.\<close>

lemma fcopy_same_iff [simp]:
  "(\<And>g s. get (upd g s) = g (get s)) \<Longrightarrow> (\<And>s. upd (\<lambda>_. get s) s = s) \<Longrightarrow>
   fcopy (mk_field n c get upd) r s = s \<longleftrightarrow> get r = get s"
  unfolding mk_field_copy by metis

text \<open>Introduction rules that state the laws over the table, for the interpretations.\<close>

lemma closed_structI:
  assumes "distinct (map fname fs)" and "list_all (field_ok zero valid) fs"
    and "sorted_wrt commute_fields fs"
    and cover: "\<And>r s. list_all (\<lambda>f. fcopy f r s = s) fs \<Longrightarrow> s = r"
  shows "closed_struct fs zero valid"
  using assms by unfold_locales (auto simp: list_all_iff)

lemma open_structI:
  assumes "distinct (map fname fs)" and "list_all (field_ok zero valid) fs"
    and "sorted_wrt commute_fields fs"
    and cover: "\<And>r s. list_all (\<lambda>f. fcopy f r s = s) fs \<Longrightarrow> set_extra (get_extra r) s = r"
    and "\<And>m s. get_extra (set_extra m s) = m"
    and "\<And>r. valid r \<Longrightarrow> extra_ok fs (get_extra r)"
  shows "open_struct fs zero valid get_extra set_extra"
  using assms by unfold_locales (auto simp: list_all_iff)

section \<open>Maps\<close>

definition map_ok :: "json gomap \<Rightarrow> bool" where
  "map_ok m \<longleftrightarrow> gm_ok m \<and> list_all (\<lambda>kv. canonical (snd kv)) m"

interpretation omit_map: value_codec omit_map map_ok
proof unfold_locales
  fix m j
  assume m: "map_ok m" and j: "vc_enc omit_map m = Some j"
  then have "go_any_members m = Some m"
    by (intro go_any_members_canonical) (auto simp: map_ok_def list_all_iff)
  with m j show "vc_dec omit_map (vc_zero omit_map) j = Some m"
    by (auto simp: codec_simps gm_put_all_ok_self map_ok_def split: if_splits)
  from m j show "nums_ok j"
    by (auto simp: codec_simps map_ok_def list_all_iff canonical_nums_ok split: if_splits)
qed (auto simp: codec_simps split: if_splits)

interpretation omit_string_map: value_codec omit_string_map gm_ok
proof unfold_locales
  fix m :: "string gomap" and j
  assume m: "gm_ok m" and j: "vc_enc omit_string_map m = Some j"
  have "traverse (\<lambda>kv. map_option (Pair (fst kv)) (dec_string_elem (snd kv))) (map (map_prod id JStr) m)
      = Some m"
    by (simp add: traverse_map dec_string_elem_def) (rule traverse_id, simp)
  with m j show "vc_dec omit_string_map (vc_zero omit_string_map) j = Some m"
    by (auto simp: codec_simps gm_put_all_ok_self split: if_splits)
  from j show "nums_ok j"
    by (auto simp: codec_simps list_all_iff split: if_splits)
qed (auto simp: codec_simps split: if_splits)

lemmas base_codecs =
  omit_string.value_codec_axioms req_string.value_codec_axioms omit_bool.value_codec_axioms
  omit_u16.value_codec_axioms req_u16.value_codec_axioms omit_int.value_codec_axioms
  req_int.value_codec_axioms omit_bool_ptr.value_codec_axioms omit_u64_ptr.value_codec_axioms
  omit_any.value_codec_axioms req_any.value_codec_axioms omit_map.value_codec_axioms
  omit_string_map.value_codec_axioms any_elem.slice.value_codec_axioms

declare base_codecs [codec_ok]

lemma vc_zero_simps [simp]:
  "vc_zero omit_string = []" "vc_zero req_string = []" "vc_zero omit_bool = False"
  "vc_zero omit_u16 = 0" "vc_zero req_u16 = 0" "vc_zero omit_int = 0" "vc_zero req_int = 0"
  "vc_zero omit_bool_ptr = None" "vc_zero omit_u64_ptr = None"
  "vc_zero omit_any = JNull" "vc_zero req_any = JNull"
  "vc_zero omit_map = []" "vc_zero omit_string_map = []"
  "vc_zero (omit_slice e d) = []" "vc_zero (req_slice e d) = None" "vc_zero (omit_ptr e d) = None"
  "vc_zero (omit_struct_ptr fs z) = None" "vc_zero (req_struct fs z) = z"
  "vc_zero (req_value e d z) = z"
  by (simp_all add: codec_simps)

text \<open>Looking up a field by name in a concrete table.\<close>

lemma find_field_None_iff:
  "find_field fs k = None \<longleftrightarrow> fold_name k \<notin> set (map fold_name (known_keys fs))"
proof
  assume "find_field fs k = None"
  then have "find (\<lambda>f. fold_name (fname f) = fold_name k) fs = None"
    by (simp add: find_field_def split: option.splits)
  then show "fold_name k \<notin> set (map fold_name (known_keys fs))"
    by (force simp: find_None_iff known_keys_def)
next
  assume "fold_name k \<notin> set (map fold_name (known_keys fs))"
  then have "\<forall>f \<in> set fs. fold_name (fname f) \<noteq> fold_name k"
    by (force simp: known_keys_def)
  then show "find_field fs k = None"
    by (auto simp: find_field_def find_None_iff split: option.splits dest!: find_Some_iff [THEN iffD1])
qed

lemma find_field_head: "fname f = k \<Longrightarrow> find_field (f # fs) k = Some f"
  by (simp add: find_field_def)

lemma find_field_folded:
  "k \<notin> set (known_keys fs) \<Longrightarrow>
   find_field fs k = find (\<lambda>f. fold_name (fname f) = fold_name k) fs"
proof -
  assume "k \<notin> set (known_keys fs)"
  then have "find (\<lambda>f. fname f = k) fs = None" by (force simp: find_None_iff known_keys_def)
  then show ?thesis by (simp add: find_field_def)
qed

end
