(* ===== verification/Model.thy ===== *)
theory Model
  imports CodecLaws
begin

text \<open>
  The wire model of \<open>rift/model.go\<close>: one record per struct and one field table per struct, the
  entries in declaration order with the wire key and the tag of the source.  The encoder and
  decoder of every open struct are \<open>marshal_open\<close> and \<open>unmarshal_open\<close> at its table, as the
  \<open>MarshalJSON\<close> and \<open>UnmarshalJSON\<close> methods of \<open>rift/json.go\<close> are.  Predicates are recursive; their
  decoder runs on fuel bounded by the nesting depth of the document.
\<close>

section \<open>Canned and proxy responses\<close>

record is_response =
  ir_statusCode :: json
  ir_headers :: "json gomap"
  ir_body :: json
  ir_mode :: string
  ir_extra :: "json gomap"

definition is_response_zero :: is_response where
  "is_response_zero =
     \<lparr>ir_statusCode = JNull, ir_headers = [], ir_body = JNull, ir_mode = [], ir_extra = []\<rparr>"

definition is_response_fields :: "is_response field list" where
  "is_response_fields =
     [mk_field ''statusCode'' omit_any ir_statusCode ir_statusCode_update,
      mk_field ''headers'' omit_map ir_headers ir_headers_update,
      mk_field ''body'' omit_any ir_body ir_body_update,
      mk_field ''_mode'' omit_string ir_mode ir_mode_update]"

definition enc_is_response :: "is_response \<Rightarrow> json" where
  "enc_is_response = marshal_open is_response_fields ir_extra"

definition dec_is_response :: "json \<Rightarrow> is_response option" where
  "dec_is_response =
     unmarshal_open is_response_fields is_response_zero (\<lambda>m. ir_extra_update (\<lambda>_. m))"

record path_rewrite =
  rw_from :: string
  rw_to :: string

definition path_rewrite_zero :: path_rewrite where
  "path_rewrite_zero = \<lparr>rw_from = [], rw_to = []\<rparr>"

definition path_rewrite_fields :: "path_rewrite field list" where
  "path_rewrite_fields =
     [mk_field ''from'' req_string rw_from rw_from_update,
      mk_field ''to'' req_string rw_to rw_to_update]"

record proxy_response =
  px_to :: string
  px_mode :: string
  px_predicateGenerators :: "json list"
  px_addWaitBehavior :: bool
  px_addDecorateBehavior :: string
  px_injectHeaders :: "string gomap"
  px_pathRewrite :: "path_rewrite option"
  px_key :: string
  px_cert :: string
  px_extra :: "json gomap"

definition proxy_response_zero :: proxy_response where
  "proxy_response_zero =
     \<lparr>px_to = [], px_mode = [], px_predicateGenerators = [], px_addWaitBehavior = False,
      px_addDecorateBehavior = [], px_injectHeaders = [], px_pathRewrite = None, px_key = [],
      px_cert = [], px_extra = []\<rparr>"

definition proxy_response_fields :: "proxy_response field list" where
  "proxy_response_fields =
     [mk_field ''to'' req_string px_to px_to_update,
      mk_field ''mode'' omit_string px_mode px_mode_update,
      mk_field ''predicateGenerators'' (omit_slice id go_any)
        px_predicateGenerators px_predicateGenerators_update,
      mk_field ''addWaitBehavior'' omit_bool px_addWaitBehavior px_addWaitBehavior_update,
      mk_field ''addDecorateBehavior'' omit_string
        px_addDecorateBehavior px_addDecorateBehavior_update,
      mk_field ''injectHeaders'' omit_string_map px_injectHeaders px_injectHeaders_update,
      mk_field ''pathRewrite'' (omit_struct_ptr path_rewrite_fields path_rewrite_zero)
        px_pathRewrite px_pathRewrite_update,
      mk_field ''key'' omit_string px_key px_key_update,
      mk_field ''cert'' omit_string px_cert px_cert_update]"

definition enc_proxy_response :: "proxy_response \<Rightarrow> json" where
  "enc_proxy_response = marshal_open proxy_response_fields px_extra"

definition dec_proxy_response :: "json \<Rightarrow> proxy_response option" where
  "dec_proxy_response =
     unmarshal_open proxy_response_fields proxy_response_zero (\<lambda>m. px_extra_update (\<lambda>_. m))"

section \<open>Behaviors and the \<open>_rift\<close> extensions\<close>

record behaviors =
  bh_wait :: json
  bh_repeat :: int
  bh_decorate :: string
  bh_shellTransform :: json
  bh_copy :: json
  bh_lookup :: json
  bh_extra :: "json gomap"

definition behaviors_zero :: behaviors where
  "behaviors_zero =
     \<lparr>bh_wait = JNull, bh_repeat = 0, bh_decorate = [], bh_shellTransform = JNull,
      bh_copy = JNull, bh_lookup = JNull, bh_extra = []\<rparr>"

definition behaviors_fields :: "behaviors field list" where
  "behaviors_fields =
     [mk_field ''wait'' omit_any bh_wait bh_wait_update,
      mk_field ''repeat'' omit_int bh_repeat bh_repeat_update,
      mk_field ''decorate'' omit_string bh_decorate bh_decorate_update,
      mk_field ''shellTransform'' omit_any bh_shellTransform bh_shellTransform_update,
      mk_field ''copy'' omit_any bh_copy bh_copy_update,
      mk_field ''lookup'' omit_any bh_lookup bh_lookup_update]"

definition enc_behaviors :: "behaviors \<Rightarrow> json" where
  "enc_behaviors = marshal_open behaviors_fields bh_extra"

definition dec_behaviors :: "json \<Rightarrow> behaviors option" where
  "dec_behaviors = unmarshal_open behaviors_fields behaviors_zero (\<lambda>m. bh_extra_update (\<lambda>_. m))"

record rift_imposter =
  ri_flowState :: json
  ri_metrics :: json
  ri_proxy :: json
  ri_scriptEngine :: json
  ri_scripts :: "json gomap"
  ri_extra :: "json gomap"

definition rift_imposter_zero :: rift_imposter where
  "rift_imposter_zero =
     \<lparr>ri_flowState = JNull, ri_metrics = JNull, ri_proxy = JNull, ri_scriptEngine = JNull,
      ri_scripts = [], ri_extra = []\<rparr>"

definition rift_imposter_fields :: "rift_imposter field list" where
  "rift_imposter_fields =
     [mk_field ''flowState'' omit_any ri_flowState ri_flowState_update,
      mk_field ''metrics'' omit_any ri_metrics ri_metrics_update,
      mk_field ''proxy'' omit_any ri_proxy ri_proxy_update,
      mk_field ''scriptEngine'' omit_any ri_scriptEngine ri_scriptEngine_update,
      mk_field ''scripts'' omit_map ri_scripts ri_scripts_update]"

definition enc_rift_imposter :: "rift_imposter \<Rightarrow> json" where
  "enc_rift_imposter = marshal_open rift_imposter_fields ri_extra"

definition dec_rift_imposter :: "json \<Rightarrow> rift_imposter option" where
  "dec_rift_imposter =
     unmarshal_open rift_imposter_fields rift_imposter_zero (\<lambda>m. ri_extra_update (\<lambda>_. m))"

record rift_response =
  rr_fault :: json
  rr_script :: json
  rr_templated :: bool
  rr_extra :: "json gomap"

definition rift_response_zero :: rift_response where
  "rift_response_zero =
     \<lparr>rr_fault = JNull, rr_script = JNull, rr_templated = False, rr_extra = []\<rparr>"

definition rift_response_fields :: "rift_response field list" where
  "rift_response_fields =
     [mk_field ''fault'' omit_any rr_fault rr_fault_update,
      mk_field ''script'' omit_any rr_script rr_script_update,
      mk_field ''templated'' omit_bool rr_templated rr_templated_update]"

definition enc_rift_response :: "rift_response \<Rightarrow> json" where
  "enc_rift_response = marshal_open rift_response_fields rr_extra"

definition dec_rift_response :: "json \<Rightarrow> rift_response option" where
  "dec_rift_response =
     unmarshal_open rift_response_fields rift_response_zero (\<lambda>m. rr_extra_update (\<lambda>_. m))"

section \<open>Stub responses\<close>

record stub_response =
  sr_is :: "is_response option"
  sr_proxy :: "proxy_response option"
  sr_inject :: string
  sr_fault :: string
  sr_behaviors :: "behaviors option"
  sr_rift :: "rift_response option"
  sr_statusCode :: json
  sr_headers :: "json gomap"
  sr_body :: json
  sr_extra :: "json gomap"

definition stub_response_zero :: stub_response where
  "stub_response_zero =
     \<lparr>sr_is = None, sr_proxy = None, sr_inject = [], sr_fault = [], sr_behaviors = None,
      sr_rift = None, sr_statusCode = JNull, sr_headers = [], sr_body = JNull, sr_extra = []\<rparr>"

definition stub_response_fields :: "stub_response field list" where
  "stub_response_fields =
     [mk_field ''is'' (omit_ptr enc_is_response dec_is_response) sr_is sr_is_update,
      mk_field ''proxy'' (omit_ptr enc_proxy_response dec_proxy_response) sr_proxy sr_proxy_update,
      mk_field ''inject'' omit_string sr_inject sr_inject_update,
      mk_field ''fault'' omit_string sr_fault sr_fault_update,
      mk_field ''_behaviors'' (omit_ptr enc_behaviors dec_behaviors)
        sr_behaviors sr_behaviors_update,
      mk_field ''_rift'' (omit_ptr enc_rift_response dec_rift_response) sr_rift sr_rift_update,
      mk_field ''statusCode'' omit_any sr_statusCode sr_statusCode_update,
      mk_field ''headers'' omit_map sr_headers sr_headers_update,
      mk_field ''body'' omit_any sr_body sr_body_update]"

definition enc_stub_response :: "stub_response \<Rightarrow> json" where
  "enc_stub_response = marshal_open stub_response_fields sr_extra"

definition dec_stub_response :: "json \<Rightarrow> stub_response option" where
  "dec_stub_response =
     unmarshal_open stub_response_fields stub_response_zero (\<lambda>m. sr_extra_update (\<lambda>_. m))"

section \<open>Predicates\<close>

record xpath_selector =
  xp_selector :: string
  xp_ns :: "string gomap"

definition xpath_selector_zero :: xpath_selector where
  "xpath_selector_zero = \<lparr>xp_selector = [], xp_ns = []\<rparr>"

definition xpath_selector_fields :: "xpath_selector field list" where
  "xpath_selector_fields =
     [mk_field ''selector'' req_string xp_selector xp_selector_update,
      mk_field ''ns'' omit_string_map xp_ns xp_ns_update]"

record jsonpath_selector =
  jp_selector :: string

definition jsonpath_selector_zero :: jsonpath_selector where
  "jsonpath_selector_zero = \<lparr>jp_selector = []\<rparr>"

definition jsonpath_selector_fields :: "jsonpath_selector field list" where
  "jsonpath_selector_fields = [mk_field ''selector'' req_string jp_selector jp_selector_update]"

text \<open>
  The struct \<open>Predicate\<close> with its recursive fields (\<open>Not\<close>, \<open>And\<close>, \<open>Or\<close>) as arguments of a datatype
  and the other fields in a record.
\<close>

record pred_flat =
  pf_equals :: "json gomap"
  pf_deepEquals :: "json gomap"
  pf_contains :: "json gomap"
  pf_startsWith :: "json gomap"
  pf_endsWith :: "json gomap"
  pf_matches :: "json gomap"
  pf_exists :: "json gomap"
  pf_inject :: string
  pf_caseSensitive :: "bool option"
  pf_keyCaseSensitive :: "bool option"
  pf_except :: string
  pf_xpath :: "xpath_selector option"
  pf_jsonpath :: "jsonpath_selector option"
  pf_extra :: "json gomap"

datatype predicate =
  Predicate (p_flat: pred_flat) (p_not: "predicate option")
    (p_and: "predicate list") (p_or: "predicate list")

definition pred_flat_zero :: pred_flat where
  "pred_flat_zero =
     \<lparr>pf_equals = [], pf_deepEquals = [], pf_contains = [], pf_startsWith = [], pf_endsWith = [],
      pf_matches = [], pf_exists = [], pf_inject = [], pf_caseSensitive = None,
      pf_keyCaseSensitive = None, pf_except = [], pf_xpath = None, pf_jsonpath = None,
      pf_extra = []\<rparr>"

definition predicate_zero :: predicate where
  "predicate_zero = Predicate pred_flat_zero None [] []"

definition p_flat_update :: "(pred_flat \<Rightarrow> pred_flat) \<Rightarrow> predicate \<Rightarrow> predicate" where
  "p_flat_update g p = Predicate (g (p_flat p)) (p_not p) (p_and p) (p_or p)"

definition p_not_update :: "(predicate option \<Rightarrow> predicate option) \<Rightarrow> predicate \<Rightarrow> predicate" where
  "p_not_update g p = Predicate (p_flat p) (g (p_not p)) (p_and p) (p_or p)"

definition p_and_update :: "(predicate list \<Rightarrow> predicate list) \<Rightarrow> predicate \<Rightarrow> predicate" where
  "p_and_update g p = Predicate (p_flat p) (p_not p) (g (p_and p)) (p_or p)"

definition p_or_update :: "(predicate list \<Rightarrow> predicate list) \<Rightarrow> predicate \<Rightarrow> predicate" where
  "p_or_update g p = Predicate (p_flat p) (p_not p) (p_and p) (g (p_or p))"

definition p_extra :: "predicate \<Rightarrow> json gomap" where
  "p_extra p = pf_extra (p_flat p)"

text \<open>The fields before and after the recursive ones, on the record.\<close>

definition pred_op_fields :: "pred_flat field list" where
  "pred_op_fields =
     [mk_field ''equals'' omit_map pf_equals pf_equals_update,
      mk_field ''deepEquals'' omit_map pf_deepEquals pf_deepEquals_update,
      mk_field ''contains'' omit_map pf_contains pf_contains_update,
      mk_field ''startsWith'' omit_map pf_startsWith pf_startsWith_update,
      mk_field ''endsWith'' omit_map pf_endsWith pf_endsWith_update,
      mk_field ''matches'' omit_map pf_matches pf_matches_update,
      mk_field ''exists'' omit_map pf_exists pf_exists_update]"

definition pred_param_fields :: "pred_flat field list" where
  "pred_param_fields =
     [mk_field ''inject'' omit_string pf_inject pf_inject_update,
      mk_field ''caseSensitive'' omit_bool_ptr pf_caseSensitive pf_caseSensitive_update,
      mk_field ''keyCaseSensitive'' omit_bool_ptr pf_keyCaseSensitive pf_keyCaseSensitive_update,
      mk_field ''except'' omit_string pf_except pf_except_update,
      mk_field ''xpath'' (omit_struct_ptr xpath_selector_fields xpath_selector_zero)
        pf_xpath pf_xpath_update,
      mk_field ''jsonpath'' (omit_struct_ptr jsonpath_selector_fields jsonpath_selector_zero)
        pf_jsonpath pf_jsonpath_update]"

text \<open>A field of the record as a field of the predicate.\<close>

definition flat_field :: "pred_flat field \<Rightarrow> predicate field" where
  "flat_field f =
     \<lparr>fname = fname f,
      fenc = (\<lambda>p. fenc f (p_flat p)),
      fdec = (\<lambda>j p. map_option (\<lambda>fl. p_flat_update (\<lambda>_. fl) p) (fdec f j (p_flat p))),
      fcopy = (\<lambda>p q. p_flat_update (fcopy f (p_flat p)) q)\<rparr>"

definition predicate_fields ::
    "(predicate \<Rightarrow> json) \<Rightarrow> (json \<Rightarrow> predicate option) \<Rightarrow> predicate field list" where
  "predicate_fields e d =
     map flat_field pred_op_fields @
     [mk_field ''not'' (omit_ptr e d) p_not p_not_update,
      mk_field ''and'' (omit_slice e d) p_and p_and_update,
      mk_field ''or'' (omit_slice e d) p_or p_or_update] @
     map flat_field pred_param_fields"

primrec enc_predicate :: "predicate \<Rightarrow> json" where
  "enc_predicate (Predicate fl n ands ors) =
     marshal_with_extra
       (enc_fields pred_op_fields fl @
        (case map_option enc_predicate n of None \<Rightarrow> [] | Some j \<Rightarrow> [(''not'', j)]) @
        (case map enc_predicate ands of [] \<Rightarrow> [] | j # js \<Rightarrow> [(''and'', JArr (j # js))]) @
        (case map enc_predicate ors of [] \<Rightarrow> [] | j # js \<Rightarrow> [(''or'', JArr (j # js))]) @
        enc_fields pred_param_fields fl)
       (pf_extra fl)"

primrec dec_predicate_fuel :: "nat \<Rightarrow> json \<Rightarrow> predicate option" where
  "dec_predicate_fuel 0 j = None"
| "dec_predicate_fuel (Suc n) j =
     unmarshal_open (predicate_fields enc_predicate (dec_predicate_fuel n)) predicate_zero
       (\<lambda>m. p_flat_update (pf_extra_update (\<lambda>_. m))) j"

definition dec_predicate :: "json \<Rightarrow> predicate option" where
  "dec_predicate j = dec_predicate_fuel (Suc (json_depth j)) j"

section \<open>Stubs and imposters\<close>

record stub =
  st_predicates :: "predicate list"
  st_responses :: "stub_response list"
  st_id :: string
  st_scenarioName :: string
  st_requiredScenarioState :: string
  st_newScenarioState :: string
  st_routePattern :: string
  st_space :: string
  st_recordedFrom :: string
  st_verify :: json
  st_extra :: "json gomap"

definition stub_zero :: stub where
  "stub_zero =
     \<lparr>st_predicates = [], st_responses = [], st_id = [], st_scenarioName = [],
      st_requiredScenarioState = [], st_newScenarioState = [], st_routePattern = [],
      st_space = [], st_recordedFrom = [], st_verify = JNull, st_extra = []\<rparr>"

definition stub_fields :: "stub field list" where
  "stub_fields =
     [mk_field ''predicates'' (omit_slice enc_predicate dec_predicate)
        st_predicates st_predicates_update,
      mk_field ''responses'' (omit_slice enc_stub_response dec_stub_response)
        st_responses st_responses_update,
      mk_field ''id'' omit_string st_id st_id_update,
      mk_field ''scenarioName'' omit_string st_scenarioName st_scenarioName_update,
      mk_field ''required_scenario_state'' omit_string
        st_requiredScenarioState st_requiredScenarioState_update,
      mk_field ''new_scenario_state'' omit_string st_newScenarioState st_newScenarioState_update,
      mk_field ''route_pattern'' omit_string st_routePattern st_routePattern_update,
      mk_field ''space'' omit_string st_space st_space_update,
      mk_field ''recorded_from'' omit_string st_recordedFrom st_recordedFrom_update,
      mk_field ''_verify'' omit_any st_verify st_verify_update]"

definition enc_stub :: "stub \<Rightarrow> json" where
  "enc_stub = marshal_open stub_fields st_extra"

definition dec_stub :: "json \<Rightarrow> stub option" where
  "dec_stub = unmarshal_open stub_fields stub_zero (\<lambda>m. st_extra_update (\<lambda>_. m))"

record imposter =
  imp_port :: "16 word"
  imp_protocol :: string
  imp_host :: string
  imp_name :: string
  imp_stubs :: "stub list"
  imp_recordRequests :: bool
  imp_recordMatches :: bool
  imp_defaultResponse :: "is_response option"
  imp_defaultForward :: string
  imp_allowCORS :: bool
  imp_mutualAuth :: bool
  imp_rejectUnauthorized :: bool
  imp_ca :: json
  imp_strictBehaviors :: bool
  imp_cert :: string
  imp_key :: string
  imp_rift :: "rift_imposter option"
  imp_extra :: "json gomap"

definition imposter_zero :: imposter where
  "imposter_zero =
     \<lparr>imp_port = 0, imp_protocol = [], imp_host = [], imp_name = [], imp_stubs = [],
      imp_recordRequests = False, imp_recordMatches = False, imp_defaultResponse = None,
      imp_defaultForward = [], imp_allowCORS = False, imp_mutualAuth = False,
      imp_rejectUnauthorized = False, imp_ca = JNull, imp_strictBehaviors = False,
      imp_cert = [], imp_key = [], imp_rift = None, imp_extra = []\<rparr>"

definition imposter_fields :: "imposter field list" where
  "imposter_fields =
     [mk_field ''port'' omit_u16 imp_port imp_port_update,
      mk_field ''protocol'' omit_string imp_protocol imp_protocol_update,
      mk_field ''host'' omit_string imp_host imp_host_update,
      mk_field ''name'' omit_string imp_name imp_name_update,
      mk_field ''stubs'' (omit_slice enc_stub dec_stub) imp_stubs imp_stubs_update,
      mk_field ''recordRequests'' omit_bool imp_recordRequests imp_recordRequests_update,
      mk_field ''recordMatches'' omit_bool imp_recordMatches imp_recordMatches_update,
      mk_field ''defaultResponse'' (omit_ptr enc_is_response dec_is_response)
        imp_defaultResponse imp_defaultResponse_update,
      mk_field ''defaultForward'' omit_string imp_defaultForward imp_defaultForward_update,
      mk_field ''allowCORS'' omit_bool imp_allowCORS imp_allowCORS_update,
      mk_field ''mutualAuth'' omit_bool imp_mutualAuth imp_mutualAuth_update,
      mk_field ''rejectUnauthorized'' omit_bool
        imp_rejectUnauthorized imp_rejectUnauthorized_update,
      mk_field ''ca'' omit_any imp_ca imp_ca_update,
      mk_field ''strictBehaviors'' omit_bool imp_strictBehaviors imp_strictBehaviors_update,
      mk_field ''cert'' omit_string imp_cert imp_cert_update,
      mk_field ''key'' omit_string imp_key imp_key_update,
      mk_field ''_rift'' (omit_ptr enc_rift_imposter dec_rift_imposter)
        imp_rift imp_rift_update]"

definition enc_imposter :: "imposter \<Rightarrow> json" where
  "enc_imposter = marshal_open imposter_fields imp_extra"

definition dec_imposter :: "json \<Rightarrow> imposter option" where
  "dec_imposter = unmarshal_open imposter_fields imposter_zero (\<lambda>m. imp_extra_update (\<lambda>_. m))"

record imposters_config =
  ic_imposters :: "imposter list option"
  ic_extra :: "json gomap"

definition imposters_config_zero :: imposters_config where
  "imposters_config_zero = \<lparr>ic_imposters = None, ic_extra = []\<rparr>"

definition imposters_config_fields :: "imposters_config field list" where
  "imposters_config_fields =
     [mk_field ''imposters'' (req_slice enc_imposter dec_imposter)
        ic_imposters ic_imposters_update]"

definition enc_imposters_config :: "imposters_config \<Rightarrow> json" where
  "enc_imposters_config = marshal_open imposters_config_fields ic_extra"

definition dec_imposters_config :: "json \<Rightarrow> imposters_config option" where
  "dec_imposters_config =
     unmarshal_open imposters_config_fields imposters_config_zero (\<lambda>m. ic_extra_update (\<lambda>_. m))"

section \<open>Recorded requests\<close>

record recorded_request =
  rq_requestFrom :: string
  rq_method :: string
  rq_path :: string
  rq_query :: "json gomap"
  rq_headers :: "json gomap"
  rq_body :: json
  rq_mode :: string
  rq_timestamp :: string
  rq_status :: int
  rq_latencyMs :: "64 word option"
  rq_extra :: "json gomap"

definition recorded_request_zero :: recorded_request where
  "recorded_request_zero =
     \<lparr>rq_requestFrom = [], rq_method = [], rq_path = [], rq_query = [], rq_headers = [],
      rq_body = JNull, rq_mode = [], rq_timestamp = [], rq_status = 0, rq_latencyMs = None,
      rq_extra = []\<rparr>"

definition recorded_request_fields :: "recorded_request field list" where
  "recorded_request_fields =
     [mk_field ''request_from'' omit_string rq_requestFrom rq_requestFrom_update,
      mk_field ''method'' req_string rq_method rq_method_update,
      mk_field ''path'' req_string rq_path rq_path_update,
      mk_field ''query'' omit_map rq_query rq_query_update,
      mk_field ''headers'' omit_map rq_headers rq_headers_update,
      mk_field ''body'' omit_any rq_body rq_body_update,
      mk_field ''_mode'' omit_string rq_mode rq_mode_update,
      mk_field ''timestamp'' omit_string rq_timestamp rq_timestamp_update,
      mk_field ''status'' omit_int rq_status rq_status_update,
      mk_field ''latencyMs'' omit_u64_ptr rq_latencyMs rq_latencyMs_update]"

definition enc_recorded_request :: "recorded_request \<Rightarrow> json" where
  "enc_recorded_request = marshal_open recorded_request_fields rq_extra"

definition dec_recorded_request :: "json \<Rightarrow> recorded_request option" where
  "dec_recorded_request =
     unmarshal_open recorded_request_fields recorded_request_zero (\<lambda>m. rq_extra_update (\<lambda>_. m))"

section \<open>Intercept rules\<close>

record intercept_target =
  it_port :: "16 word"

definition intercept_target_zero :: intercept_target where
  "intercept_target_zero = \<lparr>it_port = 0\<rparr>"

definition intercept_target_fields :: "intercept_target field list" where
  "intercept_target_fields = [mk_field ''port'' req_u16 it_port it_port_update]"

record intercept_action =
  ia_serve :: "is_response option"
  ia_forward :: "intercept_target option"

definition intercept_action_zero :: intercept_action where
  "intercept_action_zero = \<lparr>ia_serve = None, ia_forward = None\<rparr>"

definition intercept_action_fields :: "intercept_action field list" where
  "intercept_action_fields =
     [mk_field ''serve'' (omit_ptr enc_is_response dec_is_response) ia_serve ia_serve_update,
      mk_field ''forward'' (omit_struct_ptr intercept_target_fields intercept_target_zero)
        ia_forward ia_forward_update]"

record intercept_rule =
  il_host :: string
  il_predicates :: "predicate list"
  il_action :: intercept_action
  il_extra :: "json gomap"

definition intercept_rule_zero :: intercept_rule where
  "intercept_rule_zero =
     \<lparr>il_host = [], il_predicates = [], il_action = intercept_action_zero, il_extra = []\<rparr>"

definition intercept_rule_fields :: "intercept_rule field list" where
  "intercept_rule_fields =
     [mk_field ''host'' omit_string il_host il_host_update,
      mk_field ''predicates'' (omit_slice enc_predicate dec_predicate)
        il_predicates il_predicates_update,
      mk_field ''action'' (req_struct intercept_action_fields intercept_action_zero)
        il_action il_action_update]"

definition enc_intercept_rule :: "intercept_rule \<Rightarrow> json" where
  "enc_intercept_rule = marshal_open intercept_rule_fields il_extra"

definition dec_intercept_rule :: "json \<Rightarrow> intercept_rule option" where
  "dec_intercept_rule =
     unmarshal_open intercept_rule_fields intercept_rule_zero (\<lambda>m. il_extra_update (\<lambda>_. m))"

end
