(* ===== verification/ModelLaws.thy ===== *)
theory ModelLaws
  imports Model
begin

text \<open>
  The wire model satisfies the codec contracts: for every struct a validity predicate (free-form
  values are Go values, maps are maps, extra keys match no field, integers fit), and the
  interpretation of \<open>open_struct\<close> or \<open>closed_struct\<close> at its table.  Round trips, preservation of
  unknown keys and precedence of written fields are then facts of the interpretations.
\<close>

section \<open>Responses\<close>

definition valid_is_response :: "is_response \<Rightarrow> bool" where
  "valid_is_response r \<longleftrightarrow>
     canonical (ir_statusCode r) \<and> map_ok (ir_headers r) \<and> canonical (ir_body r) \<and>
     extra_ok is_response_fields (ir_extra r)"

interpretation is_response: open_struct is_response_fields is_response_zero valid_is_response ir_extra "\<lambda>m. ir_extra_update (\<lambda>_. m)"
proof (rule open_structI)
  show "list_all (field_ok is_response_zero valid_is_response) is_response_fields"
    unfolding is_response_fields_def list.pred_inject
    by (intro conjI; (rule field_okI, rule codec_ok)?; simp add: is_response_zero_def valid_is_response_def)
qed (auto simp: is_response_fields_def valid_is_response_def intro: commute_mk_fieldI is_response.equality)

interpretation is_response_doc: nonnull_codec enc_is_response dec_is_response valid_is_response
  unfolding enc_is_response_def dec_is_response_def by (rule is_response.doc.nonnull_codec_axioms)

declare is_response_doc.ptr.value_codec_axioms [codec_ok] is_response_doc.slice.value_codec_axioms [codec_ok]

interpretation path_rewrite: closed_struct path_rewrite_fields path_rewrite_zero "\<lambda>_. True"
proof (rule closed_structI)
  show "list_all (field_ok path_rewrite_zero (\<lambda>_. True)) path_rewrite_fields"
    unfolding path_rewrite_fields_def list.pred_inject
    by (intro conjI; (rule field_okI, rule codec_ok)?; simp add: path_rewrite_zero_def)
qed (auto simp: path_rewrite_fields_def intro: commute_mk_fieldI path_rewrite.equality)

declare path_rewrite.struct_ptr.value_codec_axioms [codec_ok] path_rewrite.struct_val.value_codec_axioms [codec_ok]

definition valid_proxy_response :: "proxy_response \<Rightarrow> bool" where
  "valid_proxy_response r \<longleftrightarrow>
     list_all canonical (px_predicateGenerators r) \<and> gm_ok (px_injectHeaders r) \<and>
     extra_ok proxy_response_fields (px_extra r)"

interpretation proxy_response: open_struct proxy_response_fields proxy_response_zero valid_proxy_response px_extra "\<lambda>m. px_extra_update (\<lambda>_. m)"
proof (rule open_structI)
  show "list_all (field_ok proxy_response_zero valid_proxy_response) proxy_response_fields"
    unfolding proxy_response_fields_def list.pred_inject
    by (intro conjI; (rule field_okI, rule codec_ok)?; simp add: proxy_response_zero_def valid_proxy_response_def)
qed (auto simp: proxy_response_fields_def valid_proxy_response_def intro: commute_mk_fieldI proxy_response.equality)

interpretation proxy_response_doc: nonnull_codec enc_proxy_response dec_proxy_response valid_proxy_response
  unfolding enc_proxy_response_def dec_proxy_response_def by (rule proxy_response.doc.nonnull_codec_axioms)

declare proxy_response_doc.ptr.value_codec_axioms [codec_ok] proxy_response_doc.slice.value_codec_axioms [codec_ok]

definition valid_behaviors :: "behaviors \<Rightarrow> bool" where
  "valid_behaviors b \<longleftrightarrow>
     canonical (bh_wait b) \<and> go_int (bh_repeat b) \<and> canonical (bh_shellTransform b) \<and>
     canonical (bh_copy b) \<and> canonical (bh_lookup b) \<and> extra_ok behaviors_fields (bh_extra b)"

interpretation behaviors: open_struct behaviors_fields behaviors_zero valid_behaviors bh_extra "\<lambda>m. bh_extra_update (\<lambda>_. m)"
proof (rule open_structI)
  show "list_all (field_ok behaviors_zero valid_behaviors) behaviors_fields"
    unfolding behaviors_fields_def list.pred_inject
    by (intro conjI; (rule field_okI, rule codec_ok)?; simp add: behaviors_zero_def valid_behaviors_def)
qed (auto simp: behaviors_fields_def valid_behaviors_def intro: commute_mk_fieldI behaviors.equality)

interpretation behaviors_doc: nonnull_codec enc_behaviors dec_behaviors valid_behaviors
  unfolding enc_behaviors_def dec_behaviors_def by (rule behaviors.doc.nonnull_codec_axioms)

declare behaviors_doc.ptr.value_codec_axioms [codec_ok] behaviors_doc.slice.value_codec_axioms [codec_ok]

definition valid_rift_imposter :: "rift_imposter \<Rightarrow> bool" where
  "valid_rift_imposter r \<longleftrightarrow>
     canonical (ri_flowState r) \<and> canonical (ri_metrics r) \<and> canonical (ri_proxy r) \<and>
     canonical (ri_scriptEngine r) \<and> map_ok (ri_scripts r) \<and>
     extra_ok rift_imposter_fields (ri_extra r)"

interpretation rift_imposter: open_struct rift_imposter_fields rift_imposter_zero valid_rift_imposter ri_extra "\<lambda>m. ri_extra_update (\<lambda>_. m)"
proof (rule open_structI)
  show "list_all (field_ok rift_imposter_zero valid_rift_imposter) rift_imposter_fields"
    unfolding rift_imposter_fields_def list.pred_inject
    by (intro conjI; (rule field_okI, rule codec_ok)?; simp add: rift_imposter_zero_def valid_rift_imposter_def)
qed (auto simp: rift_imposter_fields_def valid_rift_imposter_def intro: commute_mk_fieldI rift_imposter.equality)

interpretation rift_imposter_doc: nonnull_codec enc_rift_imposter dec_rift_imposter valid_rift_imposter
  unfolding enc_rift_imposter_def dec_rift_imposter_def by (rule rift_imposter.doc.nonnull_codec_axioms)

declare rift_imposter_doc.ptr.value_codec_axioms [codec_ok] rift_imposter_doc.slice.value_codec_axioms [codec_ok]

definition valid_rift_response :: "rift_response \<Rightarrow> bool" where
  "valid_rift_response r \<longleftrightarrow>
     canonical (rr_fault r) \<and> canonical (rr_script r) \<and>
     extra_ok rift_response_fields (rr_extra r)"

interpretation rift_response: open_struct rift_response_fields rift_response_zero valid_rift_response rr_extra "\<lambda>m. rr_extra_update (\<lambda>_. m)"
proof (rule open_structI)
  show "list_all (field_ok rift_response_zero valid_rift_response) rift_response_fields"
    unfolding rift_response_fields_def list.pred_inject
    by (intro conjI; (rule field_okI, rule codec_ok)?; simp add: rift_response_zero_def valid_rift_response_def)
qed (auto simp: rift_response_fields_def valid_rift_response_def intro: commute_mk_fieldI rift_response.equality)

interpretation rift_response_doc: nonnull_codec enc_rift_response dec_rift_response valid_rift_response
  unfolding enc_rift_response_def dec_rift_response_def by (rule rift_response.doc.nonnull_codec_axioms)

declare rift_response_doc.ptr.value_codec_axioms [codec_ok] rift_response_doc.slice.value_codec_axioms [codec_ok]

definition valid_stub_response :: "stub_response \<Rightarrow> bool" where
  "valid_stub_response r \<longleftrightarrow>
     pred_option valid_is_response (sr_is r) \<and> pred_option valid_proxy_response (sr_proxy r) \<and>
     pred_option valid_behaviors (sr_behaviors r) \<and> pred_option valid_rift_response (sr_rift r) \<and>
     canonical (sr_statusCode r) \<and> map_ok (sr_headers r) \<and> canonical (sr_body r) \<and>
     extra_ok stub_response_fields (sr_extra r)"

interpretation stub_response: open_struct stub_response_fields stub_response_zero valid_stub_response sr_extra "\<lambda>m. sr_extra_update (\<lambda>_. m)"
proof (rule open_structI)
  show "list_all (field_ok stub_response_zero valid_stub_response) stub_response_fields"
    unfolding stub_response_fields_def list.pred_inject
    by (intro conjI; (rule field_okI, rule codec_ok)?; simp add: stub_response_zero_def valid_stub_response_def)
qed (auto simp: stub_response_fields_def valid_stub_response_def intro: commute_mk_fieldI stub_response.equality)

interpretation stub_response_doc: nonnull_codec enc_stub_response dec_stub_response valid_stub_response
  unfolding enc_stub_response_def dec_stub_response_def by (rule stub_response.doc.nonnull_codec_axioms)

declare stub_response_doc.ptr.value_codec_axioms [codec_ok] stub_response_doc.slice.value_codec_axioms [codec_ok]

section \<open>Predicates\<close>

definition valid_xpath_selector :: "xpath_selector \<Rightarrow> bool" where
  "valid_xpath_selector x \<longleftrightarrow>
     gm_ok (xp_ns x)"

interpretation xpath_selector: closed_struct xpath_selector_fields xpath_selector_zero valid_xpath_selector
proof (rule closed_structI)
  show "list_all (field_ok xpath_selector_zero valid_xpath_selector) xpath_selector_fields"
    unfolding xpath_selector_fields_def list.pred_inject
    by (intro conjI; (rule field_okI, rule codec_ok)?; simp add: xpath_selector_zero_def valid_xpath_selector_def)
qed (auto simp: xpath_selector_fields_def intro: commute_mk_fieldI xpath_selector.equality)

declare xpath_selector.struct_ptr.value_codec_axioms [codec_ok] xpath_selector.struct_val.value_codec_axioms [codec_ok]

interpretation jsonpath_selector: closed_struct jsonpath_selector_fields jsonpath_selector_zero "\<lambda>_. True"
proof (rule closed_structI)
  show "list_all (field_ok jsonpath_selector_zero (\<lambda>_. True)) jsonpath_selector_fields"
    unfolding jsonpath_selector_fields_def list.pred_inject
    by (intro conjI; (rule field_okI, rule codec_ok)?; simp add: jsonpath_selector_zero_def)
qed (auto simp: jsonpath_selector_fields_def intro: commute_mk_fieldI jsonpath_selector.equality)

declare jsonpath_selector.struct_ptr.value_codec_axioms [codec_ok] jsonpath_selector.struct_val.value_codec_axioms [codec_ok]

text \<open>The fields of the record, seen as fields of the predicate.\<close>

lemma flat_field_simps [simp]:
  "fname (flat_field f) = fname f"
  "fenc (flat_field f) p = fenc f (p_flat p)"
  "fdec (flat_field f) j p = map_option (\<lambda>fl. p_flat_update (\<lambda>_. fl) p) (fdec f j (p_flat p))"
  "fcopy (flat_field f) p q = p_flat_update (fcopy f (p_flat p)) q"
  by (simp_all add: flat_field_def)

lemma p_update_simps [simp]:
  "p_flat (p_flat_update g p) = g (p_flat p)" "p_not (p_flat_update g p) = p_not p"
  "p_and (p_flat_update g p) = p_and p" "p_or (p_flat_update g p) = p_or p"
  "p_flat (p_not_update h p) = p_flat p" "p_not (p_not_update h p) = h (p_not p)"
  "p_and (p_not_update h p) = p_and p" "p_or (p_not_update h p) = p_or p"
  "p_flat (p_and_update k p) = p_flat p" "p_not (p_and_update k p) = p_not p"
  "p_and (p_and_update k p) = k (p_and p)" "p_or (p_and_update k p) = p_or p"
  "p_flat (p_or_update k p) = p_flat p" "p_not (p_or_update k p) = p_not p"
  "p_and (p_or_update k p) = p_and p" "p_or (p_or_update k p) = k (p_or p)"
  by (simp_all add: p_flat_update_def p_not_update_def p_and_update_def p_or_update_def)

lemma p_flat_update_same: "p_flat_update g q = q \<longleftrightarrow> g (p_flat q) = p_flat q"
  by (cases q) (simp add: p_flat_update_def)

lemma p_flat_update_const: "p_flat_update (\<lambda>_. g (p_flat q)) q = p_flat_update g q"
  by (simp add: p_flat_update_def)

lemma p_flat_update_update:
  "p_flat_update g (p_flat_update h q) = p_flat_update (\<lambda>fl. g (h fl)) q"
  by (simp add: p_flat_update_def)

lemma predicate_zero_simps [simp]:
  "p_flat predicate_zero = pred_flat_zero" "p_not predicate_zero = None"
  "p_and predicate_zero = []" "p_or predicate_zero = []"
  by (simp_all add: predicate_zero_def)

lemma enc_fields_flat: "enc_fields (map flat_field fs) p = enc_fields fs (p_flat p)"
  by (induction fs) (simp_all add: enc_fields_simps split: option.split)

lemma enc_predicate_marshal:
  "enc_predicate p = marshal_open (predicate_fields enc_predicate d) p_extra p"
  by (cases p)
     (auto simp: marshal_open_def predicate_fields_def enc_fields_append enc_fields_flat
        enc_fields_simps p_extra_def omit_ptr_def omit_slice_def split: option.splits list.splits)

text \<open>The decoder needs no more fuel than the document is deep.\<close>

lemma predicate_fields_same_decoding:
  assumes "\<And>j. j \<in> js \<Longrightarrow> d j = d' j"
    and "\<And>xs x. JArr xs \<in> js \<Longrightarrow> x \<in> set xs \<Longrightarrow> d x = d' x"
  shows "list_all2 (same_decoding js) (predicate_fields e d) (predicate_fields e d')"
proof -
  have "traverse d xs = traverse d' xs" if "JArr xs \<in> js" for xs
    using assms(2) [OF that] by (rule traverse_cong [OF refl])
  then show ?thesis
    using assms(1)
    by (auto simp: predicate_fields_def same_decoding_def omit_ptr_def omit_slice_def
        intro!: list_all2_appendI list_all2_refl split: json.split)
qed

lemma unmarshal_predicate_cong:
  assumes "\<And>j'. json_depth j' < json_depth j \<Longrightarrow> d j' = d' j'"
  shows "unmarshal_open (predicate_fields e d) predicate_zero se j =
     unmarshal_open (predicate_fields e d') predicate_zero se j"
proof (cases j)
  case (JObj kvs)
  have depth: "json_depth x < json_depth j" if "x \<in> snd ` set kvs" for x
    using that json_depth_JObj unfolding JObj by fastforce
  have "list_all2 (same_decoding (snd ` set kvs)) (predicate_fields e d) (predicate_fields e d')"
    using assms depth json_depth_JArr less_trans
    by (intro predicate_fields_same_decoding) blast+
  then have "dec_fields (predicate_fields e d) kvs s = dec_fields (predicate_fields e d') kvs s" for s
    by (rule dec_fields_cong) simp
  moreover have "known_keys (predicate_fields e d) = known_keys (predicate_fields e d')"
    by (simp add: known_keys_def predicate_fields_def)
  ultimately show ?thesis
    by (simp add: JObj unmarshal_open_def unmarshal_with_extra_def dec_struct_def split: option.split)
qed (simp_all add: unmarshal_open_def unmarshal_with_extra_def dec_struct_def)

lemma dec_predicate_fuel_enough:
  "json_depth j < n \<Longrightarrow> dec_predicate_fuel n j = dec_predicate j"
proof (induction n arbitrary: j rule: less_induct)
  case (less n)
  obtain m where n: "n = Suc m" using less.prems by (cases n) auto
  have "dec_predicate_fuel m j' = dec_predicate_fuel (json_depth j) j'"
    if "json_depth j' < json_depth j" for j'
    using that less.prems less.IH [of m j'] less.IH [of "json_depth j" j'] by (simp add: n)
  then show ?case
    unfolding n dec_predicate_def dec_predicate_fuel.simps by (rule unmarshal_predicate_cong)
qed

lemma dec_predicate_unmarshal:
  "dec_predicate j =
     unmarshal_open (predicate_fields enc_predicate dec_predicate) predicate_zero
       (\<lambda>m. p_flat_update (pf_extra_update (\<lambda>_. m))) j"
  unfolding dec_predicate_def [of j] dec_predicate_fuel.simps
  by (rule unmarshal_predicate_cong) (simp add: dec_predicate_fuel_enough)

text \<open>The table of predicates, given the contract at the predicates nested one level down.\<close>

definition valid_pred_flat :: "pred_flat \<Rightarrow> bool" where
  "valid_pred_flat f \<longleftrightarrow>
     map_ok (pf_equals f) \<and> map_ok (pf_deepEquals f) \<and> map_ok (pf_contains f) \<and>
     map_ok (pf_startsWith f) \<and> map_ok (pf_endsWith f) \<and> map_ok (pf_matches f) \<and>
     map_ok (pf_exists f) \<and> pred_option valid_xpath_selector (pf_xpath f) \<and>
     extra_ok (predicate_fields enc_predicate dec_predicate) (pf_extra f)"

lemma pred_op_fields_ok: "list_all (field_ok pred_flat_zero valid_pred_flat) pred_op_fields"
  unfolding pred_op_fields_def list.pred_inject
  by (intro conjI; (rule field_okI, rule codec_ok)?; simp add: pred_flat_zero_def valid_pred_flat_def)

lemma pred_param_fields_ok: "list_all (field_ok pred_flat_zero valid_pred_flat) pred_param_fields"
  unfolding pred_param_fields_def list.pred_inject
  by (intro conjI; (rule field_okI, rule codec_ok)?; simp add: pred_flat_zero_def valid_pred_flat_def)

lemma flat_field_ok:
  "field_ok pred_flat_zero valid_pred_flat f \<Longrightarrow> (\<And>p. V p \<Longrightarrow> valid_pred_flat (p_flat p)) \<Longrightarrow>
   field_ok predicate_zero V (flat_field f)"
  by (simp add: field_ok_def p_flat_update_same p_flat_update_const p_flat_update_update)
     (auto simp: p_flat_update_def)

lemma flat_fields_ok:
  "list_all (field_ok pred_flat_zero valid_pred_flat) fs \<Longrightarrow>
   (\<And>p. V p \<Longrightarrow> valid_pred_flat (p_flat p)) \<Longrightarrow>
   list_all (field_ok predicate_zero V) (map flat_field fs)"
  by (auto simp: list_all_iff intro: flat_field_ok)

lemma commute_flat_fields:
  "commute_fields f g \<Longrightarrow> commute_fields (flat_field f) (flat_field g)"
  by (simp add: commute_fields_def p_flat_update_def)

lemma commute_predicate_fields: "sorted_wrt commute_fields (predicate_fields e d)"
proof -
  have "sorted_wrt commute_fields (pred_op_fields @ pred_param_fields)"
    by (simp add: pred_op_fields_def pred_param_fields_def commute_mk_fieldI)
  then have flat: "sorted_wrt commute_fields (map flat_field (pred_op_fields @ pred_param_fields))"
    unfolding sorted_wrt_map by (rule sorted_wrt_mono_rel [rotated]) (rule commute_flat_fields)
  have rec: "commute_fields (flat_field f) (mk_field n c get upd) \<and>
      commute_fields (mk_field n c get upd) (flat_field f)"
    if "\<And>g h p. p_flat_update g (upd h p) = upd h (p_flat_update g p)" "\<And>h p. p_flat (upd h p) = p_flat p"
      "\<And>g p. get (p_flat_update g p) = get p" for f n c get upd
    using that by (simp add: commute_fields_def mk_field_copy)
  show ?thesis
    using flat unfolding predicate_fields_def
    by (auto simp: sorted_wrt_append rec p_flat_update_def p_not_update_def p_and_update_def
        p_or_update_def intro!: commute_mk_fieldI)
qed

lemma open_predicate:
  assumes sub: "nonnull_codec enc_predicate dec_predicate S"
    and V: "\<And>p. V p \<Longrightarrow> valid_pred_flat (p_flat p) \<and> pred_option S (p_not p) \<and>
              list_all S (p_and p) \<and> list_all S (p_or p)"
  shows "open_struct (predicate_fields enc_predicate dec_predicate) predicate_zero V p_extra
     (\<lambda>m. p_flat_update (pf_extra_update (\<lambda>_. m)))"
proof (rule open_structI)
  let ?fs = "predicate_fields enc_predicate dec_predicate"
  have "field_ok predicate_zero V (mk_field ''not'' (omit_ptr enc_predicate dec_predicate) p_not p_not_update)"
    by (rule field_okI, rule nonnull_codec.ptr_codec [OF sub])
       (simp_all add: V p_not_update_def predicate_zero_def)
  moreover have "field_ok predicate_zero V (mk_field ''and'' (omit_slice enc_predicate dec_predicate) p_and p_and_update)"
    by (rule field_okI, rule nonnull_codec.slice_codec [OF sub])
       (simp_all add: V p_and_update_def predicate_zero_def)
  moreover have "field_ok predicate_zero V (mk_field ''or'' (omit_slice enc_predicate dec_predicate) p_or p_or_update)"
    by (rule field_okI, rule nonnull_codec.slice_codec [OF sub])
       (simp_all add: V p_or_update_def predicate_zero_def)
  ultimately show "list_all (field_ok predicate_zero V) ?fs"
    using flat_fields_ok [OF pred_op_fields_ok] flat_fields_ok [OF pred_param_fields_ok] V
    by (simp add: predicate_fields_def)
  show "distinct (map fname ?fs)"
    by (simp add: predicate_fields_def pred_op_fields_def pred_param_fields_def)
  show "sorted_wrt commute_fields ?fs" by (rule commute_predicate_fields)
  fix r s
  assume "list_all (\<lambda>f. fcopy f r s = s) ?fs"
  then have "p_not r = p_not s" "p_and r = p_and s" "p_or r = p_or s"
    and flat: "list_all (\<lambda>f. fcopy f (p_flat r) (p_flat s) = p_flat s) (pred_op_fields @ pred_param_fields)"
    by (simp_all add: predicate_fields_def p_flat_update_same list.pred_map o_def p_not_update_def
        p_and_update_def p_or_update_def)
  moreover have "pf_extra_update (\<lambda>_. pf_extra (p_flat r)) (p_flat s) = p_flat r"
    using flat by (auto simp: pred_op_fields_def pred_param_fields_def intro: pred_flat.equality)
  ultimately show "p_flat_update (pf_extra_update (\<lambda>_. p_extra r)) s = r"
    by (auto simp: p_flat_update_def p_extra_def intro: predicate.expand)
next
  show "p_extra (p_flat_update (pf_extra_update (\<lambda>_. m)) s) = m" for m s
    by (simp add: p_extra_def)
  show "extra_ok (predicate_fields enc_predicate dec_predicate) (p_extra r)" if "V r" for r
    using V [OF that] by (simp add: valid_pred_flat_def p_extra_def)
qed

fun valid_predicate :: "predicate \<Rightarrow> bool" where
  "valid_predicate (Predicate fl n ands ors) \<longleftrightarrow>
     valid_pred_flat fl \<and> pred_option valid_predicate n \<and>
     list_all valid_predicate ands \<and> list_all valid_predicate ors"

lemma enc_predicate_not_null: "enc_predicate p \<noteq> JNull"
  unfolding enc_predicate_marshal [of p dec_predicate] by (rule marshal_open_not_null)

lemma predicate_roundtrip_nums:
  "valid_predicate p \<Longrightarrow> dec_predicate (enc_predicate p) = Some p \<and> nums_ok (enc_predicate p)"
proof (induction p)
  case (Predicate fl n ands ors)
  let ?p = "Predicate fl n ands ors"
  let ?S = "\<lambda>q. q \<in> set_option n \<union> set ands \<union> set ors"
  have "dec_predicate (enc_predicate q) = Some q \<and> nums_ok (enc_predicate q)" if "?S q" for q
    using that Predicate by (auto simp: list_all_iff option.pred_set)
  then have sub: "nonnull_codec enc_predicate dec_predicate ?S"
    by unfold_locales (auto simp: enc_predicate_not_null)
  have "open_struct (predicate_fields enc_predicate dec_predicate) predicate_zero (\<lambda>q. q = ?p) p_extra
     (\<lambda>m. p_flat_update (pf_extra_update (\<lambda>_. m)))"
    by (rule open_predicate [OF sub]) (use Predicate.prems in \<open>auto simp: list_all_iff option.pred_set\<close>)
  then show ?case
    using open_struct.open_roundtrip [of _ _ "\<lambda>q. q = ?p" _ _ ?p]
      open_struct.nums_marshal_open [of _ _ "\<lambda>q. q = ?p" _ _ ?p]
      dec_predicate_unmarshal [of "enc_predicate ?p"] enc_predicate_marshal [of ?p dec_predicate]
    by metis
qed

interpretation predicate_doc: nonnull_codec enc_predicate dec_predicate valid_predicate
  by unfold_locales (auto simp: predicate_roundtrip_nums enc_predicate_not_null)

declare predicate_doc.ptr.value_codec_axioms [codec_ok] predicate_doc.slice.value_codec_axioms [codec_ok]

interpretation predicate: open_struct "predicate_fields enc_predicate dec_predicate" predicate_zero
    valid_predicate p_extra "\<lambda>m. p_flat_update (pf_extra_update (\<lambda>_. m))"
  by (rule open_predicate [OF predicate_doc.nonnull_codec_axioms], case_tac p) simp

section \<open>Stubs, imposters and journals\<close>

definition valid_stub :: "stub \<Rightarrow> bool" where
  "valid_stub s \<longleftrightarrow>
     list_all valid_predicate (st_predicates s) \<and> list_all valid_stub_response (st_responses s) \<and>
     canonical (st_verify s) \<and> extra_ok stub_fields (st_extra s)"

interpretation stub: open_struct stub_fields stub_zero valid_stub st_extra "\<lambda>m. st_extra_update (\<lambda>_. m)"
proof (rule open_structI)
  show "list_all (field_ok stub_zero valid_stub) stub_fields"
    unfolding stub_fields_def list.pred_inject
    by (intro conjI; (rule field_okI, rule codec_ok)?; simp add: stub_zero_def valid_stub_def)
qed (auto simp: stub_fields_def valid_stub_def intro: commute_mk_fieldI stub.equality)

interpretation stub_doc: nonnull_codec enc_stub dec_stub valid_stub
  unfolding enc_stub_def dec_stub_def by (rule stub.doc.nonnull_codec_axioms)

declare stub_doc.ptr.value_codec_axioms [codec_ok] stub_doc.slice.value_codec_axioms [codec_ok]

definition valid_imposter :: "imposter \<Rightarrow> bool" where
  "valid_imposter i \<longleftrightarrow>
     list_all valid_stub (imp_stubs i) \<and> pred_option valid_is_response (imp_defaultResponse i) \<and>
     canonical (imp_ca i) \<and> pred_option valid_rift_imposter (imp_rift i) \<and>
     extra_ok imposter_fields (imp_extra i)"

interpretation imposter: open_struct imposter_fields imposter_zero valid_imposter imp_extra "\<lambda>m. imp_extra_update (\<lambda>_. m)"
proof (rule open_structI)
  show "list_all (field_ok imposter_zero valid_imposter) imposter_fields"
    unfolding imposter_fields_def list.pred_inject
    by (intro conjI; (rule field_okI, rule codec_ok)?; simp add: imposter_zero_def valid_imposter_def)
qed (auto simp: imposter_fields_def valid_imposter_def intro: commute_mk_fieldI imposter.equality)

interpretation imposter_doc: nonnull_codec enc_imposter dec_imposter valid_imposter
  unfolding enc_imposter_def dec_imposter_def by (rule imposter.doc.nonnull_codec_axioms)

declare imposter_doc.ptr.value_codec_axioms [codec_ok] imposter_doc.slice.value_codec_axioms [codec_ok]

declare imposter_doc.rslice.value_codec_axioms [codec_ok]

definition valid_imposters_config :: "imposters_config \<Rightarrow> bool" where
  "valid_imposters_config c \<longleftrightarrow>
     pred_option (list_all valid_imposter) (ic_imposters c) \<and>
     extra_ok imposters_config_fields (ic_extra c)"

interpretation imposters_config: open_struct imposters_config_fields imposters_config_zero valid_imposters_config ic_extra "\<lambda>m. ic_extra_update (\<lambda>_. m)"
proof (rule open_structI)
  show "list_all (field_ok imposters_config_zero valid_imposters_config) imposters_config_fields"
    unfolding imposters_config_fields_def list.pred_inject
    by (intro conjI; (rule field_okI, rule codec_ok)?; simp add: imposters_config_zero_def valid_imposters_config_def)
qed (auto simp: imposters_config_fields_def valid_imposters_config_def intro: commute_mk_fieldI imposters_config.equality)

interpretation imposters_config_doc: nonnull_codec enc_imposters_config dec_imposters_config valid_imposters_config
  unfolding enc_imposters_config_def dec_imposters_config_def by (rule imposters_config.doc.nonnull_codec_axioms)

declare imposters_config_doc.ptr.value_codec_axioms [codec_ok] imposters_config_doc.slice.value_codec_axioms [codec_ok]

definition valid_recorded_request :: "recorded_request \<Rightarrow> bool" where
  "valid_recorded_request r \<longleftrightarrow>
     map_ok (rq_query r) \<and> map_ok (rq_headers r) \<and> canonical (rq_body r) \<and>
     go_int (rq_status r) \<and> extra_ok recorded_request_fields (rq_extra r)"

interpretation recorded_request: open_struct recorded_request_fields recorded_request_zero valid_recorded_request rq_extra "\<lambda>m. rq_extra_update (\<lambda>_. m)"
proof (rule open_structI)
  show "list_all (field_ok recorded_request_zero valid_recorded_request) recorded_request_fields"
    unfolding recorded_request_fields_def list.pred_inject
    by (intro conjI; (rule field_okI, rule codec_ok)?; simp add: recorded_request_zero_def valid_recorded_request_def)
qed (auto simp: recorded_request_fields_def valid_recorded_request_def intro: commute_mk_fieldI recorded_request.equality)

interpretation recorded_request_doc: nonnull_codec enc_recorded_request dec_recorded_request valid_recorded_request
  unfolding enc_recorded_request_def dec_recorded_request_def by (rule recorded_request.doc.nonnull_codec_axioms)

declare recorded_request_doc.ptr.value_codec_axioms [codec_ok] recorded_request_doc.slice.value_codec_axioms [codec_ok]

interpretation intercept_target: closed_struct intercept_target_fields intercept_target_zero "\<lambda>_. True"
proof (rule closed_structI)
  show "list_all (field_ok intercept_target_zero (\<lambda>_. True)) intercept_target_fields"
    unfolding intercept_target_fields_def list.pred_inject
    by (intro conjI; (rule field_okI, rule codec_ok)?; simp add: intercept_target_zero_def)
qed (auto simp: intercept_target_fields_def intro: commute_mk_fieldI intercept_target.equality)

declare intercept_target.struct_ptr.value_codec_axioms [codec_ok] intercept_target.struct_val.value_codec_axioms [codec_ok]

definition valid_intercept_action :: "intercept_action \<Rightarrow> bool" where
  "valid_intercept_action a \<longleftrightarrow>
     pred_option valid_is_response (ia_serve a)"

interpretation intercept_action: closed_struct intercept_action_fields intercept_action_zero valid_intercept_action
proof (rule closed_structI)
  show "list_all (field_ok intercept_action_zero valid_intercept_action) intercept_action_fields"
    unfolding intercept_action_fields_def list.pred_inject
    by (intro conjI; (rule field_okI, rule codec_ok)?; simp add: intercept_action_zero_def valid_intercept_action_def)
qed (auto simp: intercept_action_fields_def intro: commute_mk_fieldI intercept_action.equality)

declare intercept_action.struct_ptr.value_codec_axioms [codec_ok] intercept_action.struct_val.value_codec_axioms [codec_ok]

definition valid_intercept_rule :: "intercept_rule \<Rightarrow> bool" where
  "valid_intercept_rule r \<longleftrightarrow>
     list_all valid_predicate (il_predicates r) \<and> valid_intercept_action (il_action r) \<and>
     extra_ok intercept_rule_fields (il_extra r)"

interpretation intercept_rule: open_struct intercept_rule_fields intercept_rule_zero valid_intercept_rule il_extra "\<lambda>m. il_extra_update (\<lambda>_. m)"
proof (rule open_structI)
  show "list_all (field_ok intercept_rule_zero valid_intercept_rule) intercept_rule_fields"
    unfolding intercept_rule_fields_def list.pred_inject
    by (intro conjI; (rule field_okI, rule codec_ok)?; simp add: intercept_rule_zero_def valid_intercept_rule_def)
qed (auto simp: intercept_rule_fields_def valid_intercept_rule_def intro: commute_mk_fieldI intercept_rule.equality)

interpretation intercept_rule_doc: nonnull_codec enc_intercept_rule dec_intercept_rule valid_intercept_rule
  unfolding enc_intercept_rule_def dec_intercept_rule_def by (rule intercept_rule.doc.nonnull_codec_axioms)

declare intercept_rule_doc.ptr.value_codec_axioms [codec_ok] intercept_rule_doc.slice.value_codec_axioms [codec_ok]

section \<open>Keys of the tables, for concrete documents\<close>

lemma imposter_keys:
  "known_keys imposter_fields = [''port'', ''protocol'', ''host'', ''name'', ''stubs'', ''recordRequests'',
     ''recordMatches'', ''defaultResponse'', ''defaultForward'', ''allowCORS'', ''mutualAuth'',
     ''rejectUnauthorized'', ''ca'', ''strictBehaviors'', ''cert'', ''key'', ''_rift'']"
  by (simp add: known_keys_def imposter_fields_def)

lemma find_port_field:
  "find_field imposter_fields ''port'' = Some (mk_field ''port'' omit_u16 imp_port imp_port_update)"
  by (simp add: imposter_fields_def find_field_head)

lemmas dec_imposter_simps =
  dec_imposter_def unmarshal_open_def unmarshal_with_extra_def dec_struct_def omit_u16_def
  go_any_members_def imposter_keys find_port_field

lemmas enc_imposter_simps =
  enc_imposter_def marshal_open_def marshal_with_extra_def merge_extra_def imposter_fields_def
  enc_fields_simps imposter_zero_def codec_simps

lemma map_ok_Nil [simp]: "map_ok []"
  by (simp add: map_ok_def)

lemma extra_ok_Nil [simp]: "extra_ok fs []"
  by (simp add: extra_ok_def)

lemma valid_predicate_flat:
  "valid_predicate p \<longleftrightarrow> valid_pred_flat (p_flat p) \<and> pred_option valid_predicate (p_not p) \<and>
     list_all valid_predicate (p_and p) \<and> list_all valid_predicate (p_or p)"
  by (cases p) simp

end
