(* ===== verification/Verify.thy ===== *)
theory Verify
  imports ModelLaws
begin

text \<open>
  Verification (\<open>rift/verify.go\<close>): the request and the engine's answer on the wire, and the
  expectation on the number of matches.
\<close>

section \<open>Wire types\<close>

record verify_request =
  vq_predicates :: "predicate list"
  vq_flowId :: string
  vq_includeRequests :: bool
  vq_includeClosest :: bool

definition verify_request_zero :: verify_request where
  "verify_request_zero =
     \<lparr>vq_predicates = [], vq_flowId = [], vq_includeRequests = False, vq_includeClosest = False\<rparr>"

definition verify_request_fields :: "verify_request field list" where
  "verify_request_fields =
     [mk_field ''predicates'' (omit_slice enc_predicate dec_predicate)
        vq_predicates vq_predicates_update,
      mk_field ''flowId'' omit_string vq_flowId vq_flowId_update,
      mk_field ''includeRequests'' omit_bool vq_includeRequests vq_includeRequests_update,
      mk_field ''includeClosest'' omit_bool vq_includeClosest vq_includeClosest_update]"

definition enc_verify_request :: "verify_request \<Rightarrow> json" where
  "enc_verify_request = enc_struct verify_request_fields"

record failed_predicate =
  fp_predicate :: predicate
  fp_actual :: json

definition failed_predicate_zero :: failed_predicate where
  "failed_predicate_zero = \<lparr>fp_predicate = predicate_zero, fp_actual = JNull\<rparr>"

definition failed_predicate_fields :: "failed_predicate field list" where
  "failed_predicate_fields =
     [mk_field ''predicate'' (req_value enc_predicate dec_predicate predicate_zero)
        fp_predicate fp_predicate_update,
      mk_field ''actual'' req_any fp_actual fp_actual_update]"

record closest_match =
  cm_request :: recorded_request
  cm_failedPredicates :: "failed_predicate list option"

definition closest_match_zero :: closest_match where
  "closest_match_zero = \<lparr>cm_request = recorded_request_zero, cm_failedPredicates = None\<rparr>"

definition closest_match_fields :: "closest_match field list" where
  "closest_match_fields =
     [mk_field ''request''
        (req_value enc_recorded_request dec_recorded_request recorded_request_zero)
        cm_request cm_request_update,
      mk_field ''failedPredicates''
        (req_slice (enc_struct failed_predicate_fields)
          (\<lambda>j. dec_struct failed_predicate_fields j failed_predicate_zero))
        cm_failedPredicates cm_failedPredicates_update]"

record verify_result =
  vr_matched :: int
  vr_total :: int
  vr_requests :: "recorded_request list"
  vr_closest :: "closest_match option"

definition verify_result_zero :: verify_result where
  "verify_result_zero = \<lparr>vr_matched = 0, vr_total = 0, vr_requests = [], vr_closest = None\<rparr>"

definition verify_result_fields :: "verify_result field list" where
  "verify_result_fields =
     [mk_field ''matched'' req_int vr_matched vr_matched_update,
      mk_field ''total'' req_int vr_total vr_total_update,
      mk_field ''requests'' (omit_slice enc_recorded_request dec_recorded_request)
        vr_requests vr_requests_update,
      mk_field ''closest'' (omit_struct_ptr closest_match_fields closest_match_zero)
        vr_closest vr_closest_update]"

definition enc_verify_result :: "verify_result \<Rightarrow> json" where
  "enc_verify_result = enc_struct verify_result_fields"

definition dec_verify_result :: "json \<Rightarrow> verify_result option" where
  "dec_verify_result j = dec_struct verify_result_fields j verify_result_zero"

section \<open>Codec laws\<close>

declare predicate_doc.by_value_codec [codec_ok] recorded_request_doc.by_value_codec [codec_ok]

definition valid_verify_request :: "verify_request \<Rightarrow> bool" where
  "valid_verify_request q \<longleftrightarrow> list_all valid_predicate (vq_predicates q)"

interpretation verify_request: closed_struct verify_request_fields verify_request_zero valid_verify_request
proof (rule closed_structI)
  show "list_all (field_ok verify_request_zero valid_verify_request) verify_request_fields"
    unfolding verify_request_fields_def list.pred_inject
    by (intro conjI; (rule field_okI, rule codec_ok)?; simp add: verify_request_zero_def valid_verify_request_def)
qed (auto simp: verify_request_fields_def intro: commute_mk_fieldI verify_request.equality)

definition valid_failed_predicate :: "failed_predicate \<Rightarrow> bool" where
  "valid_failed_predicate f \<longleftrightarrow> valid_predicate (fp_predicate f) \<and> canonical (fp_actual f)"

interpretation failed_predicate: closed_struct failed_predicate_fields failed_predicate_zero valid_failed_predicate
proof (rule closed_structI)
  show "list_all (field_ok failed_predicate_zero valid_failed_predicate) failed_predicate_fields"
    unfolding failed_predicate_fields_def list.pred_inject
    by (intro conjI; (rule field_okI, rule codec_ok)?; simp add: failed_predicate_zero_def valid_failed_predicate_def)
qed (auto simp: failed_predicate_fields_def intro: commute_mk_fieldI failed_predicate.equality)

declare failed_predicate.doc.rslice.value_codec_axioms [codec_ok]

definition valid_closest_match :: "closest_match \<Rightarrow> bool" where
  "valid_closest_match c \<longleftrightarrow>
     valid_recorded_request (cm_request c) \<and>
     pred_option (list_all valid_failed_predicate) (cm_failedPredicates c)"

interpretation closest_match: closed_struct closest_match_fields closest_match_zero valid_closest_match
proof (rule closed_structI)
  show "list_all (field_ok closest_match_zero valid_closest_match) closest_match_fields"
    unfolding closest_match_fields_def list.pred_inject
    by (intro conjI; (rule field_okI, rule codec_ok)?; simp add: closest_match_zero_def valid_closest_match_def)
qed (auto simp: closest_match_fields_def intro: commute_mk_fieldI closest_match.equality)

declare closest_match.struct_ptr.value_codec_axioms [codec_ok]

definition valid_verify_result :: "verify_result \<Rightarrow> bool" where
  "valid_verify_result r \<longleftrightarrow>
     go_int (vr_matched r) \<and> go_int (vr_total r) \<and>
     list_all valid_recorded_request (vr_requests r) \<and> pred_option valid_closest_match (vr_closest r)"

interpretation verify_result: closed_struct verify_result_fields verify_result_zero valid_verify_result
proof (rule closed_structI)
  show "list_all (field_ok verify_result_zero valid_verify_result) verify_result_fields"
    unfolding verify_result_fields_def list.pred_inject
    by (intro conjI; (rule field_okI, rule codec_ok)?; simp add: verify_result_zero_def valid_verify_result_def)
qed (auto simp: verify_result_fields_def intro: commute_mk_fieldI verify_result.equality)

section \<open>Expected counts\<close>

record count_matcher =
  cm_min :: int
  cm_max :: int
  cm_desc :: string

definition times :: "int \<Rightarrow> count_matcher" where
  "times n = \<lparr>cm_min = n, cm_max = n, cm_desc = ''exactly '' @ decimal_int n\<rparr>"

definition once :: count_matcher where
  "once = \<lparr>cm_min = 1, cm_max = 1, cm_desc = ''exactly 1''\<rparr>"

definition never :: count_matcher where
  "never = \<lparr>cm_min = 0, cm_max = 0, cm_desc = ''never''\<rparr>"

definition at_least :: "int \<Rightarrow> count_matcher" where
  "at_least n = \<lparr>cm_min = n, cm_max = -1, cm_desc = ''at least '' @ decimal_int n\<rparr>"

definition at_most :: "int \<Rightarrow> count_matcher" where
  "at_most n = \<lparr>cm_min = 0, cm_max = n, cm_desc = ''at most '' @ decimal_int n\<rparr>"

definition between :: "int \<Rightarrow> int \<Rightarrow> count_matcher" where
  "between lo hi =
     \<lparr>cm_min = lo, cm_max = hi,
      cm_desc = ''between '' @ decimal_int lo @ '' and '' @ decimal_int hi\<rparr>"

definition satisfied :: "count_matcher \<Rightarrow> int \<Rightarrow> bool" where
  "satisfied c n = (if n < cm_min c then False else cm_max c < 0 \<or> n \<le> cm_max c)"

definition count_string :: "count_matcher \<Rightarrow> string" where
  "count_string c = (if cm_desc c = [] then ''any number of'' else cm_desc c)"

text \<open>Every matcher accepts an interval; a negative bound is read as no bound.\<close>

definition accepted :: "count_matcher \<Rightarrow> int set" where
  "accepted c = (if cm_max c < 0 then {cm_min c..} else {cm_min c..cm_max c})"

lemma satisfied_iff: "satisfied c n \<longleftrightarrow> n \<in> accepted c"
  by (auto simp: satisfied_def accepted_def)

lemma accepted_matchers:
  "accepted (at_least n) = {n..}"
  "accepted once = {1}"
  "accepted never = {0}"
  "0 \<le> n \<Longrightarrow> accepted (times n) = {n}"
  "0 \<le> n \<Longrightarrow> accepted (at_most n) = {0..n}"
  "0 \<le> hi \<Longrightarrow> accepted (between lo hi) = {lo..hi}"
  "n < 0 \<Longrightarrow> accepted (times n) = {n..}"
  "n < 0 \<Longrightarrow> accepted (at_most n) = {0..}"
  "hi < 0 \<Longrightarrow> accepted (between lo hi) = {lo..}"
  by (simp_all add: accepted_def at_least_def once_def never_def times_def at_most_def between_def)

end
