(* ===== verification/Strings.thy ===== *)
theory Strings
  imports Prelude
begin

text \<open>
  The functions of Go's strings package the SDK calls, over the bytes of valid UTF-8 strings:
  prefixes and substrings, lower-casing for a search of an ASCII phrase, and the trimming of
  white space.
\<close>

section \<open>Substrings\<close>

fun starts_with :: "string \<Rightarrow> string \<Rightarrow> bool" where
  "starts_with [] s = True"
| "starts_with (p # ps) [] = False"
| "starts_with (p # ps) (c # cs) = (p = c \<and> starts_with ps cs)"

fun contains_sub :: "string \<Rightarrow> string \<Rightarrow> bool" where
  "contains_sub sub [] = (sub = [])"
| "contains_sub sub (c # cs) = (starts_with sub (c # cs) \<or> contains_sub sub cs)"

lemma starts_with_iff: "starts_with p s \<longleftrightarrow> (\<exists>r. s = p @ r)"
  by (induction p s rule: starts_with.induct) auto

lemma contains_sub_iff: "contains_sub sub s \<longleftrightarrow> (\<exists>l r. s = l @ sub @ r)"
proof (induction s)
  case step: (Cons c cs)
  show ?case
  proof
    assume "contains_sub sub (c # cs)"
    then consider r where "c # cs = sub @ r" | l r where "cs = l @ sub @ r"
      by (auto simp: starts_with_iff step.IH)
    then show "\<exists>l r. c # cs = l @ sub @ r"
      by cases (metis append_Nil, metis append_Cons)
  next
    assume "\<exists>l r. c # cs = l @ sub @ r"
    then obtain l r where eq: "c # cs = l @ sub @ r" by blast
    show "contains_sub sub (c # cs)"
    proof (cases l)
      case Nil
      then have "starts_with sub (c # cs)" unfolding starts_with_iff using eq by simp
      then show ?thesis by simp
    next
      case (Cons d l')
      then have "contains_sub sub cs" unfolding step.IH using eq by auto
      then show ?thesis by simp
    qed
  qed
qed simp

definition ends_with :: "string \<Rightarrow> string \<Rightarrow> bool" where
  "ends_with p s = starts_with (rev p) (rev s)"

text \<open>\<open>strings.TrimRight(s, "/")\<close>.\<close>

definition trim_slashes :: "string \<Rightarrow> string" where
  "trim_slashes s = rev (dropWhile (\<lambda>c. c = CHR ''/'') (rev s))"

text \<open>\<open>strings.Cut(s, sep)\<close> for a separator of one byte, without the flag.\<close>

definition cut_at :: "char \<Rightarrow> string \<Rightarrow> string \<times> string" where
  "cut_at sep s = (takeWhile (\<lambda>c. c \<noteq> sep) s, drop 1 (dropWhile (\<lambda>c. c \<noteq> sep) s))"

lemma cut_at_absent: "sep \<notin> set s \<Longrightarrow> cut_at sep s = (s, [])"
  by (induction s) (auto simp: cut_at_def)

section \<open>Lower case\<close>

text \<open>
  \<open>strings.ToLower\<close>, for a search of an ASCII phrase.  Lower-casing is over ASCII and the two
  runes beyond ASCII whose lower case is an ASCII letter, U+0130 (bytes C4 B0, to i) and U+212A
  (bytes E2 84 AA, to k).  Any other rune stays beyond ASCII when it is lower-cased, so leaving
  its bytes alone does not change whether an ASCII phrase occurs.
\<close>

definition downcase :: "char \<Rightarrow> char" where
  "downcase c = (let n = (of_char c :: nat) in if 65 \<le> n \<and> n \<le> 90 then char_of (n + 32) else c)"

fun to_lower :: "string \<Rightarrow> string" where
  "to_lower [] = []"
| "to_lower (c # cs) =
     (if c = CHR 0xC4 \<and> take 1 cs = [CHR 0xB0] then CHR ''i'' # to_lower (drop 1 cs)
      else if c = CHR 0xE2 \<and> take 2 cs = [CHR 0x84, CHR 0xAA] then CHR ''k'' # to_lower (drop 2 cs)
      else downcase c # to_lower cs)"

section \<open>Quoting\<close>

text \<open>
  The \<open>%q\<close> verb: quotes, backslashes and control bytes are escaped.  A rune beyond ASCII is kept,
  which is what happens to the printable ones.
\<close>

definition hex_lower :: "nat \<Rightarrow> char" where
  "hex_lower n = (if n < 10 then char_of (48 + n) else char_of (87 + n))"

definition quote_char :: "char \<Rightarrow> string" where
  "quote_char c =
     (let n = (of_char c :: nat) in
      if n = 34 \<or> n = 92 then [CHR 0x5C, c]
      else if n = 7 then CHR 0x5C # ''a'' else if n = 8 then CHR 0x5C # ''b''
      else if n = 9 then CHR 0x5C # ''t'' else if n = 10 then CHR 0x5C # ''n''
      else if n = 11 then CHR 0x5C # ''v'' else if n = 12 then CHR 0x5C # ''f''
      else if n = 13 then CHR 0x5C # ''r''
      else if n < 32 \<or> n = 127 then [CHR 0x5C, CHR ''x'', hex_lower (n div 16), hex_lower (n mod 16)]
      else [c])"

definition quoted :: "string \<Rightarrow> string" where
  "quoted s = CHR 0x22 # concat (map quote_char s) @ [CHR 0x22]"

section \<open>White space\<close>

text \<open>The UTF-8 encodings of the runes for which \<open>unicode.IsSpace\<close> holds.\<close>

definition space_runes :: "string list" where
  "space_runes =
     [[CHR 0x09], [CHR 0x0A], [CHR 0x0B], [CHR 0x0C], [CHR 0x0D], [CHR 0x20],
      [CHR 0xC2, CHR 0x85], [CHR 0xC2, CHR 0xA0], [CHR 0xE1, CHR 0x9A, CHR 0x80],
      [CHR 0xE2, CHR 0x80, CHR 0x80], [CHR 0xE2, CHR 0x80, CHR 0x81], [CHR 0xE2, CHR 0x80, CHR 0x82],
      [CHR 0xE2, CHR 0x80, CHR 0x83], [CHR 0xE2, CHR 0x80, CHR 0x84], [CHR 0xE2, CHR 0x80, CHR 0x85],
      [CHR 0xE2, CHR 0x80, CHR 0x86], [CHR 0xE2, CHR 0x80, CHR 0x87], [CHR 0xE2, CHR 0x80, CHR 0x88],
      [CHR 0xE2, CHR 0x80, CHR 0x89], [CHR 0xE2, CHR 0x80, CHR 0x8A], [CHR 0xE2, CHR 0x80, CHR 0xA8],
      [CHR 0xE2, CHR 0x80, CHR 0xA9], [CHR 0xE2, CHR 0x80, CHR 0xAF], [CHR 0xE2, CHR 0x81, CHR 0x9F],
      [CHR 0xE3, CHR 0x80, CHR 0x80]]"

lemma space_runes_not_Nil: "r \<in> set space_runes \<Longrightarrow> r \<noteq> []"
  by (auto simp: space_runes_def)

text \<open>Remove words of a list from the front of a string while one matches.\<close>

function strip_words :: "string list \<Rightarrow> string \<Rightarrow> string" where
  "strip_words ws s =
     (case find (\<lambda>w. w \<noteq> [] \<and> starts_with w s) ws of
        None \<Rightarrow> s
      | Some w \<Rightarrow> strip_words ws (drop (length w) s))"
  by pat_completeness auto
termination
proof (relation "measure (length \<circ> snd)")
  fix ws s w
  assume "find (\<lambda>w. w \<noteq> [] \<and> starts_with w s) ws = Some w"
  then have "w \<noteq> []" and "starts_with w s"
    by (auto simp: find_Some_iff)
  then have "length (drop (length w) s) < length s"
    by (cases s) (auto simp: starts_with_iff)
  then show "((ws, drop (length w) s), ws, s) \<in> measure (length \<circ> snd)"
    by simp
qed simp

declare strip_words.simps [simp del]

definition trim_space :: "string \<Rightarrow> string" where
  "trim_space s =
     rev (strip_words (map rev space_runes) (rev (strip_words space_runes s)))"

definition blank :: "string \<Rightarrow> bool" where
  "blank s \<longleftrightarrow> trim_space s = []"

lemma strip_words_fixed:
  "(\<And>w. w \<in> set ws \<Longrightarrow> w \<noteq> [] \<Longrightarrow> \<not> starts_with w s) \<Longrightarrow> strip_words ws s = s"
  by (subst strip_words.simps) (auto simp: find_None_iff split: option.split dest: find_Some_iff [THEN iffD1])

text \<open>The blank strings are exactly the ones written with white-space runes only.\<close>

lemma strip_words_split: "\<exists>rs. set rs \<subseteq> set ws \<and> s = concat rs @ strip_words ws s"
proof (induction ws s rule: strip_words.induct)
  case (1 ws s)
  show ?case
  proof (cases "find (\<lambda>w. w \<noteq> [] \<and> starts_with w s) ws")
    case None
    then have "s = concat [] @ strip_words ws s"
      by (subst strip_words.simps) simp
    then show ?thesis by (intro exI [of _ "[]"]) simp
  next
    case (Some w)
    then have eq: "strip_words ws s = strip_words ws (drop (length w) s)"
      by (subst strip_words.simps) simp
    obtain rs where "set rs \<subseteq> set ws" "drop (length w) s = concat rs @ strip_words ws s"
      using "1.IH" [OF Some] unfolding eq by blast
    moreover have "w \<in> set ws" "s = w @ drop (length w) s"
      using Some by (auto simp: find_Some_iff starts_with_iff)
    ultimately show ?thesis by (intro exI [of _ "w # rs"]) auto
  qed
qed

lemma strip_words_Nil: "strip_words ws s = [] \<Longrightarrow> \<exists>rs. set rs \<subseteq> set ws \<and> s = concat rs"
  using strip_words_split [of ws s] by simp

definition prefix_free :: "string list \<Rightarrow> bool" where
  "prefix_free ws \<longleftrightarrow> list_all (\<lambda>v. list_all (\<lambda>w. starts_with v w \<longrightarrow> v = w) ws) ws"

lemma prefix_freeD: "prefix_free ws \<Longrightarrow> v \<in> set ws \<Longrightarrow> w \<in> set ws \<Longrightarrow> starts_with v w \<Longrightarrow> v = w"
  by (auto simp: prefix_free_def list_all_iff)

lemma prefix_comparable: "starts_with v s \<Longrightarrow> starts_with w s \<Longrightarrow> starts_with v w \<or> starts_with w v"
  by (auto simp: starts_with_iff append_eq_append_conv2)

lemma strip_words_concat:
  assumes "prefix_free ws" and "[] \<notin> set ws" and "set rs \<subseteq> set ws"
  shows "strip_words ws (concat rs) = []"
  using assms(3)
proof (induction rs)
  case Nil
  then show ?case using assms(2) by (subst strip_words.simps) (auto split: option.split dest!: find_Some_iff [THEN iffD1] simp: starts_with_iff)
next
  case (Cons r rs)
  let ?P = "\<lambda>w. w \<noteq> [] \<and> starts_with w (concat (r # rs))"
  have r: "r \<in> set ws" "?P r"
    using Cons.prems assms(2) by (auto simp: starts_with_iff)
  then obtain w where w: "find ?P ws = Some w"
    by (cases "find ?P ws") (auto simp: find_None_iff)
  then have "w \<in> set ws" "starts_with w (concat (r # rs))"
    by (auto simp: find_Some_iff)
  then have "w = r"
    using prefix_comparable [of w _ r] prefix_freeD [OF assms(1)] r by metis
  then show ?case
    using w Cons by (subst strip_words.simps) simp
qed

lemma prefix_free_runes: "prefix_free space_runes" "prefix_free (map rev space_runes)"
  by code_simp+

lemma blank_iff: "blank s \<longleftrightarrow> (\<exists>rs. set rs \<subseteq> set space_runes \<and> s = concat rs)"
proof
  assume "blank s"
  then obtain rs where "set rs \<subseteq> rev ` set space_runes" and rs: "rev (strip_words space_runes s) = concat rs"
    unfolding blank_def trim_space_def using strip_words_Nil [of "map rev space_runes"] by force
  then have "set (map rev (rev rs)) \<subseteq> set space_runes" by force
  moreover have "strip_words space_runes s = concat (map rev (rev rs))"
    using arg_cong [OF rs, of rev] by (simp add: rev_concat rev_map)
  moreover obtain rs' where "set rs' \<subseteq> set space_runes" "s = concat rs' @ strip_words space_runes s"
    using strip_words_split by blast
  ultimately show "\<exists>rs. set rs \<subseteq> set space_runes \<and> s = concat rs"
    by (intro exI [of _ "rs' @ map rev (rev rs)"]) auto
next
  assume "\<exists>rs. set rs \<subseteq> set space_runes \<and> s = concat rs"
  then obtain rs where "set rs \<subseteq> set space_runes" "s = concat rs" by blast
  then have "strip_words space_runes s = []"
    using strip_words_concat [OF prefix_free_runes(1)] space_runes_not_Nil by blast
  moreover have "strip_words (map rev space_runes) [] = []"
    using strip_words_concat [OF prefix_free_runes(2), of "[]"] by (auto dest: space_runes_not_Nil)
  ultimately show "blank s" by (simp add: blank_def trim_space_def)
qed

end
