(* ===== verification/Errors.thy ===== *)
theory Errors
  imports Verify Strings
begin

text \<open>
  The errors of the SDK (\<open>rift/errors.go\<close>, the error type of \<open>rift/verify.go\<close> and the
  classification of the embedded lane in \<open>riftembed/engine.go\<close>), with \<open>errors.Is\<close> over them and
  the text \<open>Error()\<close> gives.
\<close>

datatype sentinel =
    ErrEngineUnavailable
  | ErrInvalidDefinition
  | ErrImposterNotFound
  | ErrVersionMismatch
  | ErrClosed
  | ErrVerificationFailed

fun sentinel_text :: "sentinel \<Rightarrow> string" where
  "sentinel_text ErrEngineUnavailable = ''rift: engine unavailable''"
| "sentinel_text ErrInvalidDefinition = ''rift: invalid definition''"
| "sentinel_text ErrImposterNotFound = ''rift: imposter not found''"
| "sentinel_text ErrVersionMismatch = ''rift: engine version mismatch''"
| "sentinel_text ErrClosed = ''rift: engine closed''"
| "sentinel_text ErrVerificationFailed = ''rift: verification failed''"

record engine_error =
  ee_code :: int
  ee_message :: string
  ee_op :: string
  ee_kind :: "sentinel option"

record verification_error =
  ve_expected :: count_matcher
  ve_result :: verify_result
  ve_predicates :: "predicate list"

text \<open>
  An error is a sentinel, one of the two error structs, an error of a library the SDK calls (it
  wraps no sentinel of the SDK), or the result of \<open>fmt.Errorf\<close>: its text and the errors given to
  \<open>%w\<close> verbs, in order.
\<close>

datatype go_error =
    Sentinel sentinel
  | EngineErr engine_error
  | VerificationErr verification_error
  | Foreign string
  | Wrapped string "go_error list"

section \<open>Text\<close>

definition engine_error_text :: "engine_error \<Rightarrow> string" where
  "engine_error_text e =
     (if ee_op e \<noteq> [] \<and> ee_code e \<noteq> 0
      then ''rift: '' @ ee_op e @ '' failed ('' @ decimal_int (ee_code e) @ ''): '' @ ee_message e
      else if ee_op e \<noteq> [] then ''rift: '' @ ee_op e @ '' failed: '' @ ee_message e
      else if ee_code e \<noteq> 0
      then ''rift: engine error ('' @ decimal_int (ee_code e) @ ''): '' @ ee_message e
      else ''rift: engine error: '' @ ee_message e)"

definition verification_error_text :: "verification_error \<Rightarrow> string" where
  "verification_error_text e =
     ''rift: verification failed: expected '' @ count_string (ve_expected e) @
     '' matching request(s), got '' @ decimal_int (vr_matched (ve_result e)) @ '' of '' @
     decimal_int (vr_total (ve_result e)) @ '' recorded''"

fun error_text :: "go_error \<Rightarrow> string" where
  "error_text (Sentinel s) = sentinel_text s"
| "error_text (EngineErr e) = engine_error_text e"
| "error_text (VerificationErr e) = verification_error_text e"
| "error_text (Foreign msg) = msg"
| "error_text (Wrapped msg es) = msg"

section \<open>Unwrap and errors.Is\<close>

fun unwrap :: "go_error \<Rightarrow> go_error list" where
  "unwrap (EngineErr e) = (case ee_kind e of None \<Rightarrow> [] | Some s \<Rightarrow> [Sentinel s])"
| "unwrap (VerificationErr e) = [Sentinel ErrVerificationFailed]"
| "unwrap (Wrapped msg es) = es"
| "unwrap e = []"

text \<open>\<open>errors.Is\<close> with a sentinel as target: equal, or true of something it unwraps to.\<close>

fun errors_is :: "go_error \<Rightarrow> sentinel \<Rightarrow> bool" where
  "errors_is (Sentinel s) t = (s = t)"
| "errors_is (EngineErr e) t = (ee_kind e = Some t)"
| "errors_is (VerificationErr e) t = (t = ErrVerificationFailed)"
| "errors_is (Foreign msg) t = False"
| "errors_is (Wrapped msg es) t = list_ex (\<lambda>e. errors_is e t) es"

lemma errors_is_unwrap:
  "errors_is e t \<longleftrightarrow> e = Sentinel t \<or> (\<exists>e' \<in> set (unwrap e). errors_is e' t)"
  by (cases e) (auto simp: list_ex_iff split: option.splits)

section \<open>Constructors\<close>

text \<open>\<open>fmt.Errorf("%w: ...: %w", sentinel, ..., err)\<close> and \<open>fmt.Errorf("%w: ...", sentinel)\<close>.\<close>

definition wrap_as :: "sentinel \<Rightarrow> string \<Rightarrow> go_error \<Rightarrow> go_error" where
  "wrap_as s mid e =
     Wrapped (sentinel_text s @ '': '' @ mid @ error_text e) [Sentinel s, e]"

definition sentinel_msg :: "sentinel \<Rightarrow> string \<Rightarrow> go_error" where
  "sentinel_msg s msg = Wrapped (sentinel_text s @ '': '' @ msg) [Sentinel s]"

definition wrap_invalid :: "string \<Rightarrow> go_error \<Rightarrow> go_error" where
  "wrap_invalid op e = wrap_as ErrInvalidDefinition (op @ '': '') e"

definition wrap_unavailable :: "string \<Rightarrow> go_error \<Rightarrow> go_error" where
  "wrap_unavailable op e = wrap_as ErrEngineUnavailable (op @ '': '') e"

definition mk_engine_error :: "string \<Rightarrow> string \<Rightarrow> int \<Rightarrow> sentinel option \<Rightarrow> engine_error" where
  "mk_engine_error op message code kind =
     \<lparr>ee_code = code, ee_message = message, ee_op = op, ee_kind = kind\<rparr>"

text \<open>\<open>newEngineError\<close> of the remote lane classifies by HTTP status.\<close>

definition http_error_kind :: "int \<Rightarrow> sentinel" where
  "http_error_kind code =
     (if code = 404 then ErrImposterNotFound
      else if code = 502 \<or> code = 503 \<or> code = 504 then ErrEngineUnavailable
      else ErrInvalidDefinition)"

definition new_http_error :: "string \<Rightarrow> int \<Rightarrow> string \<Rightarrow> go_error" where
  "new_http_error op code msg =
     EngineErr \<lparr>ee_code = code, ee_message = msg, ee_op = op, ee_kind = Some (http_error_kind code)\<rparr>"

text \<open>\<open>newEngineError\<close> of the embedded lane classifies by message, lower-cased.\<close>

definition new_embedded_error :: "string \<Rightarrow> string \<Rightarrow> go_error" where
  "new_embedded_error op msg =
     (let lower = to_lower msg;
          kind = (if contains_sub ''not found'' lower \<or> contains_sub ''no imposter'' lower
                  then ErrImposterNotFound else ErrInvalidDefinition)
      in EngineErr (mk_engine_error op msg 0 (Some kind)))"

section \<open>Classification\<close>

text \<open>The sentinels an error belongs to.\<close>

definition kinds :: "go_error \<Rightarrow> sentinel set" where
  "kinds e = {s. errors_is e s}"

lemma kinds_simps [simp]:
  "kinds (Sentinel s) = {s}"
  "kinds (EngineErr e) = set_option (ee_kind e)"
  "kinds (VerificationErr v) = {ErrVerificationFailed}"
  "kinds (Foreign msg) = {}"
  "kinds (Wrapped msg es) = \<Union> (kinds ` set es)"
  by (auto simp: kinds_def list_ex_iff)

lemma kinds_wrap:
  "kinds (wrap_as s mid e) = insert s (kinds e)"
  "kinds (sentinel_msg s msg) = {s}"
  "kinds (wrap_invalid op e) = insert ErrInvalidDefinition (kinds e)"
  "kinds (wrap_unavailable op e) = insert ErrEngineUnavailable (kinds e)"
  by (auto simp: wrap_as_def sentinel_msg_def wrap_invalid_def wrap_unavailable_def)

lemma kinds_http [simp]: "kinds (new_http_error op code msg) = {http_error_kind code}"
  by (simp add: new_http_error_def)

lemma kinds_embedded [simp]:
  "kinds (new_embedded_error op msg) =
     {if contains_sub ''not found'' (to_lower msg) \<or> contains_sub ''no imposter'' (to_lower msg)
      then ErrImposterNotFound else ErrInvalidDefinition}"
  by (simp add: new_embedded_error_def mk_engine_error_def Let_def)

lemma errors_is_kinds: "errors_is e s \<longleftrightarrow> s \<in> kinds e"
  by (simp add: kinds_def)

end
