(* ===== verification/Matchers.thy ===== *)
theory Matchers
  imports ModelLaws
begin

text \<open>
  Matchers and predicate constructors (\<open>rift/predicate.go\<close>).  A matcher is a value: an operator
  name, the value to compare with and the parameters that make two matchers groupable or not.
\<close>

record matcher =
  m_op :: string
  m_value :: json
  m_caseSensitive :: "bool option"
  m_keyCaseSensitive :: "bool option"
  m_except :: string

definition mk_matcher :: "string \<Rightarrow> json \<Rightarrow> matcher" where
  "mk_matcher op v =
     \<lparr>m_op = op, m_value = v, m_caseSensitive = None, m_keyCaseSensitive = None, m_except = []\<rparr>"

definition m_equals :: "json \<Rightarrow> matcher" where "m_equals v = mk_matcher ''equals'' v"
definition m_deep_equals :: "json \<Rightarrow> matcher" where "m_deep_equals v = mk_matcher ''deepEquals'' v"
definition m_contains :: "json \<Rightarrow> matcher" where "m_contains v = mk_matcher ''contains'' v"
definition m_starts_with :: "json \<Rightarrow> matcher" where "m_starts_with v = mk_matcher ''startsWith'' v"
definition m_ends_with :: "json \<Rightarrow> matcher" where "m_ends_with v = mk_matcher ''endsWith'' v"
definition m_matches :: "string \<Rightarrow> matcher" where "m_matches re = mk_matcher ''matches'' (JStr re)"
definition m_exists :: "bool \<Rightarrow> matcher" where "m_exists b = mk_matcher ''exists'' (JBool b)"

definition case_sensitive :: "bool \<Rightarrow> matcher \<Rightarrow> matcher" where
  "case_sensitive on m = m\<lparr>m_caseSensitive := Some on\<rparr>"

definition key_case_sensitive :: "bool \<Rightarrow> matcher \<Rightarrow> matcher" where
  "key_case_sensitive on m = m\<lparr>m_keyCaseSensitive := Some on\<rparr>"

definition except_pattern :: "string \<Rightarrow> matcher \<Rightarrow> matcher" where
  "except_pattern re m = m\<lparr>m_except := re\<rparr>"

section \<open>Grouping parameters\<close>

record matcher_params =
  mp_caseSensitive :: bool
  mp_hasCaseSensitive :: bool
  mp_keyCaseSensitive :: bool
  mp_hasKeyCaseSensitive :: bool
  mp_except :: string

definition matcher_params_of :: "matcher \<Rightarrow> matcher_params" where
  "matcher_params_of m =
     \<lparr>mp_caseSensitive = (case m_caseSensitive m of None \<Rightarrow> False | Some b \<Rightarrow> b),
      mp_hasCaseSensitive = (m_caseSensitive m \<noteq> None),
      mp_keyCaseSensitive = (case m_keyCaseSensitive m of None \<Rightarrow> False | Some b \<Rightarrow> b),
      mp_hasKeyCaseSensitive = (m_keyCaseSensitive m \<noteq> None),
      mp_except = m_except m\<rparr>"

definition apply_params :: "matcher_params \<Rightarrow> predicate \<Rightarrow> predicate" where
  "apply_params p pred =
     (let pred = (if mp_hasCaseSensitive p
                  then p_flat_update (pf_caseSensitive_update (\<lambda>_. Some (mp_caseSensitive p))) pred
                  else pred);
          pred = (if mp_hasKeyCaseSensitive p
                  then p_flat_update (pf_keyCaseSensitive_update (\<lambda>_. Some (mp_keyCaseSensitive p))) pred
                  else pred)
      in if mp_except p \<noteq> [] then p_flat_update (pf_except_update (\<lambda>_. mp_except p)) pred else pred)"

section \<open>Field maps\<close>

definition op_map :: "string \<Rightarrow> pred_flat \<Rightarrow> json gomap" where
  "op_map op f =
     (if op = ''equals'' then pf_equals f
      else if op = ''deepEquals'' then pf_deepEquals f
      else if op = ''contains'' then pf_contains f
      else if op = ''startsWith'' then pf_startsWith f
      else if op = ''endsWith'' then pf_endsWith f
      else if op = ''matches'' then pf_matches f
      else if op = ''exists'' then pf_exists f
      else [])"

definition op_map_update :: "string \<Rightarrow> (json gomap \<Rightarrow> json gomap) \<Rightarrow> pred_flat \<Rightarrow> pred_flat" where
  "op_map_update op g f =
     (if op = ''equals'' then pf_equals_update g f
      else if op = ''deepEquals'' then pf_deepEquals_update g f
      else if op = ''contains'' then pf_contains_update g f
      else if op = ''startsWith'' then pf_startsWith_update g f
      else if op = ''endsWith'' then pf_endsWith_update g f
      else if op = ''matches'' then pf_matches_update g f
      else if op = ''exists'' then pf_exists_update g f
      else f)"

text \<open>\<open>setField\<close>: an operator outside the seven leaves the predicate as it is.\<close>

definition set_field :: "string \<Rightarrow> string \<Rightarrow> json \<Rightarrow> predicate \<Rightarrow> predicate" where
  "set_field op fld v pred = p_flat_update (op_map_update op (gm_put fld v)) pred"

text \<open>\<open>existingField\<close>: nil when nothing was written.\<close>

definition existing_field :: "predicate \<Rightarrow> string \<Rightarrow> string \<Rightarrow> json" where
  "existing_field pred op fld =
     (case gm_get (op_map op (p_flat pred)) fld of None \<Rightarrow> JNull | Some v \<Rightarrow> v)"

section \<open>Predicate constructors\<close>

definition pred_not :: "predicate \<Rightarrow> predicate" where
  "pred_not p = p_not_update (\<lambda>_. Some p) predicate_zero"

definition pred_and :: "predicate list \<Rightarrow> predicate" where
  "pred_and ps = p_and_update (\<lambda>_. ps) predicate_zero"

definition pred_or :: "predicate list \<Rightarrow> predicate" where
  "pred_or ps = p_or_update (\<lambda>_. ps) predicate_zero"

definition pred_inject :: "string \<Rightarrow> predicate" where
  "pred_inject js = p_flat_update (pf_inject_update (\<lambda>_. js)) predicate_zero"

definition predicate_on :: "string \<Rightarrow> matcher \<Rightarrow> predicate" where
  "predicate_on fld m =
     apply_params (matcher_params_of m) (set_field (m_op m) fld (m_value m) predicate_zero)"

definition with_xpath :: "string \<Rightarrow> string gomap \<Rightarrow> predicate \<Rightarrow> predicate" where
  "with_xpath sel ns p =
     p_flat_update (pf_xpath_update (\<lambda>_. Some \<lparr>xp_selector = sel, xp_ns = ns\<rparr>)) p"

definition with_jsonpath :: "string \<Rightarrow> predicate \<Rightarrow> predicate" where
  "with_jsonpath sel p = p_flat_update (pf_jsonpath_update (\<lambda>_. Some \<lparr>jp_selector = sel\<rparr>)) p"

section \<open>Lemmas\<close>

definition operators :: "string list" where
  "operators = [''equals'', ''deepEquals'', ''contains'', ''startsWith'', ''endsWith'', ''matches'', ''exists'']"

named_theorems dsl_valid "what the builders keep well formed"

lemma op_map_update_same: "op \<in> set operators \<Longrightarrow> op_map op (op_map_update op g f) = g (op_map op f)"
  by (auto simp: operators_def op_map_def op_map_update_def)

lemma op_map_update_other: "op \<noteq> op' \<Longrightarrow> op_map op' (op_map_update op g f) = op_map op' f"
  by (auto simp: op_map_def op_map_update_def)

lemma op_map_unknown: "op \<notin> set operators \<Longrightarrow> op_map op f = []"
  by (auto simp: operators_def op_map_def)

lemma op_map_zero [simp]: "op_map op pred_flat_zero = []"
  by (simp add: op_map_def pred_flat_zero_def)

text \<open>The parameters of a matcher determine its three settings, and no two matchers with
  different settings share parameters.\<close>

lemma matcher_params_of_eq_iff:
  "matcher_params_of m = matcher_params_of m' \<longleftrightarrow>
     m_caseSensitive m = m_caseSensitive m' \<and> m_keyCaseSensitive m = m_keyCaseSensitive m' \<and>
     m_except m = m_except m'"
  by (auto simp: matcher_params_of_def split: option.splits)

lemma apply_params_matcher:
  "apply_params (matcher_params_of m) p =
     p_flat_update (\<lambda>f. f\<lparr>
       pf_caseSensitive := (case m_caseSensitive m of None \<Rightarrow> pf_caseSensitive f | Some b \<Rightarrow> Some b),
       pf_keyCaseSensitive := (case m_keyCaseSensitive m of None \<Rightarrow> pf_keyCaseSensitive f | Some b \<Rightarrow> Some b),
       pf_except := (if m_except m = [] then pf_except f else m_except m)\<rparr>) p"
  by (auto simp: apply_params_def matcher_params_of_def p_flat_update_def split: option.splits)

lemma op_map_apply_params [simp]: "op_map op (p_flat (apply_params ps p)) = op_map op (p_flat p)"
  by (simp add: apply_params_def op_map_def Let_def)

lemma map_ok_put: "map_ok m \<Longrightarrow> canonical v \<Longrightarrow> map_ok (gm_put k v m)"
  using set_gm_put [of k v m] by (auto simp: map_ok_def gm_ok_put list_all_iff)

lemma map_ok_put_all: "map_ok m \<Longrightarrow> list_all (\<lambda>kv. canonical (snd kv)) kvs \<Longrightarrow> map_ok (gm_put_all kvs m)"
  by (induction kvs arbitrary: m) (auto simp: map_ok_put)

lemma map_ok_JObj: "canonical (JObj m) \<longleftrightarrow> map_ok m"
  by (simp add: map_ok_def)

lemma valid_predicate_zero [simp, dsl_valid]: "valid_predicate predicate_zero"
  by (simp add: valid_predicate_flat valid_pred_flat_def pred_flat_zero_def)

lemma valid_set_field [dsl_valid]:
  "valid_predicate p \<Longrightarrow> canonical v \<Longrightarrow> valid_predicate (set_field op fld v p)"
  by (simp add: valid_predicate_flat set_field_def valid_pred_flat_def op_map_update_def map_ok_put)

lemma valid_apply_params [dsl_valid]: "valid_predicate p \<Longrightarrow> valid_predicate (apply_params ps p)"
  by (simp add: valid_predicate_flat apply_params_def valid_pred_flat_def Let_def)

lemma valid_composites [dsl_valid]:
  "valid_predicate p \<Longrightarrow> valid_predicate (pred_not p)"
  "list_all valid_predicate ps \<Longrightarrow> valid_predicate (pred_and ps)"
  "list_all valid_predicate ps \<Longrightarrow> valid_predicate (pred_or ps)"
  "valid_predicate (pred_inject js)"
  "valid_predicate p \<Longrightarrow> gm_ok ns \<Longrightarrow> valid_predicate (with_xpath sel ns p)"
  "valid_predicate p \<Longrightarrow> valid_predicate (with_jsonpath sel p)"
  by (simp_all add: valid_predicate_flat pred_not_def pred_and_def pred_or_def pred_inject_def
      with_xpath_def with_jsonpath_def valid_pred_flat_def pred_flat_zero_def valid_xpath_selector_def)

lemma valid_predicate_on [dsl_valid]:
  "canonical (m_value m) \<Longrightarrow> valid_predicate (predicate_on fld m)"
  by (simp add: predicate_on_def dsl_valid)

end
