(* ===== verification/StubBuilder.thy ===== *)
theory StubBuilder
  imports Matchers
begin

text \<open>
  The stub builder (\<open>rift/stub.go\<close>): field matchers and raw predicates are collected, and
  \<open>Build\<close> groups the matchers that share an operator and its parameters into one predicate.
  Builders are values here: a builder method returns the changed builder.
\<close>

record field_matcher =
  fm_field :: string
  fm_matcher :: matcher

record stub_builder =
  sb_fields :: "field_matcher list"
  sb_raw :: "predicate list"
  sb_stub :: stub

definition on_any :: stub_builder where
  "on_any = \<lparr>sb_fields = [], sb_raw = [], sb_stub = stub_zero\<rparr>"

definition on_method_path :: "string \<Rightarrow> string \<Rightarrow> stub_builder" where
  "on_method_path method path =
     \<lparr>sb_fields = [\<lparr>fm_field = ''method'', fm_matcher = m_equals (JStr method)\<rparr>,
                   \<lparr>fm_field = ''path'', fm_matcher = m_equals (JStr path)\<rparr>],
      sb_raw = [], sb_stub = stub_zero\<rparr>"

definition on_get :: "string \<Rightarrow> stub_builder" where "on_get path = on_method_path ''GET'' path"
definition on_post :: "string \<Rightarrow> stub_builder" where "on_post path = on_method_path ''POST'' path"
definition on_put :: "string \<Rightarrow> stub_builder" where "on_put path = on_method_path ''PUT'' path"
definition on_patch :: "string \<Rightarrow> stub_builder" where "on_patch path = on_method_path ''PATCH'' path"
definition on_delete :: "string \<Rightarrow> stub_builder" where "on_delete path = on_method_path ''DELETE'' path"
definition on_head :: "string \<Rightarrow> stub_builder" where "on_head path = on_method_path ''HEAD'' path"

definition with_field :: "string \<Rightarrow> matcher \<Rightarrow> stub_builder \<Rightarrow> stub_builder" where
  "with_field fld m b = b\<lparr>sb_fields := sb_fields b @ [\<lparr>fm_field = fld, fm_matcher = m\<rparr>]\<rparr>"

definition with_nested :: "string \<Rightarrow> string \<Rightarrow> matcher \<Rightarrow> stub_builder \<Rightarrow> stub_builder" where
  "with_nested fld k m b =
     b\<lparr>sb_fields := sb_fields b @
         [\<lparr>fm_field = fld, fm_matcher = m\<lparr>m_value := JObj [(k, m_value m)]\<rparr>\<rparr>]\<rparr>"

definition with_method :: "matcher \<Rightarrow> stub_builder \<Rightarrow> stub_builder" where
  "with_method m b = with_field ''method'' m b"

definition with_path :: "matcher \<Rightarrow> stub_builder \<Rightarrow> stub_builder" where
  "with_path m b = with_field ''path'' m b"

definition with_body :: "matcher \<Rightarrow> stub_builder \<Rightarrow> stub_builder" where
  "with_body m b = with_field ''body'' m b"

definition with_header :: "string \<Rightarrow> matcher \<Rightarrow> stub_builder \<Rightarrow> stub_builder" where
  "with_header name m b = with_nested ''headers'' name m b"

definition with_query :: "string \<Rightarrow> matcher \<Rightarrow> stub_builder \<Rightarrow> stub_builder" where
  "with_query name m b = with_nested ''query'' name m b"

definition with_predicate :: "predicate list \<Rightarrow> stub_builder \<Rightarrow> stub_builder" where
  "with_predicate ps b = b\<lparr>sb_raw := sb_raw b @ ps\<rparr>"

definition return_responses :: "stub_response list \<Rightarrow> stub_builder \<Rightarrow> stub_builder" where
  "return_responses rs b = b\<lparr>sb_stub := (sb_stub b)\<lparr>st_responses := st_responses (sb_stub b) @ rs\<rparr>\<rparr>"

definition with_id :: "string \<Rightarrow> stub_builder \<Rightarrow> stub_builder" where
  "with_id i b = b\<lparr>sb_stub := (sb_stub b)\<lparr>st_id := i\<rparr>\<rparr>"

definition in_scenario :: "string \<Rightarrow> stub_builder \<Rightarrow> stub_builder" where
  "in_scenario n b = b\<lparr>sb_stub := (sb_stub b)\<lparr>st_scenarioName := n\<rparr>\<rparr>"

definition require_state :: "string \<Rightarrow> stub_builder \<Rightarrow> stub_builder" where
  "require_state s b = b\<lparr>sb_stub := (sb_stub b)\<lparr>st_requiredScenarioState := s\<rparr>\<rparr>"

definition set_state :: "string \<Rightarrow> stub_builder \<Rightarrow> stub_builder" where
  "set_state s b = b\<lparr>sb_stub := (sb_stub b)\<lparr>st_newScenarioState := s\<rparr>\<rparr>"

definition in_space :: "string \<Rightarrow> stub_builder \<Rightarrow> stub_builder" where
  "in_space s b = b\<lparr>sb_stub := (sb_stub b)\<lparr>st_space := s\<rparr>\<rparr>"

definition with_route_pattern :: "string \<Rightarrow> stub_builder \<Rightarrow> stub_builder" where
  "with_route_pattern p b = b\<lparr>sb_stub := (sb_stub b)\<lparr>st_routePattern := p\<rparr>\<rparr>"

section \<open>Build\<close>

definition merge_field :: "string \<Rightarrow> string \<Rightarrow> json \<Rightarrow> predicate \<Rightarrow> predicate" where
  "merge_field op fld v pred =
     (case v of
        JObj nested \<Rightarrow>
          (case existing_field pred op fld of
             JObj prev \<Rightarrow> set_field op fld (JObj (gm_put_all nested prev)) pred
           | _ \<Rightarrow> set_field op fld (JObj (gm_put_all nested [])) pred)
      | _ \<Rightarrow> set_field op fld v pred)"

type_synonym group_key = "string \<times> matcher_params"

definition group_key_of :: "field_matcher \<Rightarrow> group_key" where
  "group_key_of fm = (m_op (fm_matcher fm), matcher_params_of (fm_matcher fm))"

text \<open>The loop of \<open>Build\<close>: the keys in first-seen order and the predicate built for each.\<close>

fun group_step ::
    "field_matcher \<Rightarrow> group_key list \<times> (group_key \<rightharpoonup> predicate) \<Rightarrow>
     group_key list \<times> (group_key \<rightharpoonup> predicate)" where
  "group_step fm (order, groups) =
     (let k = group_key_of fm;
          merge = merge_field (m_op (fm_matcher fm)) (fm_field fm) (m_value (fm_matcher fm))
      in case groups k of
           None \<Rightarrow> (order @ [k], groups(k \<mapsto> merge (apply_params (snd k) predicate_zero)))
         | Some pred \<Rightarrow> (order, groups(k \<mapsto> merge pred)))"

definition group_fields :: "field_matcher list \<Rightarrow> group_key list \<times> (group_key \<rightharpoonup> predicate)" where
  "group_fields fms = fold group_step fms ([], Map.empty)"

definition build_stub :: "stub_builder \<Rightarrow> stub" where
  "build_stub b =
     (let (order, groups) = group_fields (sb_fields b);
          preds = map (\<lambda>k. the (groups k)) order @ sb_raw b
      in if preds \<noteq> [] then (sb_stub b)\<lparr>st_predicates := preds\<rparr> else sb_stub b)"

section \<open>What a group contains\<close>

text \<open>The reference: one predicate per distinct key, built from that key's matchers alone.\<close>

definition merge_fm :: "field_matcher \<Rightarrow> predicate \<Rightarrow> predicate" where
  "merge_fm fm = merge_field (m_op (fm_matcher fm)) (fm_field fm) (m_value (fm_matcher fm))"

definition group_predicate :: "group_key \<Rightarrow> field_matcher list \<Rightarrow> predicate" where
  "group_predicate k fms = fold merge_fm fms (apply_params (snd k) predicate_zero)"

fun first_keys :: "field_matcher list \<Rightarrow> group_key list" where
  "first_keys [] = []"
| "first_keys (fm # fms) = group_key_of fm # filter (\<lambda>k. k \<noteq> group_key_of fm) (first_keys fms)"

definition build_reference :: "stub_builder \<Rightarrow> predicate list" where
  "build_reference b =
     map (\<lambda>k. group_predicate k (filter (\<lambda>fm. group_key_of fm = k) (sb_fields b)))
       (first_keys (sb_fields b)) @ sb_raw b"

lemma set_first_keys: "set (first_keys fms) = group_key_of ` set fms"
  by (induction fms) auto

lemma first_keys_snoc:
  "first_keys (fms @ [fm]) =
     first_keys fms @ (if group_key_of fm \<in> group_key_of ` set fms then [] else [group_key_of fm])"
  by (induction fms) auto

abbreviation sharing :: "group_key \<Rightarrow> field_matcher list \<Rightarrow> field_matcher list" where
  "sharing k \<equiv> filter (\<lambda>fm. group_key_of fm = k)"

definition reference_groups :: "field_matcher list \<Rightarrow> group_key \<rightharpoonup> predicate" where
  "reference_groups fms k =
     (if k \<in> group_key_of ` set fms then Some (group_predicate k (sharing k fms)) else None)"

lemma sharing_unseen: "k \<notin> group_key_of ` set fms \<Longrightarrow> sharing k fms = []"
  by (auto simp: filter_empty_conv)

lemma group_predicate_snoc:
  "group_predicate k (fms @ [fm]) = merge_fm fm (group_predicate k fms)"
  by (simp add: group_predicate_def)

lemma reference_groups_snoc:
  "reference_groups (fms @ [fm]) =
     (reference_groups fms)(group_key_of fm \<mapsto>
        merge_fm fm (group_predicate (group_key_of fm) (sharing (group_key_of fm) fms)))"
  by (rule ext) (simp add: reference_groups_def group_predicate_snoc)

lemma group_step_alt:
  "group_step fm (order, groups) =
     (order @ (if groups (group_key_of fm) = None then [group_key_of fm] else []),
      groups(group_key_of fm \<mapsto>
        merge_fm fm (case groups (group_key_of fm) of
                       None \<Rightarrow> group_predicate (group_key_of fm) [] | Some pred \<Rightarrow> pred)))"
  by (simp add: merge_fm_def group_predicate_def Let_def split: option.split)

lemma group_fields_reference: "group_fields fms = (first_keys fms, reference_groups fms)"
proof (induction fms rule: rev_induct)
  case Nil
  then show ?case by (simp add: group_fields_def reference_groups_def fun_eq_iff)
next
  case (snoc fm fms)
  have "group_fields (fms @ [fm]) = group_step fm (first_keys fms, reference_groups fms)"
    using snoc by (simp add: group_fields_def)
  also have "\<dots> = (first_keys (fms @ [fm]), reference_groups (fms @ [fm]))"
    unfolding group_step_alt first_keys_snoc reference_groups_snoc
    by (cases "group_key_of fm \<in> group_key_of ` set fms")
       (simp_all add: reference_groups_def sharing_unseen)
  finally show ?case .
qed

lemma build_stub_predicates:
  "build_stub b =
     (if build_reference b \<noteq> [] then (sb_stub b)\<lparr>st_predicates := build_reference b\<rparr> else sb_stub b)"
proof -
  have "map (\<lambda>k. the (reference_groups (sb_fields b) k)) (first_keys (sb_fields b)) @ sb_raw b
      = build_reference b"
    by (simp add: build_reference_def reference_groups_def set_first_keys)
  then show ?thesis
    by (simp only: build_stub_def group_fields_reference Let_def prod.case)
qed

text \<open>The value a group ends up with under one field: what its matchers on that field merge to.\<close>

definition merge_value :: "json \<Rightarrow> json \<Rightarrow> json" where
  "merge_value v old =
     (case v of
        JObj nested \<Rightarrow> JObj (gm_put_all nested (case old of JObj prev \<Rightarrow> prev | _ \<Rightarrow> []))
      | _ \<Rightarrow> v)"

lemma merge_field_set:
  "merge_field op fld v pred = set_field op fld (merge_value v (existing_field pred op fld)) pred"
  by (simp add: merge_field_def merge_value_def split: json.split)

lemma existing_set_field:
  "op \<in> set operators \<Longrightarrow>
   existing_field (set_field op fld v p) op' fld' =
     (if op' = op \<and> fld' = fld then v else existing_field p op' fld')"
  by (cases "op' = op")
     (simp_all add: existing_field_def set_field_def op_map_update_same op_map_update_other gm_get_put)

lemma existing_merge_field:
  "op \<in> set operators \<Longrightarrow>
   existing_field (merge_field op fld v p) op' fld' =
     (if op' = op \<and> fld' = fld then merge_value v (existing_field p op fld)
      else existing_field p op' fld')"
  by (simp add: merge_field_set existing_set_field)

lemma existing_apply_params [simp]:
  "existing_field (apply_params ps predicate_zero) op fld = JNull"
  by (simp add: existing_field_def)

definition on_field :: "string \<Rightarrow> field_matcher \<Rightarrow> bool" where
  "on_field fld fm \<longleftrightarrow> fm_field fm = fld"

lemma existing_fold_merge:
  assumes "op \<in> set operators" and "\<And>fm. fm \<in> set fms \<Longrightarrow> m_op (fm_matcher fm) = op"
  shows "existing_field (fold merge_fm fms p) op fld =
    fold (\<lambda>fm. merge_value (m_value (fm_matcher fm))) (filter (on_field fld) fms)
      (existing_field p op fld)"
  using assms(2)
  by (induction fms arbitrary: p)
     (auto simp: merge_fm_def existing_merge_field assms(1) on_field_def)

text \<open>A group writes its own operator only, and keeps the parameters of its key.\<close>

lemma p_merge_fm:
  "op_map op (p_flat (merge_fm fm p)) = (if op = m_op (fm_matcher fm) \<and> op \<in> set operators
     then gm_put (fm_field fm) (merge_value (m_value (fm_matcher fm)) (existing_field p op (fm_field fm)))
            (op_map op (p_flat p))
     else op_map op (p_flat p))"
  by (cases "m_op (fm_matcher fm) \<in> set operators"; cases "op = m_op (fm_matcher fm)")
     (simp_all add: merge_fm_def merge_field_set set_field_def op_map_update_same op_map_update_other
        op_map_unknown)

lemma other_op_fold_merge:
  "(\<And>fm. fm \<in> set fms \<Longrightarrow> m_op (fm_matcher fm) \<noteq> op) \<Longrightarrow>
   op_map op (p_flat (fold merge_fm fms p)) = op_map op (p_flat p)"
  by (induction fms arbitrary: p) (auto simp: p_merge_fm)

lemma params_merge_fm:
  "pf_caseSensitive (p_flat (merge_fm fm p)) = pf_caseSensitive (p_flat p)"
  "pf_keyCaseSensitive (p_flat (merge_fm fm p)) = pf_keyCaseSensitive (p_flat p)"
  "pf_except (p_flat (merge_fm fm p)) = pf_except (p_flat p)"
  by (simp_all add: merge_fm_def merge_field_set set_field_def op_map_update_def)

lemma params_fold_merge:
  "pf_caseSensitive (p_flat (fold merge_fm fms p)) = pf_caseSensitive (p_flat p)"
  "pf_keyCaseSensitive (p_flat (fold merge_fm fms p)) = pf_keyCaseSensitive (p_flat p)"
  "pf_except (p_flat (fold merge_fm fms p)) = pf_except (p_flat p)"
  by (induction fms arbitrary: p) (simp_all add: params_merge_fm)

text \<open>Merging later matchers of the same field.\<close>

lemma fold_merge_value_last:
  assumes "\<not> (\<exists>fm \<in> set fms. on_field fld fm)"
  shows "fold (\<lambda>fm. merge_value (m_value (fm_matcher fm))) (filter (on_field fld) fms) v = v"
  using assms by (simp add: filter_empty_conv [THEN iffD2])

lemma fold_merge_value_nested:
  assumes "\<And>fm. fm \<in> set fms \<Longrightarrow> \<exists>k' v'. m_value (fm_matcher fm) = JObj [(k', v')] \<and> k' \<noteq> k"
    and "gm_get m k = Some v"
  shows "\<exists>m'. fold (\<lambda>fm. merge_value (m_value (fm_matcher fm))) fms (JObj m) = JObj m' \<and>
    gm_get m' k = Some v"
  using assms
proof (induction fms arbitrary: m)
  case (Cons fm fms)
  obtain k' v' where fm: "m_value (fm_matcher fm) = JObj [(k', v')]" "k' \<noteq> k"
    using Cons.prems(1) [of fm] by auto
  have "gm_get (gm_put k' v' m) k = Some v" using fm(2) Cons.prems(2) by (simp add: gm_get_put)
  then obtain m' where "fold (\<lambda>fm. merge_value (m_value (fm_matcher fm))) fms (JObj (gm_put k' v' m)) = JObj m'"
    "gm_get m' k = Some v"
    using Cons.IH [of "gm_put k' v' m"] Cons.prems(1) by auto
  moreover have "merge_value (m_value (fm_matcher fm)) (JObj m) = JObj (gm_put k' v' m)"
    by (simp add: fm merge_value_def)
  ultimately show ?case by simp
qed simp

section \<open>Constraints on one header\<close>

definition header_fm :: "string \<Rightarrow> matcher \<Rightarrow> field_matcher" where
  "header_fm name m = \<lparr>fm_field = ''headers'', fm_matcher = m\<lparr>m_value := JObj [(name, m_value m)]\<rparr>\<rparr>"

lemma header_fm_simps [simp]:
  "fm_field (header_fm n m) = ''headers''"
  "m_op (fm_matcher (header_fm n m)) = m_op m"
  "m_value (fm_matcher (header_fm n m)) = JObj [(n, m_value m)]"
  "matcher_params_of (fm_matcher (header_fm n m)) = matcher_params_of m"
  by (simp_all add: header_fm_def matcher_params_of_def)

lemma with_headers_fields:
  "sb_fields (fold (\<lambda>(n, m). with_header n m) hs b) = sb_fields b @ map (\<lambda>(n, m). header_fm n m) hs"
  by (induction hs arbitrary: b) (auto simp: with_header_def with_nested_def header_fm_def)

text \<open>The last matcher of a header in a group decides what the group asks of that header.\<close>

lemma header_in_group:
  assumes op: "m_op m \<in> set operators" and k: "k = group_key_of (header_fm n m)"
    and later: "\<And>fm. fm \<in> set ys \<Longrightarrow> \<exists>n' m'. fm = header_fm n' m' \<and> n' \<noteq> n"
  shows "\<exists>hdrs. existing_field (group_predicate k (sharing k (xs @ header_fm n m # ys))) (m_op m) ''headers''
      = JObj hdrs \<and> gm_get hdrs n = Some (m_value m)"
proof -
  let ?g = "\<lambda>fm. merge_value (m_value (fm_matcher fm))"
  let ?old = "fold ?g (filter (on_field ''headers'') (sharing k xs)) JNull"
  define prev where "prev = (case ?old of JObj prev \<Rightarrow> prev | _ \<Rightarrow> [])"
  have ops: "m_op (fm_matcher fm) = m_op m" if "fm \<in> set (sharing k fms)" for fm fms
    using that k by (auto simp: group_key_of_def)
  have put: "?g (header_fm n m) ?old = JObj (gm_put n (m_value m) prev)"
    by (simp add: merge_value_def prev_def)
  have "existing_field (group_predicate k (sharing k (xs @ header_fm n m # ys))) (m_op m) ''headers''
    = fold ?g (filter (on_field ''headers'') (sharing k (xs @ header_fm n m # ys)))
        (existing_field (apply_params (snd k) predicate_zero) (m_op m) ''headers'')"
    unfolding group_predicate_def by (rule existing_fold_merge [OF op]) (rule ops)
  also have "\<dots> = fold ?g (filter (on_field ''headers'') (sharing k ys)) (?g (header_fm n m) ?old)"
    by (simp add: k on_field_def)
  also note put
  finally have "existing_field (group_predicate k (sharing k (xs @ header_fm n m # ys))) (m_op m) ''headers''
    = fold ?g (filter (on_field ''headers'') (sharing k ys)) (JObj (gm_put n (m_value m) prev))" .
  moreover have "\<exists>hdrs. fold ?g (filter (on_field ''headers'') (sharing k ys)) (JObj (gm_put n (m_value m) prev))
    = JObj hdrs \<and> gm_get hdrs n = Some (m_value m)"
  proof (rule fold_merge_value_nested)
    show "\<exists>k' v'. m_value (fm_matcher fm) = JObj [(k', v')] \<and> k' \<noteq> n"
      if "fm \<in> set (filter (on_field ''headers'') (sharing k ys))" for fm
      using later [of fm] that by auto
  qed (simp add: gm_get_put)
  ultimately show ?thesis by simp
qed

lemma in_build_stub:
  "fm \<in> set (sb_fields b) \<Longrightarrow> k = group_key_of fm \<Longrightarrow>
   group_predicate k (sharing k (sb_fields b)) \<in> set (st_predicates (build_stub b))"
proof -
  assume fm: "fm \<in> set (sb_fields b)" and k: "k = group_key_of fm"
  then have "k \<in> set (first_keys (sb_fields b))" by (simp add: set_first_keys)
  then have "group_predicate k (sharing k (sb_fields b)) \<in> set (build_reference b)"
    by (simp add: build_reference_def)
  then show ?thesis by (auto simp: build_stub_predicates)
qed

lemma params_group_predicate:
  "pf_caseSensitive (p_flat (group_predicate (op, matcher_params_of m) fms)) = m_caseSensitive m"
  "pf_keyCaseSensitive (p_flat (group_predicate (op, matcher_params_of m) fms)) = m_keyCaseSensitive m"
  "pf_except (p_flat (group_predicate (op, matcher_params_of m) fms)) = m_except m"
  by (simp_all add: group_predicate_def params_fold_merge apply_params_matcher p_flat_update_def
      predicate_zero_def pred_flat_zero_def split: option.split)

section \<open>Two matchers on one field\<close>

lemma op_map_update_twice: "op_map_update op g (op_map_update op h f) = op_map_update op (g \<circ> h) f"
  by (simp add: op_map_update_def o_def)

lemma set_field_twice: "set_field op fld v (set_field op fld w p) = set_field op fld v p"
  by (simp add: set_field_def p_flat_update_def op_map_update_twice o_def)

lemma merge_fm_overwrites:
  assumes "fm_field x = fm_field y" "m_op (fm_matcher x) = m_op (fm_matcher y)"
    and "\<nexists>m. m_value (fm_matcher y) = JObj m"
  shows "merge_fm y (merge_fm x p) = merge_fm y p"
proof -
  have "merge_value (m_value (fm_matcher y)) u = m_value (fm_matcher y)" for u
    using assms(3) by (cases "m_value (fm_matcher y)") (auto simp: merge_value_def)
  then show ?thesis
    by (simp add: merge_fm_def merge_field_set assms(1,2) set_field_twice)
qed

lemma group_predicate_overwrites:
  assumes "fm_field x = fm_field y" "group_key_of x = group_key_of y"
    and "\<nexists>m. m_value (fm_matcher y) = JObj m"
  shows "group_predicate k (sharing k (fms @ [x, y])) = group_predicate k (sharing k (fms @ [y]))"
  using merge_fm_overwrites [OF assms(1) _ assms(3)] assms(2)
  by (simp add: group_predicate_def group_key_of_def)

lemma build_stub_overwrites:
  assumes "fm_field x = fm_field y" "group_key_of x = group_key_of y"
    and "\<nexists>m. m_value (fm_matcher y) = JObj m"
  shows "build_stub (b\<lparr>sb_fields := fms @ [x, y]\<rparr>) = build_stub (b\<lparr>sb_fields := fms @ [y]\<rparr>)"
proof -
  have "first_keys (fms @ [x, y]) = first_keys (fms @ [y])"
    using assms(2) first_keys_snoc [of "fms @ [x]" y] first_keys_snoc [of fms x] first_keys_snoc [of fms y]
    by auto
  then have "build_reference (b\<lparr>sb_fields := fms @ [x, y]\<rparr>) = build_reference (b\<lparr>sb_fields := fms @ [y]\<rparr>)"
    using group_predicate_overwrites [OF assms] by (simp add: build_reference_def)
  then show ?thesis by (simp add: build_stub_predicates)
qed

section \<open>Well-formed stubs\<close>

definition valid_fm :: "field_matcher \<Rightarrow> bool" where
  "valid_fm fm \<longleftrightarrow> canonical (m_value (fm_matcher fm))"

definition valid_stub_builder :: "stub_builder \<Rightarrow> bool" where
  "valid_stub_builder b \<longleftrightarrow>
     list_all valid_fm (sb_fields b) \<and> list_all valid_predicate (sb_raw b) \<and> valid_stub (sb_stub b)"

lemma map_ok_get: "map_ok m \<Longrightarrow> gm_get m k = Some v \<Longrightarrow> canonical v"
  using gm_get_in_set [of m k v] by (auto simp: map_ok_def list_all_iff)

lemma map_ok_op_map: "valid_predicate p \<Longrightarrow> map_ok (op_map op (p_flat p))"
  by (simp add: valid_predicate_flat valid_pred_flat_def op_map_def)

lemma canonical_existing_field: "valid_predicate p \<Longrightarrow> canonical (existing_field p op fld)"
  using map_ok_get [OF map_ok_op_map] by (simp add: existing_field_def split: option.split)

lemma canonical_members: "canonical (JObj m) \<Longrightarrow> list_all (\<lambda>kv. canonical (snd kv)) m"
  by (auto simp: list_all_iff)

lemma canonical_merge_value:
  assumes "canonical v" and "canonical old"
  shows "canonical (merge_value v old)"
proof (cases v)
  case (JObj nested)
  have "map_ok (case old of JObj prev \<Rightarrow> prev | _ \<Rightarrow> [])"
    using assms(2) by (cases old) (simp_all only: map_ok_JObj json.case map_ok_Nil)
  moreover have "list_all (\<lambda>kv. canonical (snd kv)) nested"
    using assms(1) JObj canonical_members by simp
  ultimately have "canonical (JObj (gm_put_all nested (case old of JObj prev \<Rightarrow> prev | _ \<Rightarrow> [])))"
    by (simp only: map_ok_JObj map_ok_put_all)
  then show ?thesis by (simp only: merge_value_def JObj json.case)
qed (use assms in \<open>simp_all add: merge_value_def\<close>)

lemma valid_merge_fm: "valid_fm fm \<Longrightarrow> valid_predicate p \<Longrightarrow> valid_predicate (merge_fm fm p)"
  unfolding merge_fm_def merge_field_set
  by (intro valid_set_field canonical_merge_value canonical_existing_field) (simp_all add: valid_fm_def)

lemma valid_group_predicate:
  "list_all valid_fm fms \<Longrightarrow> valid_predicate (group_predicate k fms)"
proof -
  have "list_all valid_fm fms \<Longrightarrow> valid_predicate p \<Longrightarrow> valid_predicate (fold merge_fm fms p)" for p
    by (induction fms arbitrary: p) (simp_all add: valid_merge_fm)
  then show "list_all valid_fm fms \<Longrightarrow> valid_predicate (group_predicate k fms)"
    by (simp add: group_predicate_def dsl_valid)
qed

lemma valid_build_stub [dsl_valid]: "valid_stub_builder b \<Longrightarrow> valid_stub (build_stub b)"
proof -
  assume b: "valid_stub_builder b"
  then have "list_all valid_predicate (build_reference b)"
    by (auto simp: build_reference_def valid_stub_builder_def list_all_iff
        intro!: valid_group_predicate)
  with b show ?thesis by (auto simp: build_stub_predicates valid_stub_builder_def valid_stub_def)
qed

end
