(* ===== verification/Responses.thy ===== *)
theory Responses
  imports Matchers "HOL-Library.Multiset"
begin

text \<open>
  Response builders (\<open>rift/response.go\<close>) and the behavior setters every builder shares
  (\<open>rift/behaviors.go\<close>).  A duration is a number of nanoseconds, as \<open>time.Duration\<close> is.  The
  builder of a canned response is the response it is building; the builder of a proxy response
  keeps the proxy and its behaviors apart until \<open>BuildResponse\<close>.
\<close>

section \<open>Behavior setters\<close>

text \<open>\<open>time.Duration.Milliseconds\<close>: integer division truncates towards zero.\<close>

definition milliseconds :: "int \<Rightarrow> int" where
  "milliseconds d = sgn d * (\<bar>d\<bar> div 1000000)"

definition behave :: "(behaviors \<Rightarrow> behaviors) \<Rightarrow> behaviors option \<Rightarrow> behaviors option" where
  "behave setter bp = Some (setter (case bp of None \<Rightarrow> behaviors_zero | Some b \<Rightarrow> b))"

definition wait_for :: "int \<Rightarrow> behaviors \<Rightarrow> behaviors" where
  "wait_for d b = b\<lparr>bh_wait := JNum (milliseconds d)\<rparr>"

definition wait_between :: "int \<Rightarrow> int \<Rightarrow> behaviors \<Rightarrow> behaviors" where
  "wait_between minD maxD b =
     b\<lparr>bh_wait := JObj (gm_put_all
         [(''min'', JNum (milliseconds minD)), (''max'', JNum (milliseconds maxD))] [])\<rparr>"

definition repeat_n :: "int \<Rightarrow> behaviors \<Rightarrow> behaviors" where
  "repeat_n n b = b\<lparr>bh_repeat := n\<rparr>"

definition decorate_with :: "string \<Rightarrow> behaviors \<Rightarrow> behaviors" where
  "decorate_with js b = b\<lparr>bh_decorate := js\<rparr>"

definition copy_spec :: "json \<Rightarrow> behaviors \<Rightarrow> behaviors" where
  "copy_spec spec b = b\<lparr>bh_copy := spec\<rparr>"

definition lookup_spec :: "json \<Rightarrow> behaviors \<Rightarrow> behaviors" where
  "lookup_spec spec b = b\<lparr>bh_lookup := spec\<rparr>"

definition shell_transform_cmd :: "string list \<Rightarrow> behaviors \<Rightarrow> behaviors" where
  "shell_transform_cmd cmd b =
     (case cmd of
        [c] \<Rightarrow> b\<lparr>bh_shellTransform := JStr c\<rparr>
      | _ \<Rightarrow> b\<lparr>bh_shellTransform := JArr (map JStr cmd)\<rparr>)"

text \<open>The behavior methods of a builder, as calls that can be listed.\<close>

datatype behavior_call =
    After int
  | AfterBetween int int
  | Repeat int
  | Decorate string
  | Copy json
  | Lookup json
  | ShellTransform "string list"

fun behavior_setter :: "behavior_call \<Rightarrow> behaviors \<Rightarrow> behaviors" where
  "behavior_setter (After d) = wait_for d"
| "behavior_setter (AfterBetween minD maxD) = wait_between minD maxD"
| "behavior_setter (Repeat n) = repeat_n n"
| "behavior_setter (Decorate js) = decorate_with js"
| "behavior_setter (Copy spec) = copy_spec spec"
| "behavior_setter (Lookup spec) = lookup_spec spec"
| "behavior_setter (ShellTransform cmd) = shell_transform_cmd cmd"

section \<open>Canned responses\<close>

type_synonym response_builder = stub_response

definition status_of :: "json \<Rightarrow> response_builder" where
  "status_of code = stub_response_zero\<lparr>sr_is := Some (is_response_zero\<lparr>ir_statusCode := code\<rparr>)\<rparr>"

definition status :: "int \<Rightarrow> response_builder" where
  "status code = status_of (JNum code)"

definition ensure_is :: "response_builder \<Rightarrow> response_builder" where
  "ensure_is b = (case sr_is b of None \<Rightarrow> b\<lparr>sr_is := Some is_response_zero\<rparr> | Some _ \<Rightarrow> b)"

definition on_is :: "(is_response \<Rightarrow> is_response) \<Rightarrow> response_builder \<Rightarrow> response_builder" where
  "on_is g b = (let b = ensure_is b in b\<lparr>sr_is := map_option g (sr_is b)\<rparr>)"

definition rb_with_header :: "string \<Rightarrow> string \<Rightarrow> response_builder \<Rightarrow> response_builder" where
  "rb_with_header name val = on_is (\<lambda>r. r\<lparr>ir_headers := gm_put name (JStr val) (ir_headers r)\<rparr>)"

definition rb_with_header_values :: "string \<Rightarrow> string list \<Rightarrow> response_builder \<Rightarrow> response_builder" where
  "rb_with_header_values name vals =
     on_is (\<lambda>r. r\<lparr>ir_headers := gm_put name (JArr (map JStr vals)) (ir_headers r)\<rparr>)"

definition rb_with_body :: "json \<Rightarrow> response_builder \<Rightarrow> response_builder" where
  "rb_with_body body = on_is (\<lambda>r. r\<lparr>ir_body := body\<rparr>)"

definition rb_with_status :: "int \<Rightarrow> response_builder \<Rightarrow> response_builder" where
  "rb_with_status code = on_is (\<lambda>r. r\<lparr>ir_statusCode := JNum code\<rparr>)"

definition rb_binary :: "response_builder \<Rightarrow> response_builder" where
  "rb_binary = on_is (\<lambda>r. r\<lparr>ir_mode := ''binary''\<rparr>)"

definition text_response :: "int \<Rightarrow> string \<Rightarrow> response_builder" where
  "text_response code body =
     rb_with_body (JStr body) (rb_with_header ''Content-Type'' ''text/plain'' (status code))"

definition json_body :: "int \<Rightarrow> json \<Rightarrow> response_builder" where
  "json_body code body =
     rb_with_body body (rb_with_header ''Content-Type'' ''application/json'' (status code))"

definition ok_response :: response_builder where "ok_response = status 200"
definition ok_text :: "string \<Rightarrow> response_builder" where "ok_text body = text_response 200 body"
definition ok_json :: "json \<Rightarrow> response_builder" where "ok_json body = json_body 200 body"

definition created :: "string \<Rightarrow> response_builder" where
  "created location =
     (let b = status 201 in if location \<noteq> [] then rb_with_header ''Location'' location b else b)"

definition no_content :: response_builder where "no_content = status 204"
definition not_found :: response_builder where "not_found = status 404"

definition fault_response :: "string \<Rightarrow> response_builder" where
  "fault_response kind = stub_response_zero\<lparr>sr_fault := kind\<rparr>"

definition inject_response :: "string \<Rightarrow> response_builder" where
  "inject_response js = stub_response_zero\<lparr>sr_inject := js\<rparr>"

definition rb_templated :: "response_builder \<Rightarrow> response_builder" where
  "rb_templated b =
     b\<lparr>sr_rift := Some ((case sr_rift b of None \<Rightarrow> rift_response_zero | Some r \<Rightarrow> r)\<lparr>rr_templated := True\<rparr>)\<rparr>"

definition response_behave :: "behavior_call \<Rightarrow> response_builder \<Rightarrow> response_builder" where
  "response_behave c b = b\<lparr>sr_behaviors := behave (behavior_setter c) (sr_behaviors b)\<rparr>"

section \<open>Proxy responses\<close>

record proxy_builder =
  pb_proxy :: proxy_response
  pb_behaviors :: "behaviors option"

definition proxy :: "string \<Rightarrow> proxy_builder" where
  "proxy upstream = \<lparr>pb_proxy = proxy_response_zero\<lparr>px_to := upstream\<rparr>, pb_behaviors = None\<rparr>"

definition proxy_build :: "proxy_builder \<Rightarrow> stub_response" where
  "proxy_build b =
     stub_response_zero\<lparr>sr_proxy := Some (pb_proxy b), sr_behaviors := pb_behaviors b\<rparr>"

definition proxy_behave :: "behavior_call \<Rightarrow> proxy_builder \<Rightarrow> proxy_builder" where
  "proxy_behave c b = b\<lparr>pb_behaviors := behave (behavior_setter c) (pb_behaviors b)\<rparr>"

definition on_proxy :: "(proxy_response \<Rightarrow> proxy_response) \<Rightarrow> proxy_builder \<Rightarrow> proxy_builder" where
  "on_proxy g b = b\<lparr>pb_proxy := g (pb_proxy b)\<rparr>"

definition proxy_once :: "proxy_builder \<Rightarrow> proxy_builder" where
  "proxy_once = on_proxy (\<lambda>p. p\<lparr>px_mode := ''proxyOnce''\<rparr>)"

definition proxy_always :: "proxy_builder \<Rightarrow> proxy_builder" where
  "proxy_always = on_proxy (\<lambda>p. p\<lparr>px_mode := ''proxyAlways''\<rparr>)"

definition proxy_transparent :: "proxy_builder \<Rightarrow> proxy_builder" where
  "proxy_transparent = on_proxy (\<lambda>p. p\<lparr>px_mode := ''proxyTransparent''\<rparr>)"

definition generating_predicates :: "json list \<Rightarrow> proxy_builder \<Rightarrow> proxy_builder" where
  "generating_predicates gens = on_proxy (\<lambda>p. p\<lparr>px_predicateGenerators := gens\<rparr>)"

definition inject_header :: "string \<Rightarrow> string \<Rightarrow> proxy_builder \<Rightarrow> proxy_builder" where
  "inject_header name val =
     on_proxy (\<lambda>p. p\<lparr>px_injectHeaders := gm_put name val (px_injectHeaders p)\<rparr>)"

definition rewrite_path :: "string \<Rightarrow> string \<Rightarrow> proxy_builder \<Rightarrow> proxy_builder" where
  "rewrite_path frm dest = on_proxy (\<lambda>p. p\<lparr>px_pathRewrite := Some \<lparr>rw_from = frm, rw_to = dest\<rparr>\<rparr>)"

definition with_client_cert :: "string \<Rightarrow> string \<Rightarrow> proxy_builder \<Rightarrow> proxy_builder" where
  "with_client_cert cert key = on_proxy (\<lambda>p. p\<lparr>px_cert := cert, px_key := key\<rparr>)"

section \<open>Builders that carry a behaviors block\<close>

text \<open>
  What \<open>behave\<close> relies on: a builder has one behaviors block, and a behavior method changes that
  block only.  The two builders satisfy it, so a chain of behavior methods leaves the same block
  on both.
\<close>

locale behaving =
  fixes block :: "'b \<Rightarrow> behaviors option"
    and call_on :: "behavior_call \<Rightarrow> 'b \<Rightarrow> 'b"
    and rest :: "'b \<Rightarrow> 'r"
  assumes block_call: "block (call_on c b) = behave (behavior_setter c) (block b)"
    and rest_call: "rest (call_on c b) = rest b"
begin

lemma block_chain: "block (fold call_on cs b) = fold (\<lambda>c. behave (behavior_setter c)) cs (block b)"
  by (induction cs arbitrary: b) (simp_all add: block_call)

lemma rest_chain: "rest (fold call_on cs b) = rest b"
  by (induction cs arbitrary: b) (simp_all add: rest_call)

end

interpretation response: behaving sr_behaviors response_behave "\<lambda>b. b\<lparr>sr_behaviors := None\<rparr>"
  by unfold_locales (simp_all add: response_behave_def)

interpretation proxy: behaving pb_behaviors proxy_behave pb_proxy
  by unfold_locales (simp_all add: proxy_behave_def)

lemma response_eqI:
  "sr_behaviors (a :: stub_response) = sr_behaviors b \<Longrightarrow>
   a\<lparr>sr_behaviors := None\<rparr> = b\<lparr>sr_behaviors := None\<rparr> \<Longrightarrow> a = b"
  by (cases a; cases b) simp

lemma fold_behave:
  "cs \<noteq> [] \<Longrightarrow> fold (\<lambda>c. behave (behavior_setter c)) cs bp =
     Some (fold behavior_setter cs (case bp of None \<Rightarrow> behaviors_zero | Some b \<Rightarrow> b))"
proof (induction cs arbitrary: bp)
  case (Cons c cs)
  show ?case
    using Cons.IH [of "behave (behavior_setter c) bp"]
    by (cases "cs = []") (simp_all only: fold_simps behave_def option.case not_False_eq_True)
qed simp

section \<open>What a chain of setters writes\<close>

text \<open>The part of the block a call writes; \<open>After\<close> and \<open>AfterBetween\<close> write the same one.\<close>

datatype slot = WaitSlot | RepeatSlot | DecorateSlot | CopySlot | LookupSlot | ShellSlot

fun call_slot :: "behavior_call \<Rightarrow> slot" where
  "call_slot (After _) = WaitSlot"
| "call_slot (AfterBetween _ _) = WaitSlot"
| "call_slot (Repeat _) = RepeatSlot"
| "call_slot (Decorate _) = DecorateSlot"
| "call_slot (Copy _) = CopySlot"
| "call_slot (Lookup _) = LookupSlot"
| "call_slot (ShellTransform _) = ShellSlot"

lemmas setter_defs = wait_for_def wait_between_def repeat_n_def decorate_with_def copy_spec_def
  lookup_spec_def shell_transform_cmd_def

lemma setters_commute:
  "call_slot c \<noteq> call_slot c' \<Longrightarrow>
   behavior_setter c (behavior_setter c' b) = behavior_setter c' (behavior_setter c b)"
  by (cases c; cases c') (simp_all add: setter_defs split: list.split)

lemma setter_overwrites:
  "call_slot c = call_slot c' \<Longrightarrow> behavior_setter c (behavior_setter c' b) = behavior_setter c b"
  by (cases c; cases c') (simp_all add: setter_defs split: list.split)

lemma distinct_slots_inj: "distinct (map call_slot cs) \<Longrightarrow> c \<in> set cs \<Longrightarrow> c' \<in> set cs \<Longrightarrow>
    c \<noteq> c' \<Longrightarrow> call_slot c \<noteq> call_slot c'"
  by (auto simp: distinct_map inj_on_def)

lemma setters_any_order:
  assumes "mset cs = mset cs'" and "distinct (map call_slot cs)"
  shows "fold behavior_setter cs b = fold behavior_setter cs' b"
proof -
  have "behavior_setter c \<circ> behavior_setter c' = behavior_setter c' \<circ> behavior_setter c"
    if "c \<in> set cs" "c' \<in> set cs" for c c'
    using setters_commute distinct_slots_inj [OF assms(2) that] by (cases "c = c'") (auto simp: fun_eq_iff)
  then show ?thesis
    using fold_multiset_equiv [of cs behavior_setter cs'] assms(1) by simp
qed

section \<open>Bounds and well-formedness\<close>

lemma milliseconds_bound: "\<bar>d\<bar> \<le> 2 ^ 63 \<Longrightarrow> \<bar>milliseconds d\<bar> \<le> 2 ^ 53"
proof -
  assume "\<bar>d\<bar> \<le> 2 ^ 63"
  then have "\<bar>d\<bar> div 1000000 \<le> 2 ^ 63 div 1000000" by (rule zdiv_mono1) simp
  moreover have "0 \<le> \<bar>d\<bar> div 1000000" by (simp add: pos_imp_zdiv_nonneg_iff)
  ultimately show ?thesis by (simp add: milliseconds_def abs_mult abs_sgn_eq)
qed

lemma milliseconds_canonical: "\<bar>d\<bar> \<le> 2 ^ 63 \<Longrightarrow> canonical (JNum (milliseconds d))"
  using milliseconds_bound f64_of_int_exact by simp

lemma milliseconds_truncates:
  "0 \<le> d \<Longrightarrow> milliseconds d * 1000000 \<le> d \<and> d < (milliseconds d + 1) * 1000000"
  by (cases "d = 0") (simp add: milliseconds_def, simp add: milliseconds_def, linarith)

text \<open>The arguments a call can be given: durations are 64-bit, values are Go values.\<close>

fun valid_call :: "behavior_call \<Rightarrow> bool" where
  "valid_call (After d) = (\<bar>d\<bar> \<le> 2 ^ 63)"
| "valid_call (AfterBetween minD maxD) = (\<bar>minD\<bar> \<le> 2 ^ 63 \<and> \<bar>maxD\<bar> \<le> 2 ^ 63)"
| "valid_call (Repeat n) = go_int n"
| "valid_call (Decorate _) = True"
| "valid_call (Copy spec) = canonical spec"
| "valid_call (Lookup spec) = canonical spec"
| "valid_call (ShellTransform _) = True"

lemma canonical_strings [simp]: "canonical (JArr (map JStr ss))"
  by (simp add: list_all_iff)

lemma canonical_range:
  assumes "canonical x" "canonical y"
  shows "canonical (JObj (gm_put_all [(''min'', x), (''max'', y)] []))"
  unfolding map_ok_JObj using assms by (intro map_ok_put_all) simp_all

lemma valid_set_wait: "valid_behaviors b \<Longrightarrow> canonical v \<Longrightarrow> valid_behaviors (b\<lparr>bh_wait := v\<rparr>)"
  by (simp add: valid_behaviors_def)

lemma valid_behavior_setter:
  assumes c: "valid_call c" and b: "valid_behaviors b"
  shows "valid_behaviors (behavior_setter c b)"
proof (cases c)
  case (After d)
  then show ?thesis
    using c b unfolding After behavior_setter.simps wait_for_def
    by (intro valid_set_wait milliseconds_canonical) simp_all
next
  case (AfterBetween minD maxD)
  then show ?thesis
    using c b unfolding AfterBetween behavior_setter.simps wait_between_def
    by (intro valid_set_wait canonical_range milliseconds_canonical) simp_all
next
  case (ShellTransform cmd)
  then show ?thesis
    using b by (simp add: valid_behaviors_def shell_transform_cmd_def list_all_iff split: list.split)
qed (use c b in \<open>simp_all add: valid_behaviors_def repeat_n_def decorate_with_def copy_spec_def lookup_spec_def\<close>)

lemma valid_behaviors_zero [simp]: "valid_behaviors behaviors_zero"
  by (simp add: valid_behaviors_def behaviors_zero_def go_int_def)

lemma valid_behave:
  "valid_call c \<Longrightarrow> pred_option valid_behaviors bp \<Longrightarrow>
   pred_option valid_behaviors (behave (behavior_setter c) bp)"
  by (cases bp) (simp_all add: behave_def valid_behavior_setter)

lemma valid_chain_block:
  "list_all valid_call cs \<Longrightarrow> pred_option valid_behaviors bp \<Longrightarrow>
   pred_option valid_behaviors (fold (\<lambda>c. behave (behavior_setter c)) cs bp)"
  by (induction cs arbitrary: bp) (simp_all add: valid_behave)

lemma valid_is_response_zero [simp]: "valid_is_response is_response_zero"
  by (simp add: valid_is_response_def is_response_zero_def)

lemma valid_stub_response_zero [simp]: "valid_stub_response stub_response_zero"
  by (simp add: valid_stub_response_def stub_response_zero_def)

lemma valid_response_behave [dsl_valid]:
  "valid_call c \<Longrightarrow> valid_stub_response b \<Longrightarrow> valid_stub_response (response_behave c b)"
  by (simp add: response_behave_def valid_stub_response_def valid_behave)

lemma valid_status [dsl_valid]: "\<bar>code\<bar> \<le> 2 ^ 53 \<Longrightarrow> valid_stub_response (status code)"
  using f64_of_int_exact
  by (simp add: status_def status_of_def valid_stub_response_def stub_response_zero_def
      valid_is_response_def is_response_zero_def)

lemma valid_on_is:
  assumes "valid_stub_response b" and "\<And>r. valid_is_response r \<Longrightarrow> valid_is_response (g r)"
  shows "valid_stub_response (on_is g b)"
  using assms by (cases "sr_is b") (simp_all add: on_is_def ensure_is_def valid_stub_response_def)

lemma valid_response_builders [dsl_valid]:
  "valid_stub_response b \<Longrightarrow> valid_stub_response (rb_with_header name val b)"
  "valid_stub_response b \<Longrightarrow> valid_stub_response (rb_with_header_values name vals b)"
  "valid_stub_response b \<Longrightarrow> canonical body \<Longrightarrow> valid_stub_response (rb_with_body body b)"
  "valid_stub_response b \<Longrightarrow> \<bar>code\<bar> \<le> 2 ^ 53 \<Longrightarrow> valid_stub_response (rb_with_status code b)"
  "valid_stub_response b \<Longrightarrow> valid_stub_response (rb_binary b)"
  using f64_of_int_exact
  by (auto simp: rb_with_header_def rb_with_header_values_def rb_with_body_def rb_with_status_def
      rb_binary_def valid_is_response_def map_ok_put list_all_iff intro!: valid_on_is)

lemma valid_canned_responses [dsl_valid]:
  "\<bar>code\<bar> \<le> 2 ^ 53 \<Longrightarrow> valid_stub_response (text_response code txt)"
  "\<bar>code\<bar> \<le> 2 ^ 53 \<Longrightarrow> canonical body \<Longrightarrow> valid_stub_response (json_body code body)"
  "valid_stub_response (created location)"
  by (simp_all add: text_response_def json_body_def created_def dsl_valid Let_def)

lemma valid_other_responses [dsl_valid]:
  "valid_stub_response (fault_response kind)"
  "valid_stub_response (inject_response js)"
  by (simp_all add: fault_response_def inject_response_def valid_stub_response_def stub_response_zero_def)

lemma valid_templated [dsl_valid]: "valid_stub_response b \<Longrightarrow> valid_stub_response (rb_templated b)"
  by (cases "sr_rift b")
     (simp_all add: rb_templated_def valid_stub_response_def valid_rift_response_def rift_response_zero_def)

definition valid_proxy_builder :: "proxy_builder \<Rightarrow> bool" where
  "valid_proxy_builder b \<longleftrightarrow>
     valid_proxy_response (pb_proxy b) \<and> pred_option valid_behaviors (pb_behaviors b)"

lemma valid_proxy_builders [dsl_valid]:
  "valid_proxy_builder (proxy upstream)"
  "valid_proxy_builder b \<Longrightarrow> valid_call c \<Longrightarrow> valid_proxy_builder (proxy_behave c b)"
  "valid_proxy_builder b \<Longrightarrow> valid_proxy_builder (proxy_once b)"
  "valid_proxy_builder b \<Longrightarrow> valid_proxy_builder (proxy_always b)"
  "valid_proxy_builder b \<Longrightarrow> valid_proxy_builder (proxy_transparent b)"
  "valid_proxy_builder b \<Longrightarrow> list_all canonical gens \<Longrightarrow> valid_proxy_builder (generating_predicates gens b)"
  "valid_proxy_builder b \<Longrightarrow> valid_proxy_builder (inject_header name val b)"
  "valid_proxy_builder b \<Longrightarrow> valid_proxy_builder (rewrite_path frm dest b)"
  "valid_proxy_builder b \<Longrightarrow> valid_proxy_builder (with_client_cert cert key b)"
  by (simp_all add: valid_proxy_builder_def proxy_def proxy_behave_def on_proxy_def proxy_once_def
      proxy_always_def proxy_transparent_def generating_predicates_def inject_header_def rewrite_path_def
      with_client_cert_def valid_proxy_response_def proxy_response_zero_def valid_behave gm_ok_put)

lemma valid_proxy_build [dsl_valid]:
  "valid_proxy_builder b \<Longrightarrow> valid_stub_response (proxy_build b)"
  by (simp add: valid_proxy_builder_def proxy_build_def valid_stub_response_def stub_response_zero_def)

end
