(* ===== verification/Imposters.thy ===== *)
theory Imposters
  imports StubBuilder Responses
begin

text \<open>
  The imposter builder (\<open>rift/imposter.go\<close>).  The builder is the imposter it is building; the
  stubs and the default response are given built, as \<open>BuildStub\<close> and \<open>BuildResponse\<close> return them.
\<close>

type_synonym imposter_builder = imposter

definition new_imposter :: "string \<Rightarrow> imposter_builder" where
  "new_imposter name = imposter_zero\<lparr>imp_name := name\<rparr>"

definition ib_port :: "16 word \<Rightarrow> imposter_builder \<Rightarrow> imposter_builder" where
  "ib_port p b = b\<lparr>imp_port := p\<rparr>"

definition ib_protocol :: "string \<Rightarrow> imposter_builder \<Rightarrow> imposter_builder" where
  "ib_protocol p b = b\<lparr>imp_protocol := p\<rparr>"

definition ib_https :: "string \<Rightarrow> string \<Rightarrow> imposter_builder \<Rightarrow> imposter_builder" where
  "ib_https cert key b = b\<lparr>imp_protocol := ''https'', imp_cert := cert, imp_key := key\<rparr>"

definition ib_host :: "string \<Rightarrow> imposter_builder \<Rightarrow> imposter_builder" where
  "ib_host h b = b\<lparr>imp_host := h\<rparr>"

definition ib_record :: "imposter_builder \<Rightarrow> imposter_builder" where
  "ib_record b = b\<lparr>imp_recordRequests := True\<rparr>"

definition ib_record_matches :: "imposter_builder \<Rightarrow> imposter_builder" where
  "ib_record_matches b = b\<lparr>imp_recordMatches := True\<rparr>"

definition ib_allow_cors :: "imposter_builder \<Rightarrow> imposter_builder" where
  "ib_allow_cors b = b\<lparr>imp_allowCORS := True\<rparr>"

definition ib_mutual_auth :: "imposter_builder \<Rightarrow> imposter_builder" where
  "ib_mutual_auth b = b\<lparr>imp_mutualAuth := True\<rparr>"

definition ib_require_client_cert :: "string list \<Rightarrow> imposter_builder \<Rightarrow> imposter_builder" where
  "ib_require_client_cert caPEMs b =
     (let b = (if imp_protocol b = [] then b\<lparr>imp_protocol := ''https''\<rparr> else b);
          b = b\<lparr>imp_mutualAuth := True\<rparr>
      in case caPEMs of
           [] \<Rightarrow> b\<lparr>imp_rejectUnauthorized := False, imp_ca := JNull\<rparr>
         | [ca] \<Rightarrow> b\<lparr>imp_rejectUnauthorized := True, imp_ca := JStr ca\<rparr>
         | _ \<Rightarrow> b\<lparr>imp_rejectUnauthorized := True, imp_ca := JArr (map JStr caPEMs)\<rparr>)"

definition ib_strict_behaviors :: "imposter_builder \<Rightarrow> imposter_builder" where
  "ib_strict_behaviors b = b\<lparr>imp_strictBehaviors := True\<rparr>"

definition ib_default_response :: "response_builder \<Rightarrow> imposter_builder \<Rightarrow> imposter_builder" where
  "ib_default_response r b =
     (if sr_is r \<noteq> None then b\<lparr>imp_defaultResponse := sr_is r\<rparr> else b)"

definition ib_default_forward :: "string \<Rightarrow> imposter_builder \<Rightarrow> imposter_builder" where
  "ib_default_forward upstream b = b\<lparr>imp_defaultForward := upstream\<rparr>"

definition ib_stub :: "stub list \<Rightarrow> imposter_builder \<Rightarrow> imposter_builder" where
  "ib_stub stubs b = b\<lparr>imp_stubs := imp_stubs b @ stubs\<rparr>"

definition ib_with_rift :: "rift_imposter option \<Rightarrow> imposter_builder \<Rightarrow> imposter_builder" where
  "ib_with_rift cfg b = b\<lparr>imp_rift := cfg\<rparr>"

definition ib_with_extra :: "string \<Rightarrow> json \<Rightarrow> imposter_builder \<Rightarrow> imposter_builder" where
  "ib_with_extra key val b = b\<lparr>imp_extra := gm_put key val (imp_extra b)\<rparr>"

definition base_url :: "string \<Rightarrow> 16 word \<Rightarrow> string" where
  "base_url protocol port =
     (if protocol = [] then ''http'' else protocol) @ ''://localhost:'' @ decimal (unat port)"

section \<open>Laws\<close>

text \<open>The client-certificate policy the three keys spell, as the documentation of
  \<open>RequireClientCert\<close> gives their meaning.\<close>

datatype client_auth = NoClientCert | AnyClientCert | CertFrom "string list" | BadClientAuth

definition json_strings :: "json \<Rightarrow> string list option" where
  "json_strings j =
     (case j of
        JStr s \<Rightarrow> Some [s]
      | JArr js \<Rightarrow> traverse (\<lambda>j. case j of JStr s \<Rightarrow> Some s | _ \<Rightarrow> None) js
      | _ \<Rightarrow> None)"

definition client_auth_of :: "imposter \<Rightarrow> client_auth" where
  "client_auth_of i =
     (if \<not> imp_mutualAuth i then NoClientCert
      else if \<not> imp_rejectUnauthorized i then (if imp_ca i = JNull then AnyClientCert else BadClientAuth)
      else (case json_strings (imp_ca i) of None \<Rightarrow> BadClientAuth | Some cas \<Rightarrow> CertFrom cas))"

lemma json_strings_map [simp]: "json_strings (JArr (map JStr ss)) = Some ss"
  by (simp add: json_strings_def traverse_map, induction ss) auto

lemma client_auth_required:
  "client_auth_of (ib_require_client_cert cas b) = (if cas = [] then AnyClientCert else CertFrom cas)"
  using json_strings_map [of cas]
  by (auto simp: ib_require_client_cert_def client_auth_of_def json_strings_def Let_def split: list.split)

lemma require_client_cert_protocol:
  "imp_protocol (ib_require_client_cert cas b) = (if imp_protocol b = [] then ''https'' else imp_protocol b)"
  by (auto simp: ib_require_client_cert_def Let_def split: list.split)

lemma valid_imposter_zero [simp]: "valid_imposter imposter_zero"
  by (simp add: valid_imposter_def imposter_zero_def)

lemma valid_new_imposter [dsl_valid]: "valid_imposter (new_imposter name)"
  by (simp add: new_imposter_def valid_imposter_def imposter_zero_def)

lemma valid_simple_setters [dsl_valid]:
  "valid_imposter b \<Longrightarrow> valid_imposter (ib_port p b)"
  "valid_imposter b \<Longrightarrow> valid_imposter (ib_protocol pr b)"
  "valid_imposter b \<Longrightarrow> valid_imposter (ib_https cert key b)"
  "valid_imposter b \<Longrightarrow> valid_imposter (ib_host h b)"
  "valid_imposter b \<Longrightarrow> valid_imposter (ib_record b)"
  "valid_imposter b \<Longrightarrow> valid_imposter (ib_record_matches b)"
  "valid_imposter b \<Longrightarrow> valid_imposter (ib_allow_cors b)"
  "valid_imposter b \<Longrightarrow> valid_imposter (ib_mutual_auth b)"
  "valid_imposter b \<Longrightarrow> valid_imposter (ib_strict_behaviors b)"
  "valid_imposter b \<Longrightarrow> valid_imposter (ib_default_forward upstream b)"
  by (simp_all add: valid_imposter_def ib_port_def ib_protocol_def ib_https_def ib_host_def ib_record_def
      ib_record_matches_def ib_allow_cors_def ib_mutual_auth_def ib_strict_behaviors_def
      ib_default_forward_def)

lemma valid_require_client_cert [dsl_valid]:
  "valid_imposter b \<Longrightarrow> valid_imposter (ib_require_client_cert cas b)"
  using canonical_strings [of cas]
  by (auto simp: valid_imposter_def ib_require_client_cert_def Let_def split: list.split)

lemma valid_default_response [dsl_valid]:
  "valid_imposter b \<Longrightarrow> valid_stub_response r \<Longrightarrow> valid_imposter (ib_default_response r b)"
  by (simp add: valid_imposter_def ib_default_response_def valid_stub_response_def)

lemma valid_ib_stub [dsl_valid]:
  "valid_imposter b \<Longrightarrow> list_all valid_stub stubs \<Longrightarrow> valid_imposter (ib_stub stubs b)"
  by (simp add: valid_imposter_def ib_stub_def)

lemma valid_with_rift [dsl_valid]:
  "valid_imposter b \<Longrightarrow> pred_option valid_rift_imposter cfg \<Longrightarrow> valid_imposter (ib_with_rift cfg b)"
  by (simp add: valid_imposter_def ib_with_rift_def)

lemma extra_ok_put:
  "extra_ok fs m \<Longrightarrow> find_field fs k = None \<Longrightarrow> canonical v \<Longrightarrow> extra_ok fs (gm_put k v m)"
  using set_gm_put [of k v m] by (auto simp: extra_ok_def gm_ok_put list_all_iff)

lemma valid_with_extra [dsl_valid]:
  "valid_imposter b \<Longrightarrow> find_field imposter_fields key = None \<Longrightarrow> canonical val \<Longrightarrow>
   valid_imposter (ib_with_extra key val b)"
  by (simp add: valid_imposter_def ib_with_extra_def extra_ok_put)

section \<open>A program of builder calls\<close>

text \<open>
  A chain of calls on an imposter builder, with the side conditions under which its arguments
  are Go values.
\<close>

datatype imposter_call =
    CPort "16 word"
  | CProtocol string
  | CHTTPS string string
  | CHost string
  | CRecord
  | CRecordMatches
  | CAllowCORS
  | CMutualAuth
  | CRequireClientCert "string list"
  | CStrictBehaviors
  | CDefaultResponse response_builder
  | CDefaultForward string
  | CStub "stub_builder list"
  | CWithRift "rift_imposter option"
  | CWithExtra string json

fun imposter_step :: "imposter_call \<Rightarrow> imposter_builder \<Rightarrow> imposter_builder" where
  "imposter_step (CPort p) = ib_port p"
| "imposter_step (CProtocol p) = ib_protocol p"
| "imposter_step (CHTTPS cert key) = ib_https cert key"
| "imposter_step (CHost h) = ib_host h"
| "imposter_step CRecord = ib_record"
| "imposter_step CRecordMatches = ib_record_matches"
| "imposter_step CAllowCORS = ib_allow_cors"
| "imposter_step CMutualAuth = ib_mutual_auth"
| "imposter_step (CRequireClientCert cas) = ib_require_client_cert cas"
| "imposter_step CStrictBehaviors = ib_strict_behaviors"
| "imposter_step (CDefaultResponse r) = ib_default_response r"
| "imposter_step (CDefaultForward u) = ib_default_forward u"
| "imposter_step (CStub bs) = ib_stub (map build_stub bs)"
| "imposter_step (CWithRift cfg) = ib_with_rift cfg"
| "imposter_step (CWithExtra k v) = ib_with_extra k v"

fun valid_imposter_call :: "imposter_call \<Rightarrow> bool" where
  "valid_imposter_call (CDefaultResponse r) = valid_stub_response r"
| "valid_imposter_call (CStub bs) = list_all valid_stub_builder bs"
| "valid_imposter_call (CWithRift cfg) = pred_option valid_rift_imposter cfg"
| "valid_imposter_call (CWithExtra k v) = (find_field imposter_fields k = None \<and> canonical v)"
| "valid_imposter_call _ = True"

definition build_imposter :: "string \<Rightarrow> imposter_call list \<Rightarrow> imposter" where
  "build_imposter name cs = fold imposter_step cs (new_imposter name)"

lemma valid_imposter_step:
  "valid_imposter_call c \<Longrightarrow> valid_imposter b \<Longrightarrow> valid_imposter (imposter_step c b)"
  by (cases c) (simp_all add: dsl_valid list_all_iff)

lemma valid_build_imposter: "list_all valid_imposter_call cs \<Longrightarrow> valid_imposter (build_imposter name cs)"
proof -
  have "list_all valid_imposter_call cs \<Longrightarrow> valid_imposter b \<Longrightarrow> valid_imposter (fold imposter_step cs b)" for b
    by (induction cs arbitrary: b) (simp_all add: valid_imposter_step)
  then show "list_all valid_imposter_call cs \<Longrightarrow> valid_imposter (build_imposter name cs)"
    by (simp add: build_imposter_def dsl_valid)
qed

lemma stubs_in_call_order:
  "imp_stubs (fold imposter_step cs b) =
     imp_stubs b @ concat (map (\<lambda>c. case c of CStub bs \<Rightarrow> map build_stub bs | _ \<Rightarrow> []) cs)"
proof (induction cs arbitrary: b)
  case (Cons c cs)
  have "imp_stubs (imposter_step c b) = imp_stubs b @ (case c of CStub bs \<Rightarrow> map build_stub bs | _ \<Rightarrow> [])"
    by (cases c) (auto simp: ib_port_def ib_protocol_def ib_https_def ib_host_def ib_record_def
        ib_record_matches_def ib_allow_cors_def ib_mutual_auth_def ib_require_client_cert_def
        ib_strict_behaviors_def ib_default_response_def ib_default_forward_def ib_stub_def
        ib_with_rift_def ib_with_extra_def Let_def split: list.split)
  then show ?case by (simp add: Cons.IH)
qed simp

text \<open>The stubs of a built imposter are the stubs of the Stub calls, built, in the order of the calls and of their arguments; no other call adds, drops or reorders one.\<close>

lemma stubs_in_order:
  "imp_stubs (build_imposter name cs) =
     concat (map (\<lambda>c. case c of CStub bs \<Rightarrow> map build_stub bs | _ \<Rightarrow> []) cs)"
  by (simp add: build_imposter_def stubs_in_call_order)
     (simp add: new_imposter_def imposter_zero_def)

end
