(* ===== verification/WireApi.thy ===== *)
theory WireApi
  imports Errors Imposters
begin

text \<open>
  The entry points that turn a document into a model value and back (\<open>rift/json.go\<close>,
  \<open>rift/response.go\<close>).  A payload is the text the SDK was given together with the document it
  parses to, if it is JSON.  The text of an error of \<open>encoding/json\<close> is not modelled.
\<close>

record payload =
  pl_text :: string
  pl_doc :: "json option"

definition json_error :: go_error where
  "json_error = Foreign ''encoding/json''"

text \<open>\<open>json.Unmarshal\<close> into a type with decoder \<open>d\<close>.\<close>

definition json_unmarshal :: "(json \<Rightarrow> 'a option) \<Rightarrow> payload \<Rightarrow> go_error + 'a" where
  "json_unmarshal d p =
     (case pl_doc p of
        None \<Rightarrow> Inl json_error
      | Some j \<Rightarrow> (case d j of None \<Rightarrow> Inl json_error | Some v \<Rightarrow> Inr v))"

definition imposter_from_json :: "payload \<Rightarrow> go_error + imposter" where
  "imposter_from_json p =
     (case json_unmarshal dec_imposter p of
        Inl e \<Rightarrow> Inl (wrap_as ErrInvalidDefinition [] e) | Inr i \<Rightarrow> Inr i)"

definition imposters_from_json :: "payload \<Rightarrow> go_error + imposters_config" where
  "imposters_from_json p =
     (case json_unmarshal dec_imposters_config p of
        Inl e \<Rightarrow> Inl (wrap_as ErrInvalidDefinition [] e) | Inr c \<Rightarrow> Inr c)"

definition response_from_json :: "payload \<Rightarrow> go_error + stub_response" where
  "response_from_json p =
     (case json_unmarshal dec_stub_response p of
        Inl e \<Rightarrow> Inl (wrap_invalid ''parse response'' e) | Inr r \<Rightarrow> Inr r)"

text \<open>\<open>ToJSON\<close> of a model value: every value of the model has a document.\<close>

definition to_json :: "('a \<Rightarrow> json) \<Rightarrow> 'a \<Rightarrow> go_error + json" where
  "to_json e v = Inr (e v)"

lemma json_unmarshal_Inr: "json_unmarshal d p = Inr v \<longleftrightarrow> (\<exists>j. pl_doc p = Some j \<and> d j = Some v)"
  by (auto simp: json_unmarshal_def split: option.splits)

lemma json_unmarshal_Inl: "json_unmarshal d p = Inl e \<longleftrightarrow> e = json_error \<and> Option.bind (pl_doc p) d = None"
  by (auto simp: json_unmarshal_def split: option.splits)

lemma kinds_json_error [simp]: "kinds json_error = {}"
  by (simp add: json_error_def)

section \<open>Lanes\<close>

text \<open>What an operation does with the reply of the engine: drop it, or decode it.\<close>

definition discard :: "go_error + 'a \<Rightarrow> go_error + unit" where
  "discard r = (case r of Inl e \<Rightarrow> Inl e | Inr _ \<Rightarrow> Inr ())"

definition decode_as ::
    "(go_error \<Rightarrow> go_error) \<Rightarrow> (payload \<Rightarrow> go_error + 'a) \<Rightarrow> go_error + payload \<Rightarrow> go_error + 'a" where
  "decode_as wrap d r =
     (case r of
        Inl e \<Rightarrow> Inl e
      | Inr p \<Rightarrow> (case d p of Inl e \<Rightarrow> Inl (wrap e) | Inr v \<Rightarrow> Inr v))"

definition classified :: "go_error + 'a \<Rightarrow> bool" where
  "classified r \<longleftrightarrow> (\<forall>e. r = Inl e \<longrightarrow> kinds e \<noteq> {})"

lemma classified_simps [simp]: "classified (Inr v)" "classified (Inl e) \<longleftrightarrow> kinds e \<noteq> {}"
  by (simp_all add: classified_def)

text \<open>
  A lane carries a call to the engine and brings back its reply, or an error that belongs to a
  sentinel.  The operations on top of a lane inherit that.
\<close>

locale lane =
  fixes perform :: "'c \<Rightarrow> go_error + payload"
  assumes perform_classified: "classified (perform c)"
begin

lemma discard_classified: "classified (discard (perform c))"
  using perform_classified [of c] by (auto simp: discard_def split: sum.split)

lemma decode_classified:
  assumes "\<And>e. kinds (wrap e) \<noteq> {}"
  shows "classified (decode_as wrap d (perform c))"
  using perform_classified [of c] assms by (auto simp: decode_as_def split: sum.split)

end

text \<open>\<open>json.Unmarshal\<close> into a slice.\<close>

definition dec_slice :: "(json \<Rightarrow> 'a option) \<Rightarrow> json \<Rightarrow> 'a list option" where
  "dec_slice d j = (case j of JNull \<Rightarrow> Some [] | JArr js \<Rightarrow> traverse d js | _ \<Rightarrow> None)"

end
