(* ===== verification/Urls.thy ===== *)
theory Urls
  imports Strings
begin

text \<open>
  What the SDK uses of \<open>net/url\<close>: escaping of a path and of a path segment, the decoding a server
  applies, and the host name of an authority.
\<close>

section \<open>Escaping\<close>

definition alnum :: "char \<Rightarrow> bool" where
  "alnum c = (let n = (of_char c :: nat) in
     (48 \<le> n \<and> n \<le> 57) \<or> (65 \<le> n \<and> n \<le> 90) \<or> (97 \<le> n \<and> n \<le> 122))"

text \<open>The bytes \<open>shouldEscape\<close> leaves alone in a whole path and in a segment.\<close>

definition path_char :: "char \<Rightarrow> bool" where
  "path_char c \<longleftrightarrow> alnum c \<or> c \<in> set ''-_.~$&+,/:;=@''"

definition segment_char :: "char \<Rightarrow> bool" where
  "segment_char c \<longleftrightarrow> alnum c \<or> c \<in> set ''-_.~$&+:=@''"

definition hex_digit :: "nat \<Rightarrow> char" where
  "hex_digit n = (if n < 10 then char_of (48 + n) else char_of (55 + n))"

definition hex_value :: "char \<Rightarrow> nat option" where
  "hex_value c = (let n = (of_char c :: nat) in
     if 48 \<le> n \<and> n \<le> 57 then Some (n - 48)
     else if 65 \<le> n \<and> n \<le> 70 then Some (n - 55)
     else if 97 \<le> n \<and> n \<le> 102 then Some (n - 87)
     else None)"

definition escape_char :: "(char \<Rightarrow> bool) \<Rightarrow> char \<Rightarrow> string" where
  "escape_char keep c =
     (if keep c then [c]
      else [CHR ''%'', hex_digit (of_char c div 16), hex_digit (of_char c mod 16)])"

definition escape :: "(char \<Rightarrow> bool) \<Rightarrow> string \<Rightarrow> string" where
  "escape keep s = concat (map (escape_char keep) s)"

definition path_escape :: "string \<Rightarrow> string" where
  "path_escape s = escape segment_char s"

definition escape_path :: "string \<Rightarrow> string" where
  "escape_path s = escape path_char s"

fun unescape :: "string \<Rightarrow> string option" where
  "unescape [] = Some []"
| "unescape (c # cs) =
     (if c = CHR ''%''
      then (case cs of
              a # b # rest \<Rightarrow>
                (case (hex_value a, hex_value b) of
                   (Some x, Some y) \<Rightarrow> map_option (Cons (char_of (16 * x + y))) (unescape rest)
                 | _ \<Rightarrow> None)
            | _ \<Rightarrow> None)
      else map_option (Cons c) (unescape cs))"

lemma hex_value_digit [simp]: "n < 16 \<Longrightarrow> hex_value (hex_digit n) = Some n"
  by (auto simp: hex_value_def hex_digit_def Let_def)

lemma escape_simps [simp]:
  "escape keep [] = []"
  "escape keep (c # s) = escape_char keep c @ escape keep s"
  "escape keep (s @ t) = escape keep s @ escape keep t"
  by (simp_all add: escape_def)

lemma char_nibbles:
  "(of_char c :: nat) div 16 < 16"
  "char_of (16 * ((of_char c :: nat) div 16) + of_char c mod 16) = c"
proof -
  have "(of_char c :: nat) < 256" by simp
  then show "(of_char c :: nat) div 16 < 16" by (simp add: less_mult_imp_div_less)
  show "char_of (16 * ((of_char c :: nat) div 16) + of_char c mod 16) = c"
    by (simp only: mult_div_mod_eq char_of_char)
qed

lemma unescape_escape_char:
  "\<not> keep CHR ''%'' \<Longrightarrow> unescape (escape_char keep c @ s) = map_option (Cons c) (unescape s)"
  by (simp add: escape_char_def char_nibbles)

lemma unescape_escape: "\<not> keep CHR ''%'' \<Longrightarrow> unescape (escape keep s) = Some s"
  by (induction s) (simp_all add: unescape_escape_char)

lemma escape_id_iff: "escape keep s = s \<longleftrightarrow> list_all keep s"
proof (induction s)
  case (Cons c s)
  have "length (escape keep s) \<ge> length s"
    by (induction s) (auto simp: escape_char_def)
  then have "escape_char keep c @ escape keep s = c # s \<longleftrightarrow> keep c \<and> escape keep s = s"
    by (auto simp: escape_char_def dest!: arg_cong [where f = length])
  then show ?case by (simp add: Cons.IH)
qed simp

lemma percent_not_kept [simp]: "\<not> path_char CHR ''%''" "\<not> segment_char CHR ''%''"
  by (simp_all add: path_char_def segment_char_def alnum_def Let_def)

lemma question_not_kept [simp]: "\<not> path_char CHR ''?''" "\<not> segment_char CHR ''?''"
  by (simp_all add: path_char_def segment_char_def alnum_def Let_def)

lemma unescape_path: "unescape (escape_path s) = Some s" "unescape (path_escape s) = Some s"
  by (simp_all add: escape_path_def path_escape_def unescape_escape)

lemma segment_char_path: "segment_char c \<Longrightarrow> path_char c"
  by (auto simp: segment_char_def path_char_def)

lemma path_char_slash [simp]: "path_char CHR ''/''"
  by (simp add: path_char_def)

lemma hex_digit_alnum: "n < 16 \<Longrightarrow> alnum (hex_digit n)"
  by (auto simp: hex_digit_def alnum_def Let_def)

lemma escape_char_chars: "c \<in> set (escape_char keep d) \<Longrightarrow> keep c \<or> c = CHR ''%'' \<or> alnum c"
  using hex_digit_alnum [OF char_nibbles(1)] hex_digit_alnum [of "of_char d mod 16"]
  by (auto simp: escape_char_def split: if_splits)

lemma escape_chars: "c \<in> set (escape keep s) \<Longrightarrow> keep c \<or> c = CHR ''%'' \<or> alnum c"
  using escape_char_chars by (auto simp: escape_def)

lemma path_escape_chars: "c \<in> set (path_escape s) \<Longrightarrow> segment_char c \<or> c = CHR ''%''"
  using escape_chars [of c segment_char s] by (auto simp: path_escape_def segment_char_def)

lemma path_escape_no_slash: "CHR ''/'' \<notin> set (path_escape s)" "CHR ''?'' \<notin> set (path_escape s)"
  using path_escape_chars [of _ s]
  by (auto simp: segment_char_def alnum_def Let_def dest: path_escape_chars)

section \<open>Authorities\<close>

text \<open>\<open>validOptionalPort\<close>: empty, or a colon and digits.\<close>

definition valid_optional_port :: "string \<Rightarrow> bool" where
  "valid_optional_port p =
     (case p of
        [] \<Rightarrow> True
      | c # ds \<Rightarrow> c = CHR '':'' \<and> list_all (\<lambda>d. d \<in> set ''0123456789'') ds)"

text \<open>\<open>splitHostPort\<close>: cut at the last colon when a port follows, then drop the brackets.\<close>

definition last_colon :: "string \<Rightarrow> (string \<times> string) option" where
  "last_colon s =
     (if CHR '':'' \<in> set s
      then let tail = rev (takeWhile (\<lambda>c. c \<noteq> CHR '':'') (rev s))
           in Some (take (length s - length tail - 1) s, CHR '':'' # tail)
      else None)"

definition strip_brackets :: "string \<Rightarrow> string" where
  "strip_brackets h =
     (if starts_with ''['' h \<and> ends_with '']'' h then butlast (tl h) else h)"

definition hostname :: "string \<Rightarrow> string" where
  "hostname authority =
     strip_brackets
       (case last_colon authority of
          Some (host, colon_port) \<Rightarrow> if valid_optional_port colon_port then host else authority
        | None \<Rightarrow> authority)"

end
