(* ===== verification/Remote.thy ===== *)
theory Remote
  imports WireApi Urls
begin

text \<open>
  The admin-API client (\<open>rift/remote.go\<close>).  \<open>url.Parse\<close> and the HTTP exchange are parameters: an
  admin URL is given parsed, and an exchange takes the request the SDK built to what came back.
  Every operation is the request it sends and what it makes of the reply.
\<close>

section \<open>The client\<close>

text \<open>
  A parsed admin URL: the user information and host as they are written back, and the decoded
  path.  An admin URL whose path needs a raw form of its own is not modelled.
\<close>

record parsed_url =
  pu_scheme :: string
  pu_userinfo :: string
  pu_host :: string
  pu_path :: string

record remote =
  rm_base :: parsed_url
  rm_apiKey :: string
  rm_host :: string

definition check_api_key :: "string \<Rightarrow> go_error + unit" where
  "check_api_key key =
     (if key \<noteq> [] \<and> trim_space key = []
      then Inl (sentinel_msg ErrInvalidDefinition
        (''API key is blank; set a real token, or leave it empty to run the admin API unauthenticated''))
      else Inr ())"

definition connect ::
    "(string \<Rightarrow> string + parsed_url) \<Rightarrow> string \<Rightarrow> string \<Rightarrow> string \<Rightarrow> go_error + remote" where
  "connect url_parse adminURL apiKey optHost =
     (case check_api_key apiKey of
        Inl e \<Rightarrow> Inl e
      | Inr _ \<Rightarrow>
          (case url_parse adminURL of
             Inl msg \<Rightarrow> Inl (wrap_as ErrInvalidDefinition (''admin URL '' @ quoted adminURL @ '': '') (Foreign msg))
           | Inr u \<Rightarrow>
               if pu_scheme u = [] \<or> pu_host u = []
               then Inl (sentinel_msg ErrInvalidDefinition
                      (''admin URL '' @ quoted adminURL @ '' needs a scheme and host''))
               else Inr \<lparr>rm_base = u, rm_apiKey = apiKey,
                         rm_host = (if optHost = [] then hostname (pu_host u) else optHost)\<rparr>))"

definition itoa :: "16 word \<Rightarrow> string" where
  "itoa p = decimal (unat p)"

definition host_for :: "remote \<Rightarrow> 16 word \<Rightarrow> string" where
  "host_for r port = rm_host r @ '':'' @ itoa port"

text \<open>\<open>BaseURLFor\<close> of a client that overrides the host, as this one does.\<close>

definition base_url_for :: "remote \<Rightarrow> string \<Rightarrow> 16 word \<Rightarrow> string" where
  "base_url_for r protocol port =
     (if protocol = [] then ''http'' else protocol) @ ''://'' @ host_for r port"

section \<open>One exchange\<close>

record admin_call =
  ac_method :: string
  ac_path :: string
  ac_body :: "json option"

record http_request =
  hq_method :: string
  hq_url :: string
  hq_headers :: "string gomap"
  hq_body :: "json option"

datatype exchange =
    BuildFailed string
  | SendFailed string
  | ReadFailed string
  | Replied int string payload

definition url_string :: "parsed_url \<Rightarrow> string \<Rightarrow> string \<Rightarrow> string" where
  "url_string u path query =
     pu_scheme u @ ''://'' @ pu_userinfo u @ pu_host u @ escape_path path @
     (if query = [] then [] else ''?'' @ query)"

definition build_request :: "remote \<Rightarrow> admin_call \<Rightarrow> http_request" where
  "build_request r c =
     (let (rawPath, rawQuery) = cut_at CHR ''?'' (ac_path c);
          headers = (if ac_body c \<noteq> None then gm_put ''Content-Type'' ''application/json'' [] else []);
          headers = (if rm_apiKey r \<noteq> [] then gm_put ''Authorization'' (rm_apiKey r) headers else headers)
      in \<lparr>hq_method = ac_method c,
          hq_url = url_string (rm_base r) (trim_slashes (pu_path (rm_base r)) @ rawPath) rawQuery,
          hq_headers = headers, hq_body = ac_body c\<rparr>)"

text \<open>The two shapes of an error body \<open>engineMessage\<close> knows.\<close>

record error_item =
  ei_message :: string
  ei_code :: string

definition error_item_fields :: "error_item field list" where
  "error_item_fields =
     [mk_field ''message'' req_string ei_message ei_message_update,
      mk_field ''code'' req_string ei_code ei_code_update]"

definition enc_error_item :: "error_item \<Rightarrow> json" where
  "enc_error_item = enc_struct error_item_fields"

definition dec_error_item :: "json \<Rightarrow> error_item option" where
  "dec_error_item j = dec_struct error_item_fields j \<lparr>ei_message = [], ei_code = []\<rparr>"

record shaped_error =
  se_errors :: "error_item list"
  se_message :: string

definition shaped_error_fields :: "shaped_error field list" where
  "shaped_error_fields =
     [mk_field ''errors'' (omit_slice enc_error_item dec_error_item) se_errors se_errors_update,
      mk_field ''message'' req_string se_message se_message_update]"

definition dec_shaped_error :: "json \<Rightarrow> shaped_error option" where
  "dec_shaped_error j = dec_struct shaped_error_fields j \<lparr>se_errors = [], se_message = []\<rparr>"

definition engine_message :: "payload \<Rightarrow> string \<Rightarrow> string" where
  "engine_message body status_line =
     (let fallback = (if trim_space (pl_text body) \<noteq> [] then trim_space (pl_text body) else status_line)
      in case json_unmarshal dec_shaped_error body of
           Inl _ \<Rightarrow> fallback
         | Inr shaped \<Rightarrow>
             (case se_errors shaped of
                e # _ \<Rightarrow> if ei_message e \<noteq> [] then ei_message e
                         else if se_message shaped \<noteq> [] then se_message shaped else fallback
              | [] \<Rightarrow> if se_message shaped \<noteq> [] then se_message shaped else fallback))"

definition read_reply :: "admin_call \<Rightarrow> exchange \<Rightarrow> go_error + payload" where
  "read_reply c x =
     (let what = ac_method c @ '' '' @ ac_path c
      in case x of
           BuildFailed msg \<Rightarrow> Inl (wrap_invalid (''build '' @ what) (Foreign msg))
         | SendFailed msg \<Rightarrow> Inl (wrap_unavailable what (Foreign msg))
         | ReadFailed msg \<Rightarrow> Inl (wrap_unavailable (''read '' @ what @ '' response'') (Foreign msg))
         | Replied code status_line body \<Rightarrow>
             if code < 200 \<or> code \<ge> 300
             then Inl (new_http_error what code (engine_message body status_line))
             else Inr body)"

definition remote_do :: "remote \<Rightarrow> (http_request \<Rightarrow> exchange) \<Rightarrow> admin_call \<Rightarrow> go_error + payload" where
  "remote_do r http c = read_reply c (http (build_request r c))"

section \<open>The calls\<close>

definition call_without_body :: "string \<Rightarrow> string \<Rightarrow> admin_call" where
  "call_without_body method path = \<lparr>ac_method = method, ac_path = path, ac_body = None\<rparr>"

definition call_with_body :: "string \<Rightarrow> string \<Rightarrow> json \<Rightarrow> admin_call" where
  "call_with_body method path body = \<lparr>ac_method = method, ac_path = path, ac_body = Some body\<rparr>"

definition imposter_path :: "16 word \<Rightarrow> string" where
  "imposter_path port = ''/imposters/'' @ itoa port"

definition ping_call :: admin_call where
  "ping_call = call_without_body ''GET'' ''/health''"

definition config_call :: admin_call where
  "config_call = call_without_body ''GET'' ''/config''"

definition create_imposter_call :: "imposter \<Rightarrow> admin_call" where
  "create_imposter_call i = call_with_body ''POST'' ''/imposters'' (enc_imposter i)"

definition delete_imposter_call :: "16 word \<Rightarrow> admin_call" where
  "delete_imposter_call port = call_without_body ''DELETE'' (imposter_path port)"

definition delete_all_call :: admin_call where
  "delete_all_call = call_without_body ''DELETE'' ''/imposters''"

definition list_imposters_call :: "bool \<Rightarrow> admin_call" where
  "list_imposters_call replayable =
     call_without_body ''GET'' (''/imposters'' @ (if replayable then ''?replayable=true'' else []))"

definition get_imposter_call :: "16 word \<Rightarrow> bool \<Rightarrow> admin_call" where
  "get_imposter_call port replayable =
     call_without_body ''GET'' (imposter_path port @ (if replayable then ''?replayable=true'' else []))"

definition replace_all_call :: "imposters_config \<Rightarrow> admin_call" where
  "replace_all_call cfg = call_with_body ''PUT'' ''/imposters'' (enc_imposters_config cfg)"

definition set_enabled_call :: "16 word \<Rightarrow> bool \<Rightarrow> admin_call" where
  "set_enabled_call port enabled =
     call_without_body ''POST'' (imposter_path port @ (if enabled then ''/enable'' else ''/disable''))"

text \<open>A nil slice of stubs is written as null.\<close>

definition replace_stubs_call :: "16 word \<Rightarrow> stub list option \<Rightarrow> admin_call" where
  "replace_stubs_call port stubs =
     call_with_body ''PUT'' (imposter_path port @ ''/stubs'')
       (JObj [(''stubs'', case stubs of None \<Rightarrow> JNull | Some ss \<Rightarrow> JArr (map enc_stub ss))])"

definition add_stub_call :: "16 word \<Rightarrow> stub \<Rightarrow> int \<Rightarrow> admin_call" where
  "add_stub_call port s index =
     (let payload = gm_put ''stub'' (enc_stub s) [];
          payload = (if index \<ge> 0 then gm_put ''index'' (JNum index) payload else payload)
      in call_with_body ''POST'' (imposter_path port @ ''/stubs'') (JObj payload))"

definition update_stub_call :: "16 word \<Rightarrow> int \<Rightarrow> stub \<Rightarrow> admin_call" where
  "update_stub_call port index s =
     call_with_body ''PUT'' (imposter_path port @ ''/stubs/'' @ decimal_int index)
       (JObj [(''stub'', enc_stub s)])"

definition delete_stub_call :: "16 word \<Rightarrow> int \<Rightarrow> admin_call" where
  "delete_stub_call port index =
     call_without_body ''DELETE'' (imposter_path port @ ''/stubs/'' @ decimal_int index)"

definition recorded_call :: "16 word \<Rightarrow> admin_call" where
  "recorded_call port = call_without_body ''GET'' (imposter_path port @ ''/savedRequests'')"

definition clear_recorded_call :: "16 word \<Rightarrow> admin_call" where
  "clear_recorded_call port = call_without_body ''DELETE'' (imposter_path port @ ''/savedRequests'')"

definition clear_proxy_recordings_call :: "16 word \<Rightarrow> admin_call" where
  "clear_proxy_recordings_call port =
     call_without_body ''DELETE'' (imposter_path port @ ''/savedProxyResponses'')"

definition verify_call :: "16 word \<Rightarrow> verify_request \<Rightarrow> admin_call" where
  "verify_call port q =
     call_with_body ''POST'' (imposter_path port @ ''/verify'') (enc_verify_request q)"

definition scenarios_call :: "16 word \<Rightarrow> admin_call" where
  "scenarios_call port = call_without_body ''GET'' (imposter_path port @ ''/scenarios'')"

definition set_scenario_state_call :: "16 word \<Rightarrow> string \<Rightarrow> string \<Rightarrow> string \<Rightarrow> admin_call" where
  "set_scenario_state_call port scenario state flowId =
     call_with_body ''PUT'' (imposter_path port @ ''/scenarios/'' @ path_escape scenario @ ''/state'')
       (JObj (gm_put_all [(''state'', JStr state), (''flowId'', JStr flowId)] []))"

definition reset_scenarios_call :: "16 word \<Rightarrow> string \<Rightarrow> admin_call" where
  "reset_scenarios_call port flowId =
     \<lparr>ac_method = ''POST'', ac_path = imposter_path port @ ''/scenarios/reset'',
      ac_body = (if flowId \<noteq> [] then Some (JObj [(''flowId'', JStr flowId)]) else None)\<rparr>"

definition space_path :: "16 word \<Rightarrow> string \<Rightarrow> string" where
  "space_path port flowId = imposter_path port @ ''/spaces/'' @ path_escape flowId"

definition space_add_stub_call :: "16 word \<Rightarrow> string \<Rightarrow> stub \<Rightarrow> admin_call" where
  "space_add_stub_call port flowId s =
     call_with_body ''POST'' (space_path port flowId @ ''/stubs'') (JObj [(''stub'', enc_stub s)])"

definition space_list_stubs_call :: "16 word \<Rightarrow> string \<Rightarrow> admin_call" where
  "space_list_stubs_call port flowId =
     call_without_body ''GET'' (space_path port flowId @ ''/stubs'')"

definition space_delete_call :: "16 word \<Rightarrow> string \<Rightarrow> admin_call" where
  "space_delete_call port flowId = call_without_body ''DELETE'' (space_path port flowId)"

section \<open>What the operations return\<close>

definition created_fields :: "16 word field list" where
  "created_fields = [mk_field ''port'' req_u16 (\<lambda>p. p) (\<lambda>g p. g p)]"

definition dec_created :: "json \<Rightarrow> 16 word option" where
  "dec_created j = dec_struct created_fields j 0"

definition remote_create_imposter ::
    "remote \<Rightarrow> (http_request \<Rightarrow> exchange) \<Rightarrow> imposter \<Rightarrow> go_error + 16 word" where
  "remote_create_imposter r http i =
     (case decode_as (wrap_invalid ''decode created imposter'') (json_unmarshal dec_created)
             (remote_do r http (create_imposter_call i)) of
        Inl e \<Rightarrow> Inl e
      | Inr port \<Rightarrow>
          if port = 0
          then if imp_port i \<noteq> 0 then Inr (imp_port i)
               else Inl (sentinel_msg ErrInvalidDefinition
                      ''engine returned no port for the created imposter'')
          else Inr port)"

definition wrapped_fields :: "recorded_request list field list" where
  "wrapped_fields =
     [mk_field ''requests'' (omit_slice enc_recorded_request dec_recorded_request)
        (\<lambda>rs. rs) (\<lambda>g rs. g rs)]"

definition decode_recorded :: "payload \<Rightarrow> go_error + recorded_request list" where
  "decode_recorded raw =
     (case json_unmarshal (dec_slice dec_recorded_request) raw of
        Inr direct \<Rightarrow> Inr direct
      | Inl _ \<Rightarrow>
          (case json_unmarshal (\<lambda>j. dec_struct wrapped_fields j []) raw of
             Inl e \<Rightarrow> Inl (wrap_invalid ''decode recorded requests'' e)
           | Inr rs \<Rightarrow> Inr rs))"

definition remote_recorded ::
    "remote \<Rightarrow> (http_request \<Rightarrow> exchange) \<Rightarrow> 16 word \<Rightarrow> go_error + recorded_request list" where
  "remote_recorded r http port = decode_as (\<lambda>e. e) decode_recorded (remote_do r http (recorded_call port))"

definition remote_verify ::
    "remote \<Rightarrow> (http_request \<Rightarrow> exchange) \<Rightarrow> 16 word \<Rightarrow> verify_request \<Rightarrow> go_error + verify_result" where
  "remote_verify r http port q =
     decode_as (wrap_invalid ''decode verify result'') (json_unmarshal dec_verify_result)
       (remote_do r http (verify_call port q))"

section \<open>Laws\<close>

lemma read_reply_classified: "classified (read_reply c x)"
  by (cases x) (auto simp: read_reply_def Let_def kinds_wrap)

interpretation remote: lane "remote_do r http" for r http
  by unfold_locales (simp add: remote_do_def read_reply_classified)

lemma remote_create_classified: "classified (remote_create_imposter r http i)"
proof -
  have "classified (decode_as (wrap_invalid ''decode created imposter'') (json_unmarshal dec_created)
          (remote_do r http (create_imposter_call i)))"
    by (rule remote.decode_classified) (simp add: kinds_wrap)
  then show ?thesis
    by (auto simp: remote_create_imposter_def kinds_wrap split: sum.split)
qed

lemma remote_verify_classified: "classified (remote_verify r http port q)"
  unfolding remote_verify_def by (rule remote.decode_classified) (simp add: kinds_wrap)

lemma decode_recorded_classified: "classified (decode_recorded p)"
  by (auto simp: decode_recorded_def kinds_wrap split: sum.split)

lemma remote_recorded_classified: "classified (remote_recorded r http port)"
  using remote.perform_classified [of r http "recorded_call port"] decode_recorded_classified
  by (auto simp: remote_recorded_def decode_as_def classified_def split: sum.splits)

lemma create_returns_port: "remote_create_imposter r http i = Inr p \<Longrightarrow> p \<noteq> 0"
  by (auto simp: remote_create_imposter_def split: sum.splits if_splits)

text \<open>The path of a request as the engine decodes it.\<close>

lemma build_request_url:
  "CHR ''?'' \<notin> set (ac_path c) \<Longrightarrow>
   hq_url (build_request r c) = url_string (rm_base r) (trim_slashes (pu_path (rm_base r)) @ ac_path c) []"
  by (simp add: build_request_def cut_at_absent Let_def)

lemma decimal_no_question: "CHR ''?'' \<notin> set (decimal n)"
  using decimal_digits by (fastforce simp: digit_def dest!: arg_cong [where f = "of_char :: char \<Rightarrow> nat"])

lemma imposter_path_no_question [simp]: "CHR ''?'' \<notin> set (imposter_path port)"
  using decimal_no_question by (simp add: imposter_path_def itoa_def)

lemma decode_recorded_array:
  assumes "list_all valid_recorded_request rs" and "pl_doc p = Some (JArr (map enc_recorded_request rs))"
  shows "decode_recorded p = Inr rs"
  using recorded_request_doc.traverse_enc [OF assms(1)] assms(2)
  by (simp add: decode_recorded_def json_unmarshal_def dec_slice_def)

lemma decode_recorded_envelope:
  assumes "list_all valid_recorded_request rs"
    and "pl_doc p = Some (JObj [(''requests'', JArr (map enc_recorded_request rs))])"
  shows "decode_recorded p = Inr rs"
  using recorded_request_doc.traverse_enc [OF assms(1)] assms(2)
  by (simp add: decode_recorded_def json_unmarshal_def dec_slice_def dec_struct_def wrapped_fields_def
      find_field_def omit_slice_def)

text \<open>For an admin URL with an IPv6 host and no host override, the host of an imposter is written without brackets, so the base URL is not one a client can parse.\<close>

lemma host_for_drops_brackets:
  "map_sum id (\<lambda>r. base_url_for r [] 80)
     (connect (\<lambda>_. Inr \<lparr>pu_scheme = ''http'', pu_userinfo = [], pu_host = ''[::1]:2525'', pu_path = []\<rparr>) url [] [])
   = Inr ''http://::1:80''"
proof -
  have "hostname ''[::1]:2525'' = ''::1''" by code_simp
  moreover have "decimal 80 = ''80''" by (simp add: decimal.simps digit_def char_of_def bit_0)
  ultimately show ?thesis
    by (simp add: connect_def check_api_key_def base_url_for_def host_for_def itoa_def)
qed

end
