(* ===== verification/Paths.thy ===== *)
theory Paths
  imports Strings
begin

text \<open>
  The parts of \<open>path/filepath\<close> the SDK uses, on a system whose separator is the slash:
  \<open>Clean\<close>, \<open>Join\<close>, \<open>Base\<close> and \<open>Dir\<close>.
\<close>

fun split_slash :: "string \<Rightarrow> string list" where
  "split_slash [] = [[]]"
| "split_slash (c # s) =
     (if c = CHR ''/'' then [] # split_slash s
      else (case split_slash s of [] \<Rightarrow> [[c]] | e # es \<Rightarrow> (c # e) # es))"

text \<open>The elements of a cleaned path, innermost first.\<close>

definition push_elem :: "bool \<Rightarrow> string \<Rightarrow> string list \<Rightarrow> string list" where
  "push_elem rooted e stack =
     (if e = [] \<or> e = ''.'' then stack
      else if e = ''..''
      then (case stack of
              [] \<Rightarrow> if rooted then [] else [''..'']
            | d # rest \<Rightarrow> if d = ''..'' then ''..'' # stack else rest)
      else e # stack)"

definition clean_elems :: "bool \<Rightarrow> string list \<Rightarrow> string list" where
  "clean_elems rooted es = rev (fold (push_elem rooted) es [])"

fun join_slash :: "string list \<Rightarrow> string" where
  "join_slash [] = []"
| "join_slash [e] = e"
| "join_slash (e # es) = e @ ''/'' @ join_slash es"

definition rooted :: "string \<Rightarrow> bool" where
  "rooted p = starts_with ''/'' p"

definition path_clean :: "string \<Rightarrow> string" where
  "path_clean p =
     (let s = (if rooted p then ''/'' else []) @ join_slash (clean_elems (rooted p) (split_slash p))
      in if s = [] then ''.'' else s)"

text \<open>\<open>Join\<close>: leading empty elements are dropped, the rest is joined and cleaned.\<close>

definition path_join :: "string list \<Rightarrow> string" where
  "path_join es =
     (case dropWhile (\<lambda>e. e = []) es of [] \<Rightarrow> [] | es' \<Rightarrow> path_clean (join_slash es'))"

definition path_base :: "string \<Rightarrow> string" where
  "path_base p =
     (if p = [] then ''.''
      else let last_elem = rev (takeWhile (\<lambda>c. c \<noteq> CHR ''/'') (rev (trim_slashes p)))
           in if last_elem = [] then ''/'' else last_elem)"

definition path_dir :: "string \<Rightarrow> string" where
  "path_dir p = path_clean (rev (dropWhile (\<lambda>c. c \<noteq> CHR ''/'') (rev p)))"

section \<open>Cleaning twice\<close>

text \<open>
  A stack of a cleaned path: no empty element and no dot, and two dots only at the bottom of a
  relative one.
\<close>

definition plain :: "string \<Rightarrow> bool" where
  "plain e \<longleftrightarrow> e \<noteq> [] \<and> e \<noteq> ''.'' \<and> e \<noteq> ''..'' \<and> CHR ''/'' \<notin> set e"

definition no_slash :: "string \<Rightarrow> bool" where
  "no_slash e \<longleftrightarrow> CHR ''/'' \<notin> set e"

lemma split_slash_not_Nil [simp]: "split_slash s \<noteq> []"
  by (induction s) (auto split: list.split)

lemma split_slash_no_slash: "no_slash e \<Longrightarrow> split_slash e = [e]"
  by (induction e) (auto simp: no_slash_def)

lemma split_slash_append:
  "no_slash e \<Longrightarrow> split_slash (e @ CHR ''/'' # s) = e # split_slash s"
  by (induction e) (auto simp: no_slash_def)

lemma split_slash_elems: "e \<in> set (split_slash s) \<Longrightarrow> no_slash e"
proof (induction s arbitrary: e)
  case (Cons c s)
  then show ?case by (cases "split_slash s") (auto simp: no_slash_def split: if_splits)
qed (simp add: no_slash_def)

lemma split_join_slash:
  "es \<noteq> [] \<Longrightarrow> list_all no_slash es \<Longrightarrow> split_slash (join_slash es) = es"
  by (induction es rule: join_slash.induct) (simp_all add: split_slash_no_slash split_slash_append)

text \<open>The shape of a stack, innermost first: plain elements above two-dots.\<close>

fun stack_ok :: "bool \<Rightarrow> string list \<Rightarrow> bool" where
  "stack_ok r [] = True"
| "stack_ok r (e # st) =
     (if e = ''..'' then \<not> r \<and> list_all (\<lambda>e. e = ''..'') st else plain e \<and> stack_ok r st)"

lemma stack_ok_dots: "\<not> r \<Longrightarrow> list_all (\<lambda>e. e = ''..'') st \<Longrightarrow> stack_ok r st"
  by (induction st) auto

lemma stack_ok_push: "no_slash e \<Longrightarrow> stack_ok r st \<Longrightarrow> stack_ok r (push_elem r e st)"
  by (cases st) (auto simp: push_elem_def plain_def no_slash_def split: if_splits)

lemma stack_ok_fold:
  "list_all no_slash es \<Longrightarrow> stack_ok r st \<Longrightarrow> stack_ok r (fold (push_elem r) es st)"
  by (induction es arbitrary: st) (simp_all add: stack_ok_push)

lemma push_ok: "stack_ok r (e # st) \<Longrightarrow> push_elem r e st = e # st"
  by (cases st) (auto simp: push_elem_def plain_def split: if_splits)

lemma stack_ok_tl: "stack_ok r (e # st) \<Longrightarrow> stack_ok r st"
  by (auto simp: stack_ok_dots split: if_splits)

text \<open>Pushing a cleaned path again gives it back.\<close>

lemma fold_push_stack: "stack_ok r st \<Longrightarrow> fold (push_elem r) (rev st) [] = st"
proof (induction st)
  case (Cons e st)
  from Cons.prems have "stack_ok r st" by (rule stack_ok_tl)
  then show ?case using Cons.IH push_ok [OF Cons.prems] by simp
qed simp

lemma stack_ok_no_slash: "stack_ok r st \<Longrightarrow> list_all no_slash st"
proof (induction st)
  case (Cons e st)
  then show ?case
    using stack_ok_tl [OF Cons.prems] by (auto simp: plain_def no_slash_def split: if_splits)
qed simp

lemma clean_elems_append:
  assumes "list_all no_slash es"
  shows "clean_elems r (clean_elems r es @ fs) = clean_elems r (es @ fs)"
proof -
  have "stack_ok r (fold (push_elem r) es [])" using stack_ok_fold [OF assms] by simp
  from fold_push_stack [OF this] show ?thesis by (simp add: clean_elems_def)
qed

lemma clean_elems_no_slash: "list_all no_slash es \<Longrightarrow> list_all no_slash (clean_elems r es)"
  using stack_ok_no_slash [OF stack_ok_fold, of es r "[]"] by (simp add: clean_elems_def)

lemma clean_elems_skip: "clean_elems r ([] # es) = clean_elems r es" "clean_elems r (''.'' # es) = clean_elems r es"
  by (simp_all add: clean_elems_def push_elem_def)

lemma split_slash_slash: "split_slash (p @ CHR ''/'' # c) = split_slash p @ split_slash c"
proof (induction p)
  case (Cons x p)
  then show ?case by (cases "split_slash p") auto
qed simp

lemma clean_first:
  assumes "\<not> r" and "es = clean_elems r (split_slash p)" and "es = e # es'"
  shows "e \<noteq> []"
proof -
  have "stack_ok r (rev es)"
    using stack_ok_fold [of "split_slash p" r "[]"] split_slash_elems assms(2)
    by (auto simp: clean_elems_def list_all_iff)
  moreover have "stack_ok r st \<Longrightarrow> e \<in> set st \<Longrightarrow> e \<noteq> []" for st
  proof (induction st)
    case (Cons d st)
    then show ?case
      using stack_ok_tl [OF Cons.prems(1)] by (auto simp: plain_def split: if_splits)
  qed simp
  ultimately show ?thesis using assms(3) by (metis list.set_intros(1) set_rev)
qed

lemma rooted_clean: "rooted (path_clean p) = rooted p"
proof (cases "rooted p")
  case True
  then show ?thesis by (simp add: path_clean_def rooted_def Let_def)
next
  case False
  define es where "es = clean_elems False (split_slash p)"
  have ns: "list_all no_slash es"
    unfolding es_def by (rule clean_elems_no_slash) (auto simp: list_all_iff dest: split_slash_elems)
  have "\<not> starts_with ''/'' (join_slash es)"
  proof (cases es)
    case (Cons e es')
    with ns clean_first [of False es p e es'] show ?thesis
      by (cases e; cases es') (auto simp: es_def no_slash_def)
  qed simp
  then show ?thesis using False by (simp add: path_clean_def rooted_def Let_def es_def)
qed

lemma split_clean:
  "clean_elems (rooted p) (split_slash (path_clean p) @ fs) = clean_elems (rooted p) (split_slash p @ fs)"
proof -
  define es where "es = clean_elems (rooted p) (split_slash p)"
  have ns: "list_all no_slash (split_slash p)" by (auto simp: list_all_iff dest: split_slash_elems)
  then have ns': "list_all no_slash es" unfolding es_def by (rule clean_elems_no_slash)
  have "clean_elems (rooted p) (split_slash (path_clean p) @ fs) = clean_elems (rooted p) (es @ fs)"
  proof (cases "es = []")
    case True
    then show ?thesis
      by (auto simp: path_clean_def Let_def es_def clean_elems_skip)
  next
    case False
    then have "split_slash (join_slash es) = es" using ns' by (rule split_join_slash)
    moreover have "join_slash es \<noteq> []" if "\<not> rooted p"
      using clean_first [OF that, of es p] False that
      by (cases es rule: join_slash.cases) (auto simp: es_def)
    ultimately show ?thesis
      by (auto simp: path_clean_def Let_def es_def [symmetric] clean_elems_skip)
  qed
  then show ?thesis using clean_elems_append [OF ns] by (simp add: es_def)
qed

lemma clean_join:
  assumes "p \<noteq> []"
  shows "path_clean (path_clean p @ CHR ''/'' # c) = path_clean (p @ CHR ''/'' # c)"
proof -
  have r: "rooted (q @ CHR ''/'' # c) = rooted q" if "q \<noteq> []" for q
    using that by (cases q) (simp_all add: rooted_def)
  have "path_clean p \<noteq> []" by (simp add: path_clean_def Let_def)
  then have "rooted (path_clean p @ CHR ''/'' # c) = rooted p" using r rooted_clean by simp
  then show ?thesis
    using split_clean [of p "split_slash c"] r [OF assms]
    by (simp only: path_clean_def [of "_ @ CHR ''/'' # c"] split_slash_slash)
qed

lemma path_join_assoc:
  assumes "a \<noteq> []" and "b \<noteq> []"
  shows "path_join [path_join [a, b], c] = path_join [a, b, c]"
proof -
  have ne: "path_clean q \<noteq> []" for q by (simp add: path_clean_def Let_def)
  have ab: "path_join [a, b] = path_clean (a @ CHR ''/'' # b)"
    using assms by (simp add: path_join_def)
  have "path_join [path_join [a, b], c] = path_clean (path_clean (a @ CHR ''/'' # b) @ CHR ''/'' # c)"
    unfolding ab using ne by (simp add: path_join_def)
  also have "\<dots> = path_join [a, b, c]"
    using assms by (simp add: clean_join) (simp add: path_join_def)
  finally show ?thesis .
qed

end
