(* ===== verification/Loader.thy ===== *)
theory Loader
  imports Errors Paths
begin

text \<open>
  Discovery of the native library (\<open>riftembed/loader.go\<close>) on a host: the environment, the user's
  cache directory and the files that exist.
\<close>

record host =
  h_goos :: string
  h_goarch :: string
  h_getenv :: "string \<Rightarrow> string"
  h_userCacheDir :: "string option"
  h_tempDir :: string
  h_is_file :: "string \<Rightarrow> bool"  \<comment> \<open>\<open>os.Stat\<close> succeeds and it is no directory\<close>
  h_is_dir :: "string \<Rightarrow> bool"

definition platform_lib_names :: "host \<Rightarrow> string list" where
  "platform_lib_names h =
     (if h_goos h = ''windows'' then [''rift_ffi.dll'', ''librift_ffi.dll'']
      else if h_goos h = ''darwin'' then [''librift_ffi.dylib'']
      else [''librift_ffi.so''])"

definition cache_dir :: "host \<Rightarrow> string" where
  "cache_dir h =
     (if h_getenv h ''RIFT_FFI_CACHE'' \<noteq> [] then h_getenv h ''RIFT_FFI_CACHE''
      else (case h_userCacheDir h of
              None \<Rightarrow> path_join [h_tempDir h, ''rift-go'']
            | Some base \<Rightarrow> path_join [base, ''rift-go'', ''natives'']))"

definition platform_tag :: "host \<Rightarrow> string" where
  "platform_tag h = h_goos h @ ''-'' @ h_goarch h"

definition cache_path :: "host \<Rightarrow> string" where
  "cache_path h = path_join [cache_dir h, platform_tag h, hd (platform_lib_names h)]"

text \<open>The closure \<open>check\<close>, and the search over directories and names.\<close>

definition check_file :: "host \<Rightarrow> string \<Rightarrow> string option" where
  "check_file h p = (if p = [] then None else if h_is_file h p then Some p else None)"

fun first_found :: "host \<Rightarrow> string list \<Rightarrow> string option" where
  "first_found h [] = None"
| "first_found h (p # ps) = (case check_file h p of Some q \<Rightarrow> Some q | None \<Rightarrow> first_found h ps)"

definition search_dirs :: "host \<Rightarrow> string list" where
  "search_dirs h =
     [path_join [cache_dir h, platform_tag h], ''.'', ''natives'', path_join [''natives'', platform_tag h]]"

definition search_paths :: "host \<Rightarrow> string list" where
  "search_paths h =
     concat (map (\<lambda>dir. map (\<lambda>name. path_join [dir, name]) (platform_lib_names h)) (search_dirs h))"

fun comma_list :: "string \<Rightarrow> string list \<Rightarrow> string" where
  "comma_list sep [] = []"
| "comma_list sep [s] = s"
| "comma_list sep (s # ss) = s @ sep @ comma_list sep ss"

definition newline :: string where
  "newline = [CHR 0x0A]"

text \<open>What was tried is what \<open>check\<close> was given and is not empty.\<close>

definition not_found_text :: "host \<Rightarrow> string" where
  "not_found_text h =
     ''no Rift native library found (looked for '' @ comma_list '', '' (platform_lib_names h) @ '')'' @ newline @
     ''  fix: set RIFT_FFI_LIB=/path/to/'' @ hd (platform_lib_names h) @ '', or run:'' @ newline @
     ''    go run github.com/achird-labs/rift-go/cmd/rift-fetch@latest'' @ newline @
     ''  searched:'' @ newline @ ''    '' @
     comma_list (newline @ ''    '')
       (filter (\<lambda>p. p \<noteq> []) (h_getenv h ''RIFT_FFI_LIB'' # search_paths h))"

definition resolve_library :: "host \<Rightarrow> string \<Rightarrow> go_error + string" where
  "resolve_library h explicit =
     (if explicit \<noteq> []
      then (case check_file h explicit of
              Some p \<Rightarrow> Inr p
            | None \<Rightarrow> Inl (sentinel_msg ErrEngineUnavailable
                (''library path '' @ explicit @ '' does not exist'')))
      else (case first_found h (h_getenv h ''RIFT_FFI_LIB'' # search_paths h) of
              Some p \<Rightarrow> Inr p
            | None \<Rightarrow> Inl (sentinel_msg ErrEngineUnavailable (not_found_text h))))"

definition library_path :: "host \<Rightarrow> go_error + string" where
  "library_path h = resolve_library h []"

definition platform_supported :: "host \<Rightarrow> bool" where
  "platform_supported h \<longleftrightarrow> h_goos h \<in> set [''darwin'', ''linux'', ''freebsd'', ''windows'']"

section \<open>Laws\<close>

lemma first_found_SomeD: "first_found h ps = Some p \<Longrightarrow> p \<in> set ps \<and> p \<noteq> [] \<and> h_is_file h p"
  by (induction ps) (auto simp: check_file_def split: option.splits if_splits)

lemma first_found_None_iff: "first_found h ps = None \<longleftrightarrow> (\<forall>p \<in> set ps. p \<noteq> [] \<longrightarrow> \<not> h_is_file h p)"
  by (induction ps) (auto simp: check_file_def split: option.splits)

lemma first_found_Some_iff:
  "first_found h ps = Some q \<longleftrightarrow>
     (\<exists>before after. ps = before @ q # after \<and> q \<noteq> [] \<and> h_is_file h q \<and>
        (\<forall>x \<in> set before. x = [] \<or> \<not> h_is_file h x))"
proof (induction ps)
  case (Cons p ps)
  show ?case
  proof (cases "p \<noteq> [] \<and> h_is_file h p")
    case True
    then have "first_found h (p # ps) = Some p" by (simp add: check_file_def)
    with True show ?thesis by (auto simp: Cons_eq_append_conv)
  next
    case False
    then have step: "first_found h (p # ps) = first_found h ps" by (auto simp: check_file_def)
    let ?ok = "\<lambda>before. q \<noteq> [] \<and> h_is_file h q \<and> (\<forall>x \<in> set before. x = [] \<or> \<not> h_is_file h x)"
    have "(\<exists>before after. ps = before @ q # after \<and> ?ok before) \<longleftrightarrow>
        (\<exists>before after. p # ps = before @ q # after \<and> ?ok before)" (is "?l \<longleftrightarrow> ?r")
    proof
      assume ?l
      then obtain before after where "ps = before @ q # after" "?ok before" by blast
      then have "p # ps = (p # before) @ q # after" "?ok (p # before)" using False by auto
      then show ?r by blast
    next
      assume ?r
      then obtain before after where r: "p # ps = before @ q # after" "?ok before" by blast
      then obtain before' where "before = p # before'" using False by (cases before) auto
      with r have "ps = before' @ q # after" "?ok before'" by auto
      then show ?l by blast
    qed
    then show ?thesis unfolding step Cons.IH .
  qed
qed simp

lemma resolve_library_default_iff:
  "resolve_library h [] = Inr q \<longleftrightarrow> first_found h (h_getenv h ''RIFT_FFI_LIB'' # search_paths h) = Some q"
  by (simp add: resolve_library_def del: first_found.simps split: option.split)

lemma first_found_append:
  "first_found h (ps @ qs) = (case first_found h ps of Some p \<Rightarrow> Some p | None \<Rightarrow> first_found h qs)"
  by (induction ps) (auto split: option.split)

lemma platform_lib_names_Cons: "\<exists>ns. platform_lib_names h = hd (platform_lib_names h) # ns"
  by (simp add: platform_lib_names_def)

lemma platform_tag_not_Nil [simp]: "platform_tag h \<noteq> []"
  by (simp add: platform_tag_def)

lemma path_clean_not_Nil [simp]: "path_clean p \<noteq> []"
  by (simp add: path_clean_def Let_def)

lemma path_join_not_Nil: "e \<in> set es \<Longrightarrow> e \<noteq> [] \<Longrightarrow> path_join es \<noteq> []"
  by (auto simp: path_join_def dropWhile_eq_Nil_conv split: list.split)

lemma cache_dir_not_Nil [simp]: "cache_dir h \<noteq> []"
  using path_join_not_Nil [of "''rift-go''"] by (simp add: cache_dir_def split: option.split)

text \<open>The fetcher's path is the first one the search looks at.\<close>

lemma search_starts_in_cache: "\<exists>ps. search_paths h = cache_path h # ps"
proof -
  obtain n ns where names: "platform_lib_names h = n # ns"
    using platform_lib_names_Cons by blast
  then have "search_paths h = path_join [path_join [cache_dir h, platform_tag h], n] #
      tl (search_paths h)"
    by (simp add: search_paths_def search_dirs_def)
  moreover have "path_join [path_join [cache_dir h, platform_tag h], n] = cache_path h"
    by (simp add: path_join_assoc cache_path_def names)
  ultimately show ?thesis by metis
qed

lemma cache_path_not_Nil [simp]: "cache_path h \<noteq> []"
  unfolding cache_path_def by (rule path_join_not_Nil [of "platform_tag h"]) simp_all

lemma resolve_error_unavailable: "resolve_library h p = Inl e \<Longrightarrow> kinds e = {ErrEngineUnavailable}"
  by (auto simp: resolve_library_def kinds_wrap split: option.splits if_splits)

end
