(* ===== verification/Fetch.thy ===== *)
theory Fetch
  imports Loader Codec
begin

text \<open>
  The downloader (\<open>riftfetch/fetch.go\<close>) and its command (\<open>cmd/rift-fetch\<close>).  The digest function,
  the parser of JSON text, the HTTP exchange and the outcome of every file-system call are
  parameters; the file system is a map from paths to contents.  \<open>download\<close> returns every state the
  file system goes through, so what a concurrent reader can see is part of the result.
\<close>

section \<open>The manifest\<close>

record artifact =
  af_platform :: string
  af_file :: string
  af_sha256 :: string
  af_url :: string

definition artifact_zero :: artifact where
  "artifact_zero = \<lparr>af_platform = [], af_file = [], af_sha256 = [], af_url = []\<rparr>"

definition artifact_fields :: "artifact field list" where
  "artifact_fields =
     [mk_field ''platform'' req_string af_platform af_platform_update,
      mk_field ''file'' req_string af_file af_file_update,
      mk_field ''sha256'' req_string af_sha256 af_sha256_update,
      mk_field ''url'' req_string af_url af_url_update]"

definition dec_artifact :: "json \<Rightarrow> artifact option" where
  "dec_artifact j = dec_struct artifact_fields j artifact_zero"

record manifest =
  mf_version :: string
  mf_abi :: string
  mf_artifacts :: "artifact list option"

definition manifest_zero :: manifest where
  "manifest_zero = \<lparr>mf_version = [], mf_abi = [], mf_artifacts = None\<rparr>"

definition manifest_fields :: "manifest field list" where
  "manifest_fields =
     [mk_field ''version'' req_string mf_version mf_version_update,
      mk_field ''abi'' req_string mf_abi mf_abi_update,
      mk_field ''artifacts''
        (req_slice (enc_struct artifact_fields) dec_artifact)
        mf_artifacts mf_artifacts_update]"

definition dec_manifest :: "json \<Rightarrow> manifest option" where
  "dec_manifest j = dec_struct manifest_fields j manifest_zero"

definition artifacts :: "manifest \<Rightarrow> artifact list" where
  "artifacts m = (case mf_artifacts m of None \<Rightarrow> [] | Some as \<Rightarrow> as)"

text \<open>One constructor per place an error is made.\<close>

datatype fetch_error =
    VersionRequired
  | NoArtifact string
  | BuildManifestRequest
  | ManifestUnreachable string
  | ManifestStatus string int string
  | ManifestUnread
  | ManifestInvalid string
  | ManifestEmpty string
  | CreateDirFailed string
  | BuildDownloadRequest
  | DownloadUnreachable string
  | DownloadStatus string int
  | CreateTempFailed
  | WriteFailed string
  | CloseFailed string
  | ChecksumMismatch string string string
  | ChmodFailed string
  | InstallFailed string

text \<open>\<open>errors.Is(err, ErrNoArtifact)\<close>.\<close>

fun is_no_artifact :: "fetch_error \<Rightarrow> bool" where
  "is_no_artifact (NoArtifact _) = True"
| "is_no_artifact _ = False"

definition find_artifact :: "manifest \<Rightarrow> string \<Rightarrow> fetch_error + artifact" where
  "find_artifact m platform =
     (case find (\<lambda>a. af_platform a = platform) (artifacts m) of
        Some a \<Rightarrow> Inr a
      | None \<Rightarrow> Inl (NoArtifact
          (quoted platform @ '' (manifest '' @ mf_version m @ '' has: '' @
           comma_list '', '' (map af_platform (artifacts m)) @ '')'')))"

definition release_platform :: "host \<Rightarrow> fetch_error + string" where
  "release_platform h =
     (if h_goos h \<notin> set [''linux'', ''darwin'', ''windows'']
      then Inl (NoArtifact (''GOOS '' @ quoted (h_goos h) @ '' has no published cdylib''))
      else if h_goarch h = ''amd64'' then Inr (h_goos h @ ''-x86_64'')
      else if h_goarch h = ''arm64'' then Inr (h_goos h @ ''-aarch64'')
      else Inl (NoArtifact (''GOARCH '' @ quoted (h_goarch h) @ '' has no published cdylib'')))"

section \<open>URLs\<close>

definition default_release_base :: string where
  "default_release_base = ''https://github.com/achird-labs/rift/releases/download''"

definition release_base :: "host \<Rightarrow> string" where
  "release_base h =
     (if h_getenv h ''RIFT_RELEASE_BASE'' \<noteq> [] then trim_slashes (h_getenv h ''RIFT_RELEASE_BASE'')
      else default_release_base)"

definition manifest_url :: "host \<Rightarrow> string \<Rightarrow> string" where
  "manifest_url h version =
     (if h_getenv h ''RIFT_MANIFEST_URL'' \<noteq> [] then h_getenv h ''RIFT_MANIFEST_URL''
      else release_base h @ ''/'' @ version @ ''/ffi-manifest.json'')"

definition rewrite_base :: "host \<Rightarrow> string \<Rightarrow> string \<Rightarrow> string" where
  "rewrite_base h artifactURL version =
     (let base = h_getenv h ''RIFT_RELEASE_BASE''
      in if base = [] then artifactURL
         else trim_slashes base @ ''/'' @ version @ ''/'' @ path_base artifactURL)"

section \<open>Downloading\<close>

text \<open>A GET: the bytes of the body up to its end or to a read error, and which of the two.\<close>

datatype http_get =
    GetNotBuilt
  | GetFailed
  | GetReplied int string bool

definition manifest_limit :: nat where
  "manifest_limit = 4 * 2 ^ 20"

definition fetch_manifest ::
    "(string \<Rightarrow> json option) \<Rightarrow> (string \<Rightarrow> http_get) \<Rightarrow> host \<Rightarrow> string \<Rightarrow> fetch_error + manifest" where
  "fetch_manifest parse http h version =
     (let url = manifest_url h version
      in case http url of
           GetNotBuilt \<Rightarrow> Inl BuildManifestRequest
         | GetFailed \<Rightarrow> Inl (ManifestUnreachable url)
         | GetReplied code body complete \<Rightarrow>
             if code \<noteq> 200 then Inl (ManifestStatus url code version)
             else if \<not> complete \<and> length body < manifest_limit then Inl ManifestUnread
             else (case Option.bind (parse (take manifest_limit body)) dec_manifest of
                     None \<Rightarrow> Inl (ManifestInvalid url)
                   | Some m \<Rightarrow> if artifacts m = [] then Inl (ManifestEmpty url) else Inr m))"

type_synonym file_system = "string \<rightharpoonup> string"

text \<open>The outcome of the file-system calls; \<open>io_written\<close> is how far a failed copy came.\<close>

record io_plan =
  io_mkdir :: bool
  io_temp :: "string option"
  io_write :: bool
  io_written :: nat
  io_close :: bool
  io_chmod :: bool
  io_rename :: bool

definition equal_fold :: "string \<Rightarrow> string \<Rightarrow> bool" where
  "equal_fold a b \<longleftrightarrow> fold_name a = fold_name b"

text \<open>The states while \<open>n\<close> bytes of the body are written to the temporary file.\<close>

definition copy_states :: "file_system \<Rightarrow> string \<Rightarrow> string \<Rightarrow> nat \<Rightarrow> file_system list" where
  "copy_states fs tmp body n = map (\<lambda>i. fs(tmp \<mapsto> take i body)) [0..<Suc n]"

text \<open>After the temporary file exists: copy, close, compare, chmod, rename, each a return on error.\<close>

definition install_body ::
    "(string \<Rightarrow> string) \<Rightarrow> io_plan \<Rightarrow> file_system \<Rightarrow> string \<Rightarrow> string \<Rightarrow> bool \<Rightarrow> string \<Rightarrow> string \<Rightarrow> string \<Rightarrow>
     file_system list \<times> fetch_error option" where
  "install_body sha io fs tmp body complete url dest wantSHA =
     (let got = sha body;
          copied = copy_states fs tmp body (length body);
          installed = (fs(tmp := None))(dest \<mapsto> body)
      in if \<not> (complete \<and> io_write io)
         then (copy_states fs tmp body (min (io_written io) (length body)), Some (WriteFailed tmp))
         else if \<not> io_close io then (copied, Some (CloseFailed tmp))
         else if \<not> equal_fold got wantSHA then (copied, Some (ChecksumMismatch url wantSHA got))
         else if \<not> io_chmod io then (copied, Some (ChmodFailed tmp))
         else if \<not> io_rename io then (copied, Some (InstallFailed dest))
         else (copied @ [installed], None))"

text \<open>The deferred removal runs on every return after the temporary file was created.\<close>

definition download ::
    "(string \<Rightarrow> string) \<Rightarrow> io_plan \<Rightarrow> (string \<Rightarrow> http_get) \<Rightarrow> file_system \<Rightarrow> string \<Rightarrow> string \<Rightarrow> string \<Rightarrow>
     file_system list \<times> fetch_error option" where
  "download sha io http fs url dest wantSHA =
     (if \<not> io_mkdir io then ([fs], Some (CreateDirFailed (path_dir dest)))
      else (case http url of
              GetNotBuilt \<Rightarrow> ([fs], Some BuildDownloadRequest)
            | GetFailed \<Rightarrow> ([fs], Some (DownloadUnreachable url))
            | GetReplied code body complete \<Rightarrow>
                if code \<noteq> 200 then ([fs], Some (DownloadStatus url code))
                else (case io_temp io of
                        None \<Rightarrow> ([fs], Some CreateTempFailed)
                      | Some tmp \<Rightarrow>
                          (let (states, err) = install_body sha io fs tmp body complete url dest wantSHA
                           in (fs # states @ [(last states)(tmp := None)], err)))))"

section \<open>Fetch\<close>

record fetch_options =
  fo_version :: string
  fo_platform :: string
  fo_dir :: string
  fo_force :: bool

record fetch_result =
  fr_path :: string
  fr_artifact :: artifact
  fr_version :: string
  fr_cached :: bool

definition destination :: "host \<Rightarrow> string \<Rightarrow> string" where
  "destination h dir =
     (if dir = [] then cache_path h
      else if h_is_dir h dir then path_join [dir, path_base (cache_path h)]
      else dir)"

definition already_verified ::
    "(string \<Rightarrow> string) \<Rightarrow> file_system \<Rightarrow> string \<Rightarrow> string \<Rightarrow> bool" where
  "already_verified sha fs dest wantSHA \<longleftrightarrow>
     (case fs dest of None \<Rightarrow> False | Some content \<Rightarrow> equal_fold (sha content) wantSHA)"

definition fetch ::
    "(string \<Rightarrow> string) \<Rightarrow> (string \<Rightarrow> json option) \<Rightarrow> (string \<Rightarrow> http_get) \<Rightarrow> io_plan \<Rightarrow> host \<Rightarrow>
     file_system \<Rightarrow> fetch_options \<Rightarrow> file_system list \<times> (fetch_error + fetch_result)" where
  "fetch sha parse http io h fs opts =
     (if fo_version opts = [] then ([fs], Inl VersionRequired)
      else (case (if fo_platform opts = [] then release_platform h else Inr (fo_platform opts)) of
              Inl e \<Rightarrow> ([fs], Inl e)
            | Inr platform \<Rightarrow>
                let dest = destination h (fo_dir opts)
                in case fetch_manifest parse http h (fo_version opts) of
                     Inl e \<Rightarrow> ([fs], Inl e)
                   | Inr m \<Rightarrow>
                       (case find_artifact m platform of
                          Inl e \<Rightarrow> ([fs], Inl e)
                        | Inr art \<Rightarrow>
                            if \<not> fo_force opts \<and> already_verified sha fs dest (af_sha256 art)
                            then ([fs], Inr \<lparr>fr_path = dest, fr_artifact = art,
                                             fr_version = mf_version m, fr_cached = True\<rparr>)
                            else (case download sha io http fs
                                         (rewrite_base h (af_url art) (mf_version m)) dest (af_sha256 art) of
                                    (states, Some e) \<Rightarrow> (states, Inl e)
                                  | (states, None) \<Rightarrow>
                                      (states, Inr \<lparr>fr_path = dest, fr_artifact = art,
                                                    fr_version = mf_version m, fr_cached = False\<rparr>)))))"

section \<open>The command\<close>

record cli_flags =
  cf_version :: string
  cf_dir :: string
  cf_platform :: string
  cf_force :: bool
  cf_show_path :: bool

record cli_outcome =
  co_stdout :: "string list"
  co_exit :: int
  co_musl_hint :: bool

definition fetch_main ::
    "host \<Rightarrow> (fetch_options \<Rightarrow> file_system list \<times> (fetch_error + fetch_result)) \<Rightarrow> file_system \<Rightarrow> cli_flags \<Rightarrow>
     file_system list \<times> cli_outcome" where
  "fetch_main h run fs flags =
     (if cf_show_path flags
      then ([fs], \<lparr>co_stdout = [cache_path h], co_exit = 0, co_musl_hint = False\<rparr>)
      else if cf_version flags = []
      then ([fs], \<lparr>co_stdout = [], co_exit = 2, co_musl_hint = False\<rparr>)
      else (case run \<lparr>fo_version = cf_version flags, fo_platform = cf_platform flags,
                      fo_dir = cf_dir flags, fo_force = cf_force flags\<rparr> of
              (states, Inl e) \<Rightarrow> (states, \<lparr>co_stdout = [], co_exit = 1, co_musl_hint = is_no_artifact e\<rparr>)
            | (states, Inr r) \<Rightarrow> (states, \<lparr>co_stdout = [fr_path r], co_exit = 0, co_musl_hint = False\<rparr>)))"

section \<open>Laws\<close>

text \<open>What an observer may see at the destination: the old content, or a verified one.\<close>

definition safe_at :: "(string \<Rightarrow> string) \<Rightarrow> string \<Rightarrow> file_system \<Rightarrow> string \<Rightarrow> file_system \<Rightarrow> bool" where
  "safe_at sha wantSHA fs dest fs' \<longleftrightarrow>
     fs' dest = fs dest \<or> (\<exists>content. fs' dest = Some content \<and> equal_fold (sha content) wantSHA)"

lemma install_body_safe:
  assumes "tmp \<noteq> dest" and "install_body sha io fs tmp body complete url dest want = (states, err)"
  shows "states \<noteq> []" and "\<forall>s \<in> set states. safe_at sha want fs dest s"
    and "\<forall>p. p \<noteq> tmp \<longrightarrow> p \<noteq> dest \<longrightarrow> (last states) p = fs p"
    and "err \<noteq> None \<longrightarrow> (last states) dest = fs dest"
    and "err = None \<longrightarrow> (last states) dest = Some body \<and> equal_fold (sha body) want"
  using assms
  by (auto simp: install_body_def copy_states_def safe_at_def Let_def split: if_splits)

lemma download_states:
  assumes "download sha io http fs url dest want = (states, err)"
    and "\<And>tmp. io_temp io = Some tmp \<Longrightarrow> tmp \<noteq> dest \<and> fs tmp = None"
  shows "states \<noteq> []" and "\<forall>s \<in> set states. safe_at sha want fs dest s"
    and "err \<noteq> None \<longrightarrow> last states = fs"
    and "err = None \<longrightarrow> (\<exists>content. last states = fs(dest \<mapsto> content) \<and> equal_fold (sha content) want)"
proof -
  consider (early) "states = [fs]" "err \<noteq> None"
    | (late) tmp body complete inner where "io_temp io = Some tmp"
        "install_body sha io fs tmp body complete url dest want = (inner, err)"
        "states = fs # inner @ [(last inner)(tmp := None)]"
    using assms(1)
    by (auto simp: download_def split: if_splits http_get.splits option.splits prod.splits)
  then have "states \<noteq> [] \<and> (\<forall>s \<in> set states. safe_at sha want fs dest s) \<and>
    (err \<noteq> None \<longrightarrow> last states = fs) \<and>
    (err = None \<longrightarrow> (\<exists>content. last states = fs(dest \<mapsto> content) \<and> equal_fold (sha content) want))"
  proof cases
    case early
    then show ?thesis by (auto simp: safe_at_def)
  next
    case late
    have tmp: "tmp \<noteq> dest" "fs tmp = None" using assms(2) [OF late(1)] by simp_all
    note body = install_body_safe [OF tmp(1) late(2)]
    have same: "((last inner)(tmp := None)) = fs(dest := last inner dest)"
    proof
      fix p show "((last inner)(tmp := None)) p = (fs(dest := last inner dest)) p"
        using body(3) tmp by (cases "p = tmp"; cases "p = dest") auto
    qed
    have "err \<noteq> None \<longrightarrow> (last inner)(tmp := None) = fs"
      using body(4) unfolding same by auto
    moreover have "err = None \<longrightarrow> (last inner)(tmp := None) = fs(dest \<mapsto> body)"
      using body(5) unfolding same by auto
    moreover have "safe_at sha want fs dest ((last inner)(tmp := None))"
      using body(1,2) tmp(1) last_in_set [of inner] by (auto simp: safe_at_def)
    ultimately show ?thesis
      using body(2,5) by (auto simp: late(3) safe_at_def)
  qed
  then show "states \<noteq> []" and "\<forall>s \<in> set states. safe_at sha want fs dest s"
    and "err \<noteq> None \<longrightarrow> last states = fs"
    and "err = None \<longrightarrow> (\<exists>content. last states = fs(dest \<mapsto> content) \<and> equal_fold (sha content) want)"
    by auto
qed

lemma find_artifact_platform: "find_artifact m p = Inr a \<Longrightarrow> af_platform a = p \<and> a \<in> set (artifacts m)"
  by (auto simp: find_artifact_def find_Some_iff split: option.splits)

text \<open>A temporary file is a new one.\<close>

definition fresh_temp :: "io_plan \<Rightarrow> file_system \<Rightarrow> string \<Rightarrow> bool" where
  "fresh_temp io fs dest \<longleftrightarrow> (case io_temp io of None \<Rightarrow> True | Some tmp \<Rightarrow> tmp \<noteq> dest \<and> fs tmp = None)"

text \<open>The digest the manifest gives for the platform asked for.\<close>

definition published ::
    "(string \<Rightarrow> json option) \<Rightarrow> (string \<Rightarrow> http_get) \<Rightarrow> host \<Rightarrow> fetch_options \<Rightarrow> artifact \<Rightarrow> bool" where
  "published parse http h opts art \<longleftrightarrow>
     (\<exists>m platform. fetch_manifest parse http h (fo_version opts) = Inr m \<and> art \<in> set (artifacts m) \<and>
        af_platform art = platform \<and>
        (if fo_platform opts = [] then release_platform h = Inr platform else platform = fo_platform opts))"

lemma fetch_cases:
  assumes "fetch sha parse http io h fs opts = (states, r)"
  obtains (failed) e where "states = [fs]" "r = Inl e"
  | (cached) res where "states = [fs]" "r = Inr res" "published parse http h opts (fr_artifact res)"
      "fr_path res = destination h (fo_dir opts)" "fr_cached res"
      "already_verified sha fs (fr_path res) (af_sha256 (fr_artifact res))"
  | (downloaded) art url err where
      "download sha io http fs url (destination h (fo_dir opts)) (af_sha256 art) = (states, err)"
      "published parse http h opts art"
      "case err of Some e \<Rightarrow> r = Inl e
       | None \<Rightarrow> \<exists>res. r = Inr res \<and> fr_path res = destination h (fo_dir opts) \<and> fr_artifact res = art \<and> \<not> fr_cached res"
proof -
  have pub: "published parse http h opts art"
    if "fetch_manifest parse http h (fo_version opts) = Inr m" "find_artifact m platform = Inr art"
      "(if fo_platform opts = [] then release_platform h else Inr (fo_platform opts)) = Inr platform"
    for m platform art
    using that find_artifact_platform [OF that(2)] by (auto simp: published_def split: if_splits)
  consider e where "states = [fs]" "r = Inl e"
    | platform m art where
      "(if fo_platform opts = [] then release_platform h else Inr (fo_platform opts)) = Inr platform"
      "fetch_manifest parse http h (fo_version opts) = Inr m" "find_artifact m platform = Inr art"
      "(if \<not> fo_force opts \<and> already_verified sha fs (destination h (fo_dir opts)) (af_sha256 art)
        then ([fs], Inr \<lparr>fr_path = destination h (fo_dir opts), fr_artifact = art,
                         fr_version = mf_version m, fr_cached = True\<rparr>)
        else (case download sha io http fs (rewrite_base h (af_url art) (mf_version m))
                (destination h (fo_dir opts)) (af_sha256 art) of
                (states, Some e) \<Rightarrow> (states, Inl e)
              | (states, None) \<Rightarrow> (states, Inr \<lparr>fr_path = destination h (fo_dir opts), fr_artifact = art,
                         fr_version = mf_version m, fr_cached = False\<rparr>))) = (states, r)"
    using assms unfolding fetch_def Let_def
    by (cases "fo_version opts = []";
        cases "if fo_platform opts = [] then release_platform h else Inr (fo_platform opts)";
        cases "fetch_manifest parse http h (fo_version opts)")
       (auto split: sum.splits)
  then show thesis
  proof cases
    case 1
    then show ?thesis by (rule failed)
  next
    case 2
    show ?thesis
    proof (cases "\<not> fo_force opts \<and> already_verified sha fs (destination h (fo_dir opts)) (af_sha256 art)")
      case True
      then show ?thesis using 2(4) pub [OF 2(2,3,1)] by (intro cached) auto
    next
      case False
      obtain st err where d: "download sha io http fs (rewrite_base h (af_url art) (mf_version m))
          (destination h (fo_dir opts)) (af_sha256 art) = (st, err)" by fastforce
      have "(case err of Some e \<Rightarrow> (st, Inl e)
          | None \<Rightarrow> (st, Inr \<lparr>fr_path = destination h (fo_dir opts), fr_artifact = art,
                           fr_version = mf_version m, fr_cached = False\<rparr>)) = (states, r)"
        using 2(4) unfolding if_not_P [OF False] d by simp
      then have st: "st = states" and r: "case err of Some e \<Rightarrow> r = Inl e
          | None \<Rightarrow> \<exists>res. r = Inr res \<and> fr_path res = destination h (fo_dir opts) \<and> fr_artifact res = art \<and> \<not> fr_cached res"
        by (auto split: option.splits)
      show ?thesis
        by (rule downloaded [OF d [unfolded st] pub [OF 2(2,3,1)] r])
    qed
  qed
qed

end
