(* ===== verification/Native.thy ===== *)
theory Native
  imports WireApi
begin

text \<open>
  The boundary to the native library (\<open>riftembed/ffi.go\<close>).  The library is a parameter: what each
  entry point returns, which detail it leaves in the calling thread's error slot and how its own
  state changes.  The process around it is explicit: references to the loaded library, live
  handles, one error slot per thread, and the C strings handed over, each a block of bytes that
  is owned by the caller or static.

  A step is \<open>None\<close> when it has undefined behaviour: a call into an unloaded library or on a handle
  that is not live, a read of a dangling pointer or past the end of a block, a free of a block
  that is not owned.

  Unless its goroutine is locked to a thread, a call runs on whatever thread the scheduler picked
  (\<open>pr_sched\<close>), and before every call other goroutines may change the slots of all threads but a
  locked one (\<open>pr_noise\<close>).
\<close>

section \<open>Entry points\<close>

datatype native_call =
    NCreateImposter json
  | NDeleteImposter "16 word"
  | NDeleteAll
  | NListImposters json
  | NGetImposter "16 word" json
  | NSetImposterEnabled "16 word" "32 word"
  | NApplyConfig json
  | NReplaceStubs "16 word" json
  | NAddStub "16 word" json "32 word"
  | NGetStub "16 word" json
  | NUpdateStub "16 word" json json
  | NDeleteStub "16 word" json
  | NStubWarnings "16 word"
  | NRecorded "16 word"
  | NClearRecorded "16 word"
  | NClearProxyRecordings "16 word"
  | NVerify "16 word" json
  | NScenarios "16 word" string
  | NSetScenarioState "16 word" string string string
  | NResetScenarios "16 word" string
  | NSpaceAddStub "16 word" string json
  | NSpaceListStubs "16 word" string
  | NSpaceDelete "16 word" string
  | NSpaceRecorded "16 word" string
  | NFlowStateGet "16 word" string string
  | NFlowStatePut "16 word" string string string
  | NFlowStateDelete "16 word" string
  | NStartIntercept json
  | NStopIntercept
  | NInterceptAddRules json
  | NInterceptClear
  | NInterceptListRules
  | NInterceptCAPEM
  | NInterceptTruststore string string string
  | NServeAdmin json

text \<open>
  What the library gives back: a result, the detail it leaves in the error slot if any, and its
  next state.  A \<open>char*\<close> result is a string or null.
\<close>

record 's native_library =
  nl_missing :: "string \<Rightarrow> string option"  \<comment> \<open>the panic of a registration that fails\<close>
  nl_abi_version :: "32 word"
  nl_build_info :: "string option"
  nl_start :: "'s \<Rightarrow> nat \<times> 's"
  nl_stop :: "nat \<Rightarrow> 's \<Rightarrow> 's"
  nl_int :: "nat \<Rightarrow> native_call \<Rightarrow> 's \<Rightarrow> 32 word \<times> string option \<times> 's"
  nl_port :: "nat \<Rightarrow> native_call \<Rightarrow> 's \<Rightarrow> 16 word \<times> string option \<times> 's"
  nl_text :: "nat \<Rightarrow> native_call \<Rightarrow> 's \<Rightarrow> string option \<times> string option \<times> 's"
  nl_close :: "string option"  \<comment> \<open>the error of \<open>dlclose\<close>\<close>

definition symbol_names :: "string list" where
  "symbol_names =
     [''rift_start'', ''rift_stop'', ''rift_abi_version'', ''rift_build_info'', ''rift_last_error'',
      ''rift_free'', ''rift_create_imposter'', ''rift_delete_imposter'', ''rift_delete_all'',
      ''rift_list_imposters'', ''rift_get_imposter'', ''rift_set_imposter_enabled'',
      ''rift_apply_config'', ''rift_replace_stubs'', ''rift_add_stub'', ''rift_get_stub'',
      ''rift_update_stub'', ''rift_delete_stub'', ''rift_stub_warnings'', ''rift_recorded'',
      ''rift_clear_recorded'', ''rift_clear_proxy_recordings'', ''rift_verify'', ''rift_scenarios'',
      ''rift_set_scenario_state'', ''rift_reset_scenarios'', ''rift_space_add_stub'',
      ''rift_space_list_stubs'', ''rift_space_delete'', ''rift_space_recorded'',
      ''rift_flow_state_get'', ''rift_flow_state_put'', ''rift_flow_state_delete'',
      ''rift_start_intercept'', ''rift_stop_intercept'', ''rift_intercept_add_rules'',
      ''rift_intercept_clear_rules'', ''rift_intercept_list_rules'', ''rift_intercept_ca_pem'',
      ''rift_intercept_export_truststore'', ''rift_serve_admin'']"

definition abi_version :: nat where
  "abi_version = 2"

text \<open>A registration that panics becomes an error that names the symbol.\<close>

definition register_one :: "'s native_library \<Rightarrow> string \<Rightarrow> go_error option" where
  "register_one lib name =
     map_option (\<lambda>panic. Foreign (''symbol '' @ name @ '': '' @ panic @
        '' (library too old for C-ABI v'' @ decimal abi_version @ ''?)'')) (nl_missing lib name)"

fun first_error :: "('a \<Rightarrow> 'e option) \<Rightarrow> 'a list \<Rightarrow> 'e option" where
  "first_error f [] = None"
| "first_error f (x # xs) = (case f x of Some e \<Rightarrow> Some e | None \<Rightarrow> first_error f xs)"

definition bind_symbols :: "'s native_library \<Rightarrow> go_error option" where
  "bind_symbols lib = first_error (register_one lib) symbol_names"

section \<open>The process\<close>

record 's process =
  pr_native :: 's
  pr_refs :: nat
  pr_live :: "nat set"
  pr_slots :: "nat \<Rightarrow> string option"
  pr_blocks :: "nat \<rightharpoonup> bool \<times> string"  \<comment> \<open>owned by the caller, bytes\<close>
  pr_next :: nat
  pr_sched :: "nat \<Rightarrow> nat"
  pr_noise :: "nat \<Rightarrow> (nat \<Rightarrow> string option) \<Rightarrow> nat \<Rightarrow> string option"
  pr_calls :: nat
  pr_thread :: nat
  pr_locks :: nat

type_synonym ('s, 'a) native = "'s process \<Rightarrow> ('a \<times> 's process) option"

definition give :: "'a \<Rightarrow> ('s, 'a) native" where
  "give x w = Some (x, w)"

definition and_then :: "('s, 'a) native \<Rightarrow> ('a \<Rightarrow> ('s, 'b) native) \<Rightarrow> ('s, 'b) native" where
  "and_then m f w = (case m w of None \<Rightarrow> None | Some (x, w') \<Rightarrow> f x w')"

lemma native_simps [simp]:
  "give x w = Some (x, w)"
  "m w = Some (x, w') \<Longrightarrow> and_then m f w = f x w'"
  "m w = None \<Longrightarrow> and_then m f w = None"
  by (simp_all add: give_def and_then_def)

text \<open>\<open>runtime.LockOSThread\<close> counts, \<open>runtime.UnlockOSThread\<close> undoes one lock.\<close>

definition running_thread :: "'s process \<Rightarrow> nat" where
  "running_thread w = (if pr_locks w > 0 then pr_thread w else pr_sched w (pr_calls w))"

definition lock_thread :: "('s, unit) native" where
  "lock_thread w = Some ((), w\<lparr>pr_thread := running_thread w, pr_locks := Suc (pr_locks w)\<rparr>)"

definition unlock_thread :: "('s, unit) native" where
  "unlock_thread w = Some ((), w\<lparr>pr_locks := pr_locks w - 1\<rparr>)"

text \<open>The process as a call finds it; the call runs on \<open>pr_thread\<close>.\<close>

definition enter :: "'s process \<Rightarrow> 's process" where
  "enter w = w\<lparr>pr_slots := (\<lambda>t. if pr_locks w > 0 \<and> t = pr_thread w then pr_slots w t
                               else pr_noise w (pr_calls w) (pr_slots w) t),
               pr_thread := running_thread w, pr_calls := Suc (pr_calls w)\<rparr>"

definition set_slot :: "string option \<Rightarrow> 's process \<Rightarrow> 's process" where
  "set_slot detail w =
     (case detail of None \<Rightarrow> w
      | Some msg \<Rightarrow> w\<lparr>pr_slots := (pr_slots w)(pr_thread w := Some msg)\<rparr>)"

definition call_native :: "('s \<Rightarrow> 'r \<times> string option \<times> 's) \<Rightarrow> nat \<Rightarrow> ('s, 'r) native" where
  "call_native f h w =
     (if pr_refs w = 0 \<or> h \<notin> pr_live w then None
      else let w1 = enter w; (r, detail, s) = f (pr_native w1)
           in Some (r, set_slot detail (w1\<lparr>pr_native := s\<rparr>)))"

text \<open>A string the library hands over is a new block that ends in NUL; null is the address 0.\<close>

definition nul :: char where
  "nul = CHR 0x00"

definition hand_over :: "string option \<Rightarrow> ('s, nat) native" where
  "hand_over s w =
     (case s of
        None \<Rightarrow> Some (0, w)
      | Some t \<Rightarrow> Some (pr_next w, w\<lparr>pr_blocks := (pr_blocks w)(pr_next w \<mapsto> (True, t @ [nul])),
                                     pr_next := Suc (pr_next w)\<rparr>))"

definition call_int :: "'s native_library \<Rightarrow> native_call \<Rightarrow> nat \<Rightarrow> ('s, 32 word) native" where
  "call_int lib c h = call_native (nl_int lib h c) h"

definition call_port :: "'s native_library \<Rightarrow> native_call \<Rightarrow> nat \<Rightarrow> ('s, 16 word) native" where
  "call_port lib c h = call_native (nl_port lib h c) h"

definition call_text :: "'s native_library \<Rightarrow> native_call \<Rightarrow> nat \<Rightarrow> ('s, nat) native" where
  "call_text lib c h = and_then (call_native (nl_text lib h c) h) hand_over"

text \<open>\<open>rift_last_error\<close>: a copy of the calling thread's slot.\<close>

definition last_error_ptr :: "('s, nat) native" where
  "last_error_ptr w =
     (if pr_refs w = 0 then None
      else let w1 = enter w in hand_over (pr_slots w1 (pr_thread w1)) w1)"

definition free_ptr :: "nat \<Rightarrow> ('s, unit) native" where
  "free_ptr p w =
     (case pr_blocks w p of
        Some (True, _) \<Rightarrow>
          if pr_refs w = 0 then None
          else Some ((), (enter w)\<lparr>pr_blocks := (pr_blocks w)(p := None)\<rparr>)
      | _ \<Rightarrow> None)"

text \<open>The static build-info string lives at its own address while the library is loaded.\<close>

definition static_addr :: nat where
  "static_addr = 1"

definition open_library :: "'s native_library \<Rightarrow> ('s, unit) native" where
  "open_library lib w =
     Some ((), w\<lparr>pr_refs := Suc (pr_refs w),
                 pr_blocks := (pr_blocks w)(static_addr := map_option (\<lambda>t. (False, t @ [nul])) (nl_build_info lib))\<rparr>)"

definition close_library :: "'s native_library \<Rightarrow> ('s, string option) native" where
  "close_library lib w =
     Some (nl_close lib,
       if pr_refs w \<le> 1 then w\<lparr>pr_refs := 0, pr_blocks := (pr_blocks w)(static_addr := None)\<rparr>
       else w\<lparr>pr_refs := pr_refs w - 1\<rparr>)"

definition start_handle :: "'s native_library \<Rightarrow> ('s, nat) native" where
  "start_handle lib w =
     (if pr_refs w = 0 then None
      else let w1 = enter w; (h, s) = nl_start lib (pr_native w1)
           in Some (h, w1\<lparr>pr_native := s, pr_live := (if h = 0 then pr_live w1 else insert h (pr_live w1))\<rparr>))"

definition stop_handle :: "'s native_library \<Rightarrow> nat \<Rightarrow> ('s, unit) native" where
  "stop_handle lib h w =
     (if pr_refs w = 0 \<or> h \<notin> pr_live w then None
      else let w1 = enter w
           in Some ((), w1\<lparr>pr_native := nl_stop lib h (pr_native w1), pr_live := pr_live w1 - {h}\<rparr>))"

definition build_info_ptr :: "'s native_library \<Rightarrow> ('s, nat) native" where
  "build_info_ptr lib w =
     (if pr_refs w = 0 then None
      else Some (if nl_build_info lib = None then 0 else static_addr, enter w))"

definition abi_of :: "'s native_library \<Rightarrow> ('s, 32 word) native" where
  "abi_of lib w = (if pr_refs w = 0 then None else Some (nl_abi_version lib, enter w))"

section \<open>Reading C strings\<close>

text \<open>\<open>goString\<close> walks to the NUL; a block without one would be read past its end.\<close>

fun scan_nul :: "string \<Rightarrow> nat option" where
  "scan_nul [] = None"
| "scan_nul (c # cs) = (if c = nul then Some 0 else map_option Suc (scan_nul cs))"

definition go_string :: "nat \<Rightarrow> ('s, string) native" where
  "go_string p w =
     (if p = 0 then Some ([], w)
      else (case pr_blocks w p of
              None \<Rightarrow> None
            | Some (owned, bytes) \<Rightarrow>
                (case scan_nul bytes of
                   None \<Rightarrow> None
                 | Some n \<Rightarrow> Some (if n = 0 then [] else take n bytes, w))))"

definition take_string :: "nat \<Rightarrow> ('s, string) native" where
  "take_string p =
     (if p = 0 then give []
      else and_then (go_string p) (\<lambda>s. and_then (free_ptr p) (\<lambda>_. give s)))"

text \<open>The text up to the first NUL is what is read of a string the library hands over.\<close>

definition c_text :: "string \<Rightarrow> string" where
  "c_text t = takeWhile (\<lambda>c. c \<noteq> nul) t"

lemma scan_nul_block: "scan_nul (t @ [nul]) = Some (length (c_text t))"
  by (induction t) (auto simp: c_text_def)

lemma take_c_text: "take (length (c_text t)) (t @ [nul]) = c_text t"
  unfolding c_text_def by (induction t) auto

lemma c_text_no_nul: "nul \<notin> set t \<Longrightarrow> c_text t = t"
  unfolding c_text_def by (induction t) auto

section \<open>Resources\<close>

text \<open>
  What an operation must leave as it found it: the references to the library, the live handles,
  the blocks that are not freed yet, and the locks on the thread.
\<close>

definition same_resources :: "'s process \<Rightarrow> 's process \<Rightarrow> bool" where
  "same_resources w w' \<longleftrightarrow>
     pr_refs w' = pr_refs w \<and> pr_live w' = pr_live w \<and> pr_blocks w' = pr_blocks w \<and> pr_locks w' = pr_locks w"

lemma same_resources_refl [simp]: "same_resources w w"
  by (simp add: same_resources_def)

lemma same_resources_trans [trans]:
  "same_resources w w' \<Longrightarrow> same_resources w' w'' \<Longrightarrow> same_resources w w''"
  by (simp add: same_resources_def)

text \<open>New blocks are never placed on old ones, on null or on the static string.\<close>

definition process_ok :: "'s process \<Rightarrow> bool" where
  "process_ok w \<longleftrightarrow> static_addr < pr_next w \<and> (\<forall>a \<ge> pr_next w. pr_blocks w a = None)"

lemma enter_simps [simp]:
  "pr_native (enter w) = pr_native w" "pr_refs (enter w) = pr_refs w" "pr_live (enter w) = pr_live w"
  "pr_blocks (enter w) = pr_blocks w" "pr_next (enter w) = pr_next w" "pr_locks (enter w) = pr_locks w"
  "pr_thread (enter w) = running_thread w"
  by (simp_all add: enter_def)

lemma enter_locked:
  "pr_locks w > 0 \<Longrightarrow> pr_slots (enter w) (pr_thread w) = pr_slots w (pr_thread w) \<and> running_thread w = pr_thread w"
  by (simp add: enter_def running_thread_def)

lemma set_slot_simps [simp]:
  "pr_native (set_slot d w) = pr_native w" "pr_refs (set_slot d w) = pr_refs w"
  "pr_live (set_slot d w) = pr_live w" "pr_blocks (set_slot d w) = pr_blocks w"
  "pr_next (set_slot d w) = pr_next w" "pr_locks (set_slot d w) = pr_locks w"
  "pr_thread (set_slot d w) = pr_thread w"
  by (simp_all add: set_slot_def split: option.split)

lemma process_ok_simps [simp]:
  "process_ok (enter w) \<longleftrightarrow> process_ok w" "process_ok (set_slot d w) \<longleftrightarrow> process_ok w"
  "process_ok (w\<lparr>pr_native := s\<rparr>) \<longleftrightarrow> process_ok w" "process_ok (w\<lparr>pr_locks := n\<rparr>) \<longleftrightarrow> process_ok w"
  "process_ok (w\<lparr>pr_thread := t\<rparr>) \<longleftrightarrow> process_ok w" "process_ok (w\<lparr>pr_slots := f\<rparr>) \<longleftrightarrow> process_ok w" "process_ok (w\<lparr>pr_live := l\<rparr>) \<longleftrightarrow> process_ok w"
  by (simp_all add: process_ok_def)

text \<open>A string handed over and taken leaves the blocks as they were.\<close>

lemma take_handed_over:
  assumes "process_ok w" and "pr_refs w > 0"
  shows "\<exists>p w' w''. hand_over s w = Some (p, w') \<and> (p = 0 \<longleftrightarrow> s = None) \<and> (s = None \<longrightarrow> w' = w) \<and>
    take_string p w' = Some (case s of None \<Rightarrow> [] | Some t \<Rightarrow> c_text t, w'') \<and>
    same_resources w w'' \<and> process_ok w'' \<and> pr_native w'' = pr_native w"
proof (cases s)
  case None
  then show ?thesis
    using assms by (simp add: hand_over_def take_string_def)
next
  case (Some t)
  define w' where "w' = w\<lparr>pr_blocks := (pr_blocks w)(pr_next w \<mapsto> (True, t @ [nul])), pr_next := Suc (pr_next w)\<rparr>"
  define w'' where "w'' = (enter w')\<lparr>pr_blocks := (pr_blocks w')(pr_next w := None)\<rparr>"
  have p: "pr_next w \<noteq> 0" using assms(1) by (simp add: process_ok_def)
  have restored: "(pr_blocks w)(pr_next w := None) = pr_blocks w"
    using assms(1) by (auto simp: process_ok_def fun_eq_iff)
  have "go_string (pr_next w) w' = Some (c_text t, w')"
    using take_c_text [of t] p by (auto simp: go_string_def w'_def scan_nul_block)
  moreover have "free_ptr (pr_next w) w' = Some ((), w'')"
    using assms(2) by (simp add: free_ptr_def w'_def w''_def)
  ultimately have "take_string (pr_next w) w' = Some (c_text t, w'')"
    using p by (simp add: take_string_def)
  moreover have "hand_over s w = Some (pr_next w, w')" using Some by (simp add: hand_over_def w'_def)
  moreover have "same_resources w w''" and "process_ok w''"
    using assms(1) by (auto simp: same_resources_def w''_def w'_def restored process_ok_def)
  ultimately show ?thesis
    using Some p by (auto simp: w'_def w''_def)
qed

end
