(* ===== verification/ServeOptions.thy ===== *)
theory ServeOptions
  imports WireApi
begin

text \<open>
  The build metadata of the native library and the options of the admin plane it serves
  (\<open>riftembed/buildinfo.go\<close>, \<open>ServeOptions\<close> of \<open>riftembed/ops.go\<close>): which options a loaded
  engine accepts, and the refusal to send it any other.
\<close>

section \<open>Build metadata\<close>

record build_info =
  bi_version :: string
  bi_commit :: string
  bi_builtAt :: string
  bi_features :: "string list option"
  bi_serveOptions :: "string list option"

definition build_info_zero :: build_info where
  "build_info_zero =
     \<lparr>bi_version = [], bi_commit = [], bi_builtAt = [], bi_features = None, bi_serveOptions = None\<rparr>"

definition build_info_fields :: "build_info field list" where
  "build_info_fields =
     [mk_field ''version'' req_string bi_version bi_version_update,
      mk_field ''commit'' req_string bi_commit bi_commit_update,
      mk_field ''builtAt'' req_string bi_builtAt bi_builtAt_update,
      mk_field ''features'' (req_slice JStr dec_string_elem) bi_features bi_features_update,
      mk_field ''serveOptions'' (req_slice JStr dec_string_elem) bi_serveOptions bi_serveOptions_update]"

definition enc_build_info :: "build_info \<Rightarrow> json" where
  "enc_build_info = enc_struct build_info_fields"

definition dec_build_info :: "json \<Rightarrow> build_info option" where
  "dec_build_info j = dec_struct build_info_fields j build_info_zero"

definition parse_build_info :: "payload \<Rightarrow> go_error + build_info" where
  "parse_build_info raw =
     (case json_unmarshal dec_build_info raw of
        Inl e \<Rightarrow> Inl (wrap_as ErrEngineUnavailable (''rift_build_info is not valid JSON: '') e)
      | Inr info \<Rightarrow> Inr info)"

definition pre_list_serve_options :: "string list" where
  "pre_list_serve_options =
     [''host'', ''port'', ''apiKey'', ''metricsPort'', ''configFile'', ''config'', ''allowInjection'']"

definition supports_serve_option :: "build_info \<Rightarrow> string \<Rightarrow> bool" where
  "supports_serve_option b name \<longleftrightarrow>
     (case bi_serveOptions b of
        None \<Rightarrow> name \<in> set pre_list_serve_options
      | Some listed \<Rightarrow> name \<in> set listed)"

section \<open>The options\<close>

record serve_options =
  so_port :: "16 word"
  so_host :: string
  so_apiKey :: string
  so_metricsPort :: "16 word"
  so_configFile :: string
  so_noParse :: bool
  so_config :: "imposters_config option"
  so_allowInjection :: bool
  so_requireAdminAuth :: bool
  so_upstreamCAFile :: string
  so_upstreamCAPEM :: string
  so_upstreamTLSSkipVerify :: bool

definition serve_options_zero :: serve_options where
  "serve_options_zero =
     \<lparr>so_port = 0, so_host = [], so_apiKey = [], so_metricsPort = 0, so_configFile = [],
      so_noParse = False, so_config = None, so_allowInjection = False, so_requireAdminAuth = False,
      so_upstreamCAFile = [], so_upstreamCAPEM = [], so_upstreamTLSSkipVerify = False\<rparr>"

definition serve_options_fields :: "serve_options field list" where
  "serve_options_fields =
     [mk_field ''port'' omit_u16 so_port so_port_update,
      mk_field ''host'' omit_string so_host so_host_update,
      mk_field ''apiKey'' omit_string so_apiKey so_apiKey_update,
      mk_field ''metricsPort'' omit_u16 so_metricsPort so_metricsPort_update,
      mk_field ''configFile'' omit_string so_configFile so_configFile_update,
      mk_field ''noParse'' omit_bool so_noParse so_noParse_update,
      mk_field ''config'' (omit_ptr enc_imposters_config dec_imposters_config) so_config so_config_update,
      mk_field ''allowInjection'' omit_bool so_allowInjection so_allowInjection_update,
      mk_field ''requireAdminAuth'' omit_bool so_requireAdminAuth so_requireAdminAuth_update,
      mk_field ''upstreamCaFile'' omit_string so_upstreamCAFile so_upstreamCAFile_update,
      mk_field ''upstreamCaPem'' omit_string so_upstreamCAPEM so_upstreamCAPEM_update,
      mk_field ''upstreamTlsSkipVerify'' omit_bool so_upstreamTLSSkipVerify so_upstreamTLSSkipVerify_update]"

definition enc_serve_options :: "serve_options \<Rightarrow> json" where
  "enc_serve_options = enc_struct serve_options_fields"

text \<open>\<open>ServeAdmin\<close>'s guards on the options themselves, in order.\<close>

definition validate_serve_options :: "serve_options \<Rightarrow> go_error + unit" where
  "validate_serve_options opts =
     (if so_apiKey opts \<noteq> [] \<and> trim_space (so_apiKey opts) = []
      then Inl (sentinel_msg ErrInvalidDefinition
        (''API key is blank; set a real token, or leave it empty to run the admin API unauthenticated''))
      else if so_upstreamCAFile opts \<noteq> [] \<and> so_upstreamCAPEM opts \<noteq> []
      then Inl (sentinel_msg ErrInvalidDefinition
        (''UpstreamCAFile and UpstreamCAPEM are mutually exclusive; supply one''))
      else if so_noParse opts \<and> so_configFile opts = []
      then Inl (sentinel_msg ErrInvalidDefinition
        (''NoParse only changes how ConfigFile is read, and no ConfigFile was given''))
      else Inr ())"

text \<open>
  The document is read back as a map of raw members; its keys, sorted, are the keys of the Go map
  it becomes.
\<close>

definition check_serve_options :: "build_info \<Rightarrow> json \<Rightarrow> go_error + unit" where
  "check_serve_options info body =
     (case (case body of JObj kvs \<Rightarrow> Some (gm_put_all kvs []) | JNull \<Rightarrow> Some [] | _ \<Rightarrow> None) of
        None \<Rightarrow> Inl json_error
      | Some sent \<Rightarrow>
          (case find (\<lambda>k. \<not> supports_serve_option info k) (map fst sent) of
             None \<Rightarrow> Inr ()
           | Some k \<Rightarrow> Inl (sentinel_msg ErrVersionMismatch
               (''engine '' @ bi_version info @ '' does not accept serve option '' @ quoted k @
                ''; it would ignore it rather than refuse it''))))"

section \<open>Laws\<close>

lemma keys_put_all [simp]: "fst ` set (gm_put_all kvs m) = fst ` set kvs \<union> fst ` set m"
  by (induction kvs arbitrary: m) (auto simp: gm_put_all_def split: prod.splits)

lemma check_serve_options_Inr:
  "check_serve_options info (JObj kvs) = Inr () \<longleftrightarrow> (\<forall>k \<in> fst ` set kvs. supports_serve_option info k)"
proof -
  let ?sent = "map fst (gm_put_all kvs [])"
  have "check_serve_options info (JObj kvs) = Inr () \<longleftrightarrow>
      find (\<lambda>k. \<not> supports_serve_option info k) ?sent = None"
    by (simp add: check_serve_options_def split: option.split)
  also have "\<dots> \<longleftrightarrow> (\<forall>k \<in> set ?sent. supports_serve_option info k)"
    by (simp only: find_None_iff) blast
  also have "set ?sent = fst ` set kvs" by simp
  finally show ?thesis .
qed

text \<open>A key is sent exactly when its field is not the zero value.\<close>

definition key_if :: "bool \<Rightarrow> string \<Rightarrow> string set" where
  "key_if c n = (if c then {n} else {})"

definition sent_keys :: "serve_options \<Rightarrow> string set" where
  "sent_keys opts =
     key_if (so_port opts \<noteq> 0) ''port'' \<union> key_if (so_host opts \<noteq> []) ''host'' \<union>
     key_if (so_apiKey opts \<noteq> []) ''apiKey'' \<union> key_if (so_metricsPort opts \<noteq> 0) ''metricsPort'' \<union>
     key_if (so_configFile opts \<noteq> []) ''configFile'' \<union> key_if (so_noParse opts) ''noParse'' \<union>
     key_if (so_config opts \<noteq> None) ''config'' \<union>
     key_if (so_allowInjection opts) ''allowInjection'' \<union>
     key_if (so_requireAdminAuth opts) ''requireAdminAuth'' \<union>
     key_if (so_upstreamCAFile opts \<noteq> []) ''upstreamCaFile'' \<union>
     key_if (so_upstreamCAPEM opts \<noteq> []) ''upstreamCaPem'' \<union>
     key_if (so_upstreamTLSSkipVerify opts) ''upstreamTlsSkipVerify''"

lemma keys_enc_fields_Cons:
  "fst ` set (enc_fields (f # fs) r) = key_if (fenc f r \<noteq> None) (fname f) \<union> fst ` set (enc_fields fs r)"
  by (auto simp: enc_fields_def List.map_filter_def key_if_def)

lemma keys_enc_fields_Nil: "fst ` set (enc_fields [] r) = {}"
  by (simp add: enc_fields_def List.map_filter_def)

lemma omitted_when_zero:
  "vc_enc omit_u16 w \<noteq> None \<longleftrightarrow> w \<noteq> 0"
  "vc_enc omit_string t \<noteq> None \<longleftrightarrow> t \<noteq> []"
  "vc_enc omit_bool b \<noteq> None \<longleftrightarrow> b"
  "vc_enc (omit_ptr e d) p \<noteq> None \<longleftrightarrow> p \<noteq> None"
  by (simp_all add: codec_simps)

lemma sent_keys_eq: "fst ` set (enc_fields serve_options_fields opts) = sent_keys opts"
  unfolding serve_options_fields_def keys_enc_fields_Cons keys_enc_fields_Nil mk_field_simps
    omitted_when_zero sent_keys_def
  by (simp only: Un_assoc Un_empty_right)

lemma check_encoded_options:
  "check_serve_options info (enc_serve_options opts) = Inr () \<longleftrightarrow>
     (\<forall>k \<in> sent_keys opts. supports_serve_option info k)"
  unfolding enc_serve_options_def enc_struct_def check_serve_options_Inr sent_keys_eq ..

lemma check_serve_options_Inl:
  "check_serve_options info (JObj kvs) = Inl e \<Longrightarrow> kinds e = {ErrVersionMismatch}"
  by (auto simp: check_serve_options_def kinds_wrap split: option.splits)

lemma validate_serve_options_Inl: "validate_serve_options opts = Inl e \<Longrightarrow> kinds e = {ErrInvalidDefinition}"
  by (auto simp: validate_serve_options_def kinds_wrap split: if_splits)

lemma parse_build_info_Inl: "parse_build_info p = Inl e \<Longrightarrow> kinds e = {ErrEngineUnavailable}"
  by (auto simp: parse_build_info_def kinds_wrap json_unmarshal_Inl split: sum.splits)

end
