(* ===== verification/Engine.thy ===== *)
theory Engine
  imports Native ServeOptions Loader
begin

text \<open>
  The embedded engine of one goroutine (\<open>riftembed/engine.go\<close>): starting and closing it, and the
  plumbing every operation runs through.  The read-write lock that lets goroutines share an
  engine is in theory \<open>Engine_Lock\<close>.
\<close>

record 's engine =
  en_sym :: "'s native_library"
  en_handle :: nat
  en_closed :: bool

record options =
  op_libraryPath :: string
  op_skipVersionCheck :: bool

section \<open>Start and close\<close>

definition unsupported_platform :: go_error where
  "unsupported_platform = Foreign
     (''riftembed: in-process embedding is not supported on this platform; '' @
      ''use rift.Connect or rift.Spawn instead'')"

text \<open>\<open>dlopen\<close> takes a path to its error or to the library found there.\<close>

definition dlopen_library ::
    "(string \<Rightarrow> string + 's native_library) \<Rightarrow> string \<Rightarrow> go_error + 's native_library" where
  "dlopen_library dlopen path =
     (case dlopen path of
        Inl msg \<Rightarrow> Inl (Wrapped (''dlopen '' @ path @ '': '' @ msg) [Foreign msg])
      | Inr lib \<Rightarrow> Inr lib)"

text \<open>Every return after the library is open and before the engine exists closes it again.\<close>

definition close_and_fail :: "'s native_library \<Rightarrow> go_error \<Rightarrow> ('s, go_error + 'a) native" where
  "close_and_fail lib e = and_then (close_library lib) (\<lambda>_. give (Inl e))"

definition start_runtime :: "'s native_library \<Rightarrow> ('s, go_error + 's engine) native" where
  "start_runtime lib =
     and_then lock_thread (\<lambda>_.
     and_then (start_handle lib) (\<lambda>h.
     and_then unlock_thread (\<lambda>_.
       if h = 0
       then close_and_fail lib (sentinel_msg ErrEngineUnavailable
              ''rift_start returned null (could not create the runtime)'')
       else give (Inr \<lparr>en_sym = lib, en_handle = h, en_closed = False\<rparr>))))"

definition version_mismatch :: "string \<Rightarrow> 32 word \<Rightarrow> go_error" where
  "version_mismatch path got = sentinel_msg ErrVersionMismatch
     (''library '' @ path @ '' reports C-ABI v'' @ decimal (unat got) @ '', this SDK requires v'' @
      decimal abi_version)"

definition start_library :: "options \<Rightarrow> string \<Rightarrow> 's native_library \<Rightarrow> ('s, go_error + 's engine) native" where
  "start_library opts path lib =
     and_then (open_library lib) (\<lambda>_.
       case bind_symbols lib of
         Some e \<Rightarrow> close_and_fail lib (wrap_as ErrEngineUnavailable (path @ '': '') e)
       | None \<Rightarrow>
           if op_skipVersionCheck opts then start_runtime lib
           else and_then (abi_of lib) (\<lambda>got.
                  if unat got \<noteq> abi_version then close_and_fail lib (version_mismatch path got)
                  else start_runtime lib))"

definition start ::
    "host \<Rightarrow> (string \<Rightarrow> string + 's native_library) \<Rightarrow> options \<Rightarrow> ('s, go_error + 's engine) native" where
  "start h dlopen opts =
     (if \<not> platform_supported h then give (Inl (wrap_as ErrEngineUnavailable [] unsupported_platform))
      else (case resolve_library h (op_libraryPath opts) of
              Inl e \<Rightarrow> give (Inl e)
            | Inr path \<Rightarrow>
                (case dlopen_library dlopen path of
                   Inl e \<Rightarrow> give (Inl (wrap_as ErrEngineUnavailable [] e))
                 | Inr lib \<Rightarrow> start_library opts path lib)))"

text \<open>\<open>Close\<close> returns what \<open>dlclose\<close> returned, and nil when the engine was closed before.\<close>

definition close :: "'s engine \<Rightarrow> ('s, string option \<times> 's engine) native" where
  "close e =
     (if en_closed e then give (None, e)
      else and_then lock_thread (\<lambda>_.
           and_then (stop_handle (en_sym e) (en_handle e)) (\<lambda>_.
           and_then unlock_thread (\<lambda>_.
           and_then (close_library (en_sym e)) (\<lambda>err.
             give (err, e\<lparr>en_closed := True, en_handle := 0\<rparr>))))))"

section \<open>Call plumbing\<close>

text \<open>The context is given as its error, if it has one.\<close>

definition with_handle ::
    "string option \<Rightarrow> 's engine \<Rightarrow> (nat \<Rightarrow> ('s, go_error + 'a) native) \<Rightarrow> ('s, go_error + 'a) native" where
  "with_handle ctx e fn =
     (case ctx of
        Some msg \<Rightarrow> give (Inl (wrap_as ErrEngineUnavailable [] (Foreign msg)))
      | None \<Rightarrow>
          if en_closed e then give (Inl (Sentinel ErrClosed))
          else and_then lock_thread (\<lambda>_.
               and_then (fn (en_handle e)) (\<lambda>r.
               and_then unlock_thread (\<lambda>_. give r))))"

definition no_detail :: string where
  "no_detail = ''engine reported no detail''"

definition last_error :: "string \<Rightarrow> ('s, go_error) native" where
  "last_error opn =
     and_then last_error_ptr (\<lambda>p.
     and_then (take_string p) (\<lambda>msg.
       give (new_embedded_error opn (if msg = [] then no_detail else msg))))"

definition check_rc :: "string \<Rightarrow> 32 word \<Rightarrow> ('s, go_error + unit) native" where
  "check_rc opn rc =
     (if rc = 0 then give (Inr ()) else and_then (last_error opn) (\<lambda>e. give (Inl e)))"

definition take_json :: "(string \<Rightarrow> json option) \<Rightarrow> string \<Rightarrow> nat \<Rightarrow> ('s, go_error + payload) native" where
  "take_json parse opn p =
     (if p = 0 then and_then (last_error opn) (\<lambda>e. give (Inl e))
      else and_then (take_string p) (\<lambda>s. give (Inr \<lparr>pl_text = s, pl_doc = parse s\<rparr>)))"

text \<open>The three shapes of an operation: a status code, a port, a string.\<close>

definition op_rc :: "string option \<Rightarrow> 's engine \<Rightarrow> string \<Rightarrow> native_call \<Rightarrow> ('s, go_error + unit) native" where
  "op_rc ctx e opn c =
     with_handle ctx e (\<lambda>h. and_then (call_int (en_sym e) c h) (check_rc opn))"

definition op_port :: "string option \<Rightarrow> 's engine \<Rightarrow> string \<Rightarrow> native_call \<Rightarrow> ('s, go_error + 16 word) native" where
  "op_port ctx e opn c =
     with_handle ctx e (\<lambda>h. and_then (call_port (en_sym e) c h) (\<lambda>port.
       if port = 0 then and_then (last_error opn) (\<lambda>err. give (Inl err)) else give (Inr port)))"

definition op_text ::
    "(string \<Rightarrow> json option) \<Rightarrow> string option \<Rightarrow> 's engine \<Rightarrow> string \<Rightarrow> native_call \<Rightarrow>
     ('s, go_error + payload) native" where
  "op_text parse ctx e opn c =
     with_handle ctx e (\<lambda>h. and_then (call_text (en_sym e) c h) (take_json parse opn))"

section \<open>Metadata\<close>

text \<open>The build-info string is static: it is read and never freed.\<close>

definition engine_build_info :: "(string \<Rightarrow> json option) \<Rightarrow> 's engine \<Rightarrow> ('s, go_error + build_info) native" where
  "engine_build_info parse e =
     (if en_closed e then give (Inl (Sentinel ErrClosed))
      else and_then lock_thread (\<lambda>_.
           and_then (build_info_ptr (en_sym e)) (\<lambda>p.
           and_then (go_string p) (\<lambda>s.
           and_then unlock_thread (\<lambda>_.
             give (if s = [] then Inl (sentinel_msg ErrEngineUnavailable ''rift_build_info returned nothing'')
                   else parse_build_info \<lparr>pl_text = s, pl_doc = parse s\<rparr>))))))"

definition engine_abi_version :: "'s engine \<Rightarrow> ('s, 32 word) native" where
  "engine_abi_version e = (if en_closed e then give 0 else abi_of (en_sym e))"

section \<open>Laws\<close>

text \<open>An engine that is not closed has a live handle of a loaded library.\<close>

definition ready :: "'s engine \<Rightarrow> 's process \<Rightarrow> bool" where
  "ready e w \<longleftrightarrow> process_ok w \<and>
     (\<not> en_closed e \<longrightarrow> pr_refs w > 0 \<and> en_handle e \<in> pr_live w \<and>
        pr_blocks w static_addr = map_option (\<lambda>t. (False, t @ [nul])) (nl_build_info (en_sym e)))"

lemma ready_process_ok: "ready e w \<Longrightarrow> process_ok w"
  by (simp add: ready_def)

lemma ready_same: "ready e w \<Longrightarrow> same_resources w w' \<Longrightarrow> process_ok w' \<Longrightarrow> ready e w'"
  by (simp add: ready_def same_resources_def)

text \<open>The text an error is made of: the detail, unless there is none.\<close>

definition detail_text :: "string option \<Rightarrow> string" where
  "detail_text d = (case d of None \<Rightarrow> no_detail | Some t \<Rightarrow> if c_text t = [] then no_detail else c_text t)"

lemma last_error_locked:
  assumes "process_ok w" and "pr_refs w > 0" and "pr_locks w > 0"
  shows "\<exists>w'. last_error opn w = Some (new_embedded_error opn (detail_text (pr_slots w (pr_thread w))), w') \<and>
    same_resources w w' \<and> process_ok w'"
proof -
  let ?slot = "pr_slots w (pr_thread w)"
  have slot: "pr_slots (enter w) (pr_thread (enter w)) = ?slot"
    using enter_locked [OF assms(3)] by simp
  obtain p w1 w2 where h: "hand_over ?slot (enter w) = Some (p, w1)"
    "take_string p w1 = Some (case ?slot of None \<Rightarrow> [] | Some t \<Rightarrow> c_text t, w2)"
    "same_resources (enter w) w2" "process_ok w2"
    using take_handed_over [of "enter w" ?slot] assms(1,2) by auto
  have "last_error_ptr w = Some (p, w1)"
    using h(1) assms(2) slot by (simp add: last_error_ptr_def Let_def)
  with h(2) have "last_error opn w = Some (new_embedded_error opn (detail_text ?slot), w2)"
    by (auto simp: last_error_def detail_text_def split: option.split)
  then show ?thesis using h(3,4) by (auto simp: same_resources_def)
qed

text \<open>On a locked thread the slot after a call holds its detail, or what it held before.\<close>

definition slot_after :: "string option \<Rightarrow> 's process \<Rightarrow> string option" where
  "slot_after d w = (case d of None \<Rightarrow> pr_slots w (pr_thread w) | Some m \<Rightarrow> Some m)"

definition inside :: "'s engine \<Rightarrow> 's process \<Rightarrow> bool" where
  "inside e w \<longleftrightarrow> process_ok w \<and> pr_refs w > 0 \<and> en_handle e \<in> pr_live w \<and> pr_locks w > 0"

lemma call_native_locked:
  assumes "inside e w" and "f (pr_native w) = (r, d, s)"
  shows "\<exists>w'. call_native f (en_handle e) w = Some (r, w') \<and> same_resources w w' \<and> inside e w' \<and>
    pr_native w' = s \<and> pr_slots w' (pr_thread w') = slot_after d w"
  using assms
  by (auto simp: call_native_def same_resources_def running_thread_def set_slot_def Let_def
      inside_def slot_after_def enter_def process_ok_def split: option.split)

lemma last_error_inside:
  assumes "inside e w"
  shows "\<exists>w'. last_error opn w = Some (new_embedded_error opn (detail_text (pr_slots w (pr_thread w))), w') \<and>
    same_resources w w' \<and> process_ok w' \<and> pr_native w' = pr_native w"
proof -
  let ?slot = "pr_slots w (pr_thread w)"
  have w: "process_ok w" "pr_refs w > 0" "pr_locks w > 0" using assms by (simp_all add: inside_def)
  have slot: "pr_slots (enter w) (pr_thread (enter w)) = ?slot"
    using enter_locked [OF w(3)] by simp
  obtain p w1 w2 where h: "hand_over ?slot (enter w) = Some (p, w1)"
    "take_string p w1 = Some (case ?slot of None \<Rightarrow> [] | Some t \<Rightarrow> c_text t, w2)"
    "same_resources (enter w) w2" "process_ok w2" "pr_native w2 = pr_native w"
    using take_handed_over [of "enter w" ?slot] w(1,2) by auto
  have "last_error_ptr w = Some (p, w1)"
    using h(1) w(2) slot by (simp add: last_error_ptr_def Let_def)
  with h(2) have "last_error opn w = Some (new_embedded_error opn (detail_text ?slot), w2)"
    by (auto simp: last_error_def detail_text_def split: option.split)
  then show ?thesis using h(3-) by (auto simp: same_resources_def)
qed

text \<open>What one downcall amounts to, without threads, pointers and locks.\<close>

definition pure_rc :: "'s engine \<Rightarrow> string \<Rightarrow> native_call \<Rightarrow> 's \<Rightarrow> string option \<Rightarrow> (go_error + unit) \<times> 's" where
  "pure_rc e opn c s slot =
     (case nl_int (en_sym e) (en_handle e) c s of (rc, d, s') \<Rightarrow>
        (if rc = 0 then Inr () else Inl (new_embedded_error opn (detail_text (if d = None then slot else d))), s'))"

definition pure_port :: "'s engine \<Rightarrow> string \<Rightarrow> native_call \<Rightarrow> 's \<Rightarrow> string option \<Rightarrow> (go_error + 16 word) \<times> 's" where
  "pure_port e opn c s slot =
     (case nl_port (en_sym e) (en_handle e) c s of (p, d, s') \<Rightarrow>
        (if p = 0 then Inl (new_embedded_error opn (detail_text (if d = None then slot else d))) else Inr p, s'))"

definition pure_text ::
    "(string \<Rightarrow> json option) \<Rightarrow> 's engine \<Rightarrow> string \<Rightarrow> native_call \<Rightarrow> 's \<Rightarrow> string option \<Rightarrow> (go_error + payload) \<times> 's" where
  "pure_text parse e opn c s slot =
     (case nl_text (en_sym e) (en_handle e) c s of (t, d, s') \<Rightarrow>
        (case t of
           None \<Rightarrow> Inl (new_embedded_error opn (detail_text (if d = None then slot else d)))
         | Some t \<Rightarrow> Inr \<lparr>pl_text = c_text t, pl_doc = parse (c_text t)\<rparr>, s'))"

text \<open>A function inside \<open>withHandle\<close> that does what a pure one says and gives its resources back.\<close>

definition implements ::
    "'s engine \<Rightarrow> (nat \<Rightarrow> ('s, go_error + 'a) native) \<Rightarrow>
     ('s \<Rightarrow> string option \<Rightarrow> (go_error + 'a) \<times> 's) \<Rightarrow> bool" where
  "implements e fn pure \<longleftrightarrow>
     (\<forall>w. inside e w \<longrightarrow>
        (\<exists>w'. fn (en_handle e) w = Some (fst (pure (pr_native w) (pr_slots w (pr_thread w))), w') \<and>
              pr_native w' = snd (pure (pr_native w) (pr_slots w (pr_thread w))) \<and>
              same_resources w w' \<and> process_ok w'))"

lemma slot_after_eq: "slot_after d w = (if d = None then pr_slots w (pr_thread w) else d)"
  by (auto simp: slot_after_def)

lemma rc_implements:
  "implements e (\<lambda>h. and_then (call_int (en_sym e) c h) (check_rc opn)) (pure_rc e opn c)"
  unfolding implements_def
proof (intro allI impI)
  fix w assume w: "inside e w"
  obtain rc d s where f: "nl_int (en_sym e) (en_handle e) c (pr_native w) = (rc, d, s)"
    by (cases "nl_int (en_sym e) (en_handle e) c (pr_native w)") auto
  obtain w1 where c: "call_int (en_sym e) c (en_handle e) w = Some (rc, w1)" "same_resources w w1"
    "inside e w1" "pr_native w1 = s" "pr_slots w1 (pr_thread w1) = slot_after d w"
    using call_native_locked [where f = "nl_int (en_sym e) (en_handle e) c", OF w f] by (auto simp: call_int_def)
  obtain w2 where l: "last_error opn w1 = Some (new_embedded_error opn (detail_text (slot_after d w)), w2)"
    "same_resources w1 w2" "process_ok w2" "pr_native w2 = s"
    using last_error_inside [OF c(3), of opn] c(4,5) by auto
  show "\<exists>w'. and_then (call_int (en_sym e) c (en_handle e)) (check_rc opn) w =
      Some (fst (pure_rc e opn c (pr_native w) (pr_slots w (pr_thread w))), w') \<and>
      pr_native w' = snd (pure_rc e opn c (pr_native w) (pr_slots w (pr_thread w))) \<and>
      same_resources w w' \<and> process_ok w'"
    using c(1-4) l same_resources_trans [OF c(2) l(2)]
    by (cases "rc = 0") (auto simp: check_rc_def pure_rc_def f slot_after_eq inside_def)
qed

lemma port_implements:
  "implements e (\<lambda>h. and_then (call_port (en_sym e) c h) (\<lambda>port.
     if port = 0 then and_then (last_error opn) (\<lambda>err. give (Inl err)) else give (Inr port))) (pure_port e opn c)"
  unfolding implements_def
proof (intro allI impI)
  fix w assume w: "inside e w"
  let ?k = "\<lambda>port. if port = 0 then and_then (last_error opn) (\<lambda>err. give (Inl err)) else give (Inr port)"
  obtain p d s where f: "nl_port (en_sym e) (en_handle e) c (pr_native w) = (p, d, s)"
    by (cases "nl_port (en_sym e) (en_handle e) c (pr_native w)") auto
  obtain w1 where c: "call_port (en_sym e) c (en_handle e) w = Some (p, w1)" "same_resources w w1"
    "inside e w1" "pr_native w1 = s" "pr_slots w1 (pr_thread w1) = slot_after d w"
    using call_native_locked [where f = "nl_port (en_sym e) (en_handle e) c", OF w f] by (auto simp: call_port_def)
  obtain w2 where l: "last_error opn w1 = Some (new_embedded_error opn (detail_text (slot_after d w)), w2)"
    "same_resources w1 w2" "process_ok w2" "pr_native w2 = s"
    using last_error_inside [OF c(3), of opn] c(4,5) by auto
  show "\<exists>w'. and_then (call_port (en_sym e) c (en_handle e)) ?k w =
      Some (fst (pure_port e opn c (pr_native w) (pr_slots w (pr_thread w))), w') \<and>
      pr_native w' = snd (pure_port e opn c (pr_native w) (pr_slots w (pr_thread w))) \<and>
      same_resources w w' \<and> process_ok w'"
    using c(1-4) l same_resources_trans [OF c(2) l(2)]
    by (cases "p = 0") (auto simp: pure_port_def f slot_after_eq inside_def)
qed

lemma text_implements:
  "implements e (\<lambda>h. and_then (call_text (en_sym e) c h) (take_json parse opn)) (pure_text parse e opn c)"
  unfolding implements_def
proof (intro allI impI)
  fix w assume w: "inside e w"
  obtain t d s where f: "nl_text (en_sym e) (en_handle e) c (pr_native w) = (t, d, s)"
    by (cases "nl_text (en_sym e) (en_handle e) c (pr_native w)") auto
  obtain w1 where c: "call_native (nl_text (en_sym e) (en_handle e) c) (en_handle e) w = Some (t, w1)"
    "same_resources w w1" "inside e w1" "pr_native w1 = s" "pr_slots w1 (pr_thread w1) = slot_after d w"
    using call_native_locked [where f = "nl_text (en_sym e) (en_handle e) c", OF w f] by auto
  then have w1: "process_ok w1" "pr_refs w1 > 0" by (simp_all add: inside_def)
  obtain p w2 w3 where h: "hand_over t w1 = Some (p, w2)" "p = 0 \<longleftrightarrow> t = None" "t = None \<longrightarrow> w2 = w1"
    "take_string p w2 = Some (case t of None \<Rightarrow> [] | Some t \<Rightarrow> c_text t, w3)"
    "same_resources w1 w3" "process_ok w3" "pr_native w3 = s"
    using take_handed_over [OF w1] c(4) by metis
  obtain w4 where l: "last_error opn w1 = Some (new_embedded_error opn (detail_text (slot_after d w)), w4)"
    "same_resources w1 w4" "process_ok w4" "pr_native w4 = s"
    using last_error_inside [OF c(3), of opn] c(4,5) by auto
  have called: "call_text (en_sym e) c (en_handle e) w = Some (p, w2)"
    using c(1) h(1) by (simp add: call_text_def)
  show "\<exists>w'. and_then (call_text (en_sym e) c (en_handle e)) (take_json parse opn) w =
      Some (fst (pure_text parse e opn c (pr_native w) (pr_slots w (pr_thread w))), w') \<and>
      pr_native w' = snd (pure_text parse e opn c (pr_native w) (pr_slots w (pr_thread w))) \<and>
      same_resources w w' \<and> process_ok w'"
  proof (cases t)
    case None
    then show ?thesis
      using called h(2,3) l same_resources_trans [OF c(2) l(2)]
      by (auto simp: take_json_def pure_text_def f slot_after_eq)
  next
    case (Some u)
    then show ?thesis
      using called h(2,4-7) same_resources_trans [OF c(2) h(5)]
      by (auto simp: take_json_def pure_text_def f)
  qed
qed

text \<open>The same for a whole operation: it needs no lock of its own, and it also returns early.\<close>

definition locked :: "'s process \<Rightarrow> 's process" where
  "locked w = w\<lparr>pr_thread := running_thread w, pr_locks := Suc (pr_locks w)\<rparr>"

lemma lock_thread_simps [simp]:
  "lock_thread w = Some ((), locked w)"
  "unlock_thread w = Some ((), w\<lparr>pr_locks := pr_locks w - 1\<rparr>)"
  by (simp_all add: lock_thread_def unlock_thread_def locked_def)

lemma locked_simps [simp]:
  "pr_native (locked w) = pr_native w" "pr_slots (locked w) = pr_slots w"
  "pr_thread (locked w) = running_thread w"
  by (simp_all add: locked_def)

lemma ready_inside: "ready e w \<Longrightarrow> \<not> en_closed e \<Longrightarrow> inside e (locked w)"
  by (simp add: ready_def inside_def locked_def process_ok_def)

lemma same_unlocked: "same_resources (locked w) w' \<Longrightarrow> same_resources w (w'\<lparr>pr_locks := pr_locks w' - 1\<rparr>)"
  by (simp add: same_resources_def locked_def)

definition early :: "string option \<Rightarrow> 's engine \<Rightarrow> go_error option" where
  "early ctx e =
     (case ctx of
        Some msg \<Rightarrow> Some (wrap_as ErrEngineUnavailable [] (Foreign msg))
      | None \<Rightarrow> if en_closed e then Some (Sentinel ErrClosed) else None)"

lemma with_handle_early: "early ctx e = Some err \<Longrightarrow> with_handle ctx e fn w = Some (Inl err, w)"
  by (auto simp: early_def with_handle_def split: option.splits if_splits)

lemma with_handle_implements:
  assumes "implements e fn pure" and "ready e w" and "early ctx e = None"
  shows "\<exists>w'. with_handle ctx e fn w = Some (fst (pure (pr_native w) (pr_slots w (running_thread w))), w') \<and>
    pr_native w' = snd (pure (pr_native w) (pr_slots w (running_thread w))) \<and>
    same_resources w w' \<and> ready e w'"
proof -
  have go: "ctx = None" "\<not> en_closed e" using assms(3) by (auto simp: early_def split: option.splits if_splits)
  obtain w' where w': "fn (en_handle e) (locked w) = Some (fst (pure (pr_native w) (pr_slots w (running_thread w))), w')"
    "pr_native w' = snd (pure (pr_native w) (pr_slots w (running_thread w)))"
    "same_resources (locked w) w'" "process_ok w'"
    using assms(1) ready_inside [OF assms(2) go(2)] unfolding implements_def by fastforce
  have "with_handle ctx e fn w = Some (fst (pure (pr_native w) (pr_slots w (running_thread w))),
      w'\<lparr>pr_locks := pr_locks w' - 1\<rparr>)"
    using go w'(1) by (simp add: with_handle_def)
  moreover note same = same_unlocked [OF w'(3)]
  moreover have "ready e (w'\<lparr>pr_locks := pr_locks w' - 1\<rparr>)"
    by (rule ready_same [OF assms(2) same]) (simp add: w'(4))
  ultimately show ?thesis using w'(2) by auto
qed

section \<open>Operations of an engine\<close>

text \<open>
  The contract of every operation of an engine: from a ready process it returns, it leaves the
  resources of the process as they were, and an error it returns belongs to a sentinel.
\<close>

locale engine_call =
  fixes eng :: "'s engine" and run :: "('s, go_error + 'a) native"
  assumes runs: "ready eng w \<Longrightarrow> \<exists>r w'. run w = Some (r, w') \<and> same_resources w w' \<and> ready eng w' \<and> classified r"
begin

lemma defined: "ready eng w \<Longrightarrow> run w \<noteq> None"
  using runs by fastforce

lemma outcome:
  assumes "ready eng w" and "run w = Some (r, w')"
  shows "same_resources w w' \<and> ready eng w' \<and> classified r"
  using runs [OF assms(1)] assms(2) by auto

lemma then_pure:
  assumes "\<And>r. classified r \<Longrightarrow> classified (f r)"
  shows "ready eng w \<Longrightarrow> \<exists>r w'. and_then run (\<lambda>r. give (f r)) w = Some (r, w') \<and> same_resources w w' \<and>
    ready eng w' \<and> classified r"
  using runs assms by (fastforce simp: and_then_def)

end

text \<open>An operation that decodes the reply of another one.\<close>

lemma decode_as_classified:
  "classified r \<Longrightarrow> (\<And>e. kinds (wrap e) \<noteq> {}) \<Longrightarrow> classified (decode_as wrap d r)"
  by (auto simp: decode_as_def split: sum.split)

lemma implements_runs:
  assumes "implements e fn pure" and "\<And>s slot. classified (fst (pure s slot))" and "ready e w"
  shows "\<exists>r w'. with_handle ctx e fn w = Some (r, w') \<and> same_resources w w' \<and> ready e w' \<and> classified r"
proof (cases "early ctx e")
  case None
  then show ?thesis using with_handle_implements [OF assms(1,3) None] assms(2) by blast
next
  case (Some err)
  then have "kinds err \<noteq> {}" by (auto simp: early_def kinds_wrap split: option.splits if_splits)
  moreover have "with_handle ctx e fn w = Some (Inl err, w)" by (rule with_handle_early [OF Some])
  ultimately show ?thesis using assms(3) by auto
qed

lemma pure_classified:
  "classified (fst (pure_rc e opn c s slot))" "classified (fst (pure_port e opn c s slot))"
  "classified (fst (pure_text parse e opn c s slot))"
  by (auto simp: pure_rc_def pure_port_def pure_text_def split: prod.split option.split)

interpretation codes: engine_call e "op_rc ctx e opn c" for ctx e opn c
  unfolding op_rc_def by unfold_locales (rule implements_runs [OF rc_implements pure_classified(1)])

interpretation ports: engine_call e "op_port ctx e opn c" for ctx e opn c
  unfolding op_port_def by unfold_locales (rule implements_runs [OF port_implements pure_classified(2)])

interpretation texts: engine_call e "op_text parse ctx e opn c" for parse ctx e opn c
  unfolding op_text_def by unfold_locales (rule implements_runs [OF text_implements pure_classified(3)])

text \<open>On an open engine an operation does what its pure counterpart says.\<close>

lemma op_outcome:
  assumes "ready e w" and "\<not> en_closed e"
  shows "\<exists>w'. op_rc None e opn c w = Some (fst (pure_rc e opn c (pr_native w) (pr_slots w (running_thread w))), w') \<and>
      pr_native w' = snd (pure_rc e opn c (pr_native w) (pr_slots w (running_thread w))) \<and>
      same_resources w w' \<and> ready e w'"
    and "\<exists>w'. op_port None e opn c w = Some (fst (pure_port e opn c (pr_native w) (pr_slots w (running_thread w))), w') \<and>
      pr_native w' = snd (pure_port e opn c (pr_native w) (pr_slots w (running_thread w))) \<and>
      same_resources w w' \<and> ready e w'"
    and "\<exists>w'. op_text parse None e opn c w = Some (fst (pure_text parse e opn c (pr_native w) (pr_slots w (running_thread w))), w') \<and>
      pr_native w' = snd (pure_text parse e opn c (pr_native w) (pr_slots w (running_thread w))) \<and>
      same_resources w w' \<and> ready e w'"
proof -
  have "early None e = None" using assms(2) by (simp add: early_def)
  note go = with_handle_implements [OF _ assms(1) this]
  show "\<exists>w'. op_rc None e opn c w = Some (fst (pure_rc e opn c (pr_native w) (pr_slots w (running_thread w))), w') \<and>
      pr_native w' = snd (pure_rc e opn c (pr_native w) (pr_slots w (running_thread w))) \<and>
      same_resources w w' \<and> ready e w'"
    unfolding op_rc_def by (rule go [OF rc_implements])
  show "\<exists>w'. op_port None e opn c w = Some (fst (pure_port e opn c (pr_native w) (pr_slots w (running_thread w))), w') \<and>
      pr_native w' = snd (pure_port e opn c (pr_native w) (pr_slots w (running_thread w))) \<and>
      same_resources w w' \<and> ready e w'"
    unfolding op_port_def by (rule go [OF port_implements])
  show "\<exists>w'. op_text parse None e opn c w = Some (fst (pure_text parse e opn c (pr_native w) (pr_slots w (running_thread w))), w') \<and>
      pr_native w' = snd (pure_text parse e opn c (pr_native w) (pr_slots w (running_thread w))) \<and>
      same_resources w w' \<and> ready e w'"
    unfolding op_text_def by (rule go [OF text_implements])
qed

section \<open>Lifetime\<close>

text \<open>The static string is in place exactly while the library is open.\<close>

definition static_block :: "'s native_library \<Rightarrow> (bool \<times> string) option" where
  "static_block lib = map_option (\<lambda>t. (False, t @ [nul])) (nl_build_info lib)"

definition library_state :: "'s native_library \<Rightarrow> 's process \<Rightarrow> bool" where
  "library_state lib w \<longleftrightarrow> process_ok w \<and>
     pr_blocks w static_addr = (if pr_refs w = 0 then None else static_block lib)"

definition opened :: "'s native_library \<Rightarrow> 's process \<Rightarrow> 's process" where
  "opened lib w = w\<lparr>pr_refs := Suc (pr_refs w), pr_blocks := (pr_blocks w)(static_addr := static_block lib)\<rparr>"

lemma open_library_eq: "open_library lib w = Some ((), opened lib w)"
  by (simp add: open_library_def opened_def static_block_def)

text \<open>Resources of a process in which the library was opened once more.\<close>

definition one_more :: "'s native_library \<Rightarrow> 's process \<Rightarrow> 's process \<Rightarrow> bool" where
  "one_more lib w w' \<longleftrightarrow> process_ok w' \<and> pr_refs w' = Suc (pr_refs w) \<and>
     pr_blocks w' = (pr_blocks w)(static_addr := static_block lib) \<and> pr_locks w' = pr_locks w"

lemma one_more_opened: "library_state lib w \<Longrightarrow> one_more lib w (opened lib w) \<and> pr_live (opened lib w) = pr_live w"
  by (simp add: one_more_def opened_def library_state_def process_ok_def)

lemma close_one_more:
  assumes "library_state lib w" and "one_more lib w w'" and "pr_live w' = pr_live w"
  shows "\<exists>w''. close_library lib w' = Some (nl_close lib, w'') \<and> same_resources w w'' \<and> process_ok w''"
proof -
  have "(pr_blocks w)(static_addr := pr_blocks w static_addr) = pr_blocks w" by simp
  then show ?thesis
    using assms
    by (auto simp: close_library_def one_more_def library_state_def same_resources_def process_ok_def
        split: if_splits)
qed

text \<open>What a start comes to: everything as before and a classified error, or a ready engine.\<close>

definition started :: "'s process \<Rightarrow> (go_error + 's engine) \<times> 's process \<Rightarrow> bool" where
  "started w res \<longleftrightarrow>
     (case res of
        (Inl err, w') \<Rightarrow> same_resources w w' \<and> process_ok w' \<and> kinds err \<noteq> {}
      | (Inr e, w') \<Rightarrow> ready e w' \<and> \<not> en_closed e \<and> en_handle e \<noteq> 0 \<and> one_more (en_sym e) w w' \<and>
          pr_live w' = insert (en_handle e) (pr_live w))"

lemma started_Inl:
  assumes "library_state lib w" and "one_more lib w w'" and "pr_live w' = pr_live w" and "kinds err \<noteq> {}"
  shows "\<exists>res. close_and_fail lib err w' = Some res \<and> started w res"
  using close_one_more [OF assms(1-3)] assms(4) by (auto simp: close_and_fail_def started_def)

lemma start_runtime_outcome:
  assumes "library_state lib w" and "one_more lib w w1" and "pr_live w1 = pr_live w"
  shows "\<exists>res. start_runtime lib w1 = Some res \<and> started w res"
proof -
  obtain h s where hs: "nl_start lib (pr_native w1) = (h, s)" by fastforce
  let ?live = "if h = 0 then pr_live w else insert h (pr_live w)"
  obtain w2 where w2: "and_then lock_thread (\<lambda>_. and_then (start_handle lib) (\<lambda>h. and_then unlock_thread (\<lambda>_. give h))) w1 = Some (h, w2)"
    "one_more lib w w2" "pr_live w2 = ?live"
    using assms(2,3) hs
    by (auto simp: start_handle_def Let_def one_more_def locked_def enter_def process_ok_def)
  have run: "start_runtime lib w1 =
      (if h = 0 then close_and_fail lib (sentinel_msg ErrEngineUnavailable
              ''rift_start returned null (could not create the runtime)'') w2
       else Some (Inr \<lparr>en_sym = lib, en_handle = h, en_closed = False\<rparr>, w2))"
    using w2(1) by (auto simp: start_runtime_def and_then_def give_def split: option.splits)
  show ?thesis
  proof (cases "h = 0")
    case True
    then show ?thesis
      unfolding run using started_Inl [OF assms(1) w2(2)] w2(3) by (simp add: kinds_wrap)
  next
    case False
    then show ?thesis
      unfolding run using w2(2,3)
      by (auto simp: started_def ready_def one_more_def static_block_def)
  qed
qed

lemma start_library_outcome:
  assumes "library_state lib w"
  shows "\<exists>res. start_library opts path lib w = Some res \<and> started w res"
proof -
  let ?w1 = "opened lib w"
  have one: "one_more lib w ?w1" "pr_live ?w1 = pr_live w" using one_more_opened [OF assms] by simp_all
  have entered: "abi_of lib ?w1 = Some (nl_abi_version lib, enter ?w1)"
    by (simp add: abi_of_def opened_def)
  have one': "one_more lib w (enter ?w1)" "pr_live (enter ?w1) = pr_live w"
    using one by (simp_all add: one_more_def)
  show ?thesis
    using start_runtime_outcome [OF assms one] start_runtime_outcome [OF assms one'] entered
      started_Inl [OF assms one] started_Inl [OF assms one']
    by (auto simp: start_library_def open_library_eq kinds_wrap version_mismatch_def split: option.split)
qed

lemma start_outcome:
  assumes "\<And>path lib. dlopen path = Inr lib \<Longrightarrow> library_state lib w" and "process_ok w"
  shows "\<exists>res. start h dlopen opts w = Some res \<and> started w res"
proof -
  consider (error) err where "start h dlopen opts w = Some (Inl err, w)" "kinds err \<noteq> {}"
    | (opened) path lib where "dlopen path = Inr lib" "start h dlopen opts w = start_library opts path lib w"
  proof (cases "platform_supported h")
    case False
    then show ?thesis 
      by (intro error [of "wrap_as ErrEngineUnavailable [] unsupported_platform"]) (simp_all add: start_def kinds_wrap)
  next
    case supported: True
    show ?thesis
    proof (cases "resolve_library h (op_libraryPath opts)")
      case (Inl err)
      then show ?thesis
        using supported resolve_error_unavailable [OF Inl] by (intro error [of err]) (simp_all add: start_def)
    next
      case (Inr path)
      note found = Inr
      show ?thesis
      proof (cases "dlopen path")
        case (Inl msg)
        then show ?thesis
          using supported found error by (auto simp: start_def dlopen_library_def kinds_wrap)
      next
        case (Inr lib)
        then show ?thesis
          using supported found by (intro opened) (simp_all add: start_def dlopen_library_def)
      qed
    qed
  qed
  then show ?thesis
  proof cases
    case error
    then show ?thesis using assms(2) by (auto simp: started_def)
  next
    case opened
    then show ?thesis using start_library_outcome [OF assms(1)] by simp
  qed
qed

text \<open>Closing gives up the handle and one reference.\<close>

lemma close_outcome:
  assumes "ready e w" and "\<not> en_closed e"
  shows "\<exists>w'. close e w = Some ((nl_close (en_sym e), e\<lparr>en_closed := True, en_handle := 0\<rparr>), w') \<and>
    process_ok w' \<and> pr_refs w' = pr_refs w - 1 \<and> pr_live w' = pr_live w - {en_handle e} \<and> pr_locks w' = pr_locks w \<and>
    pr_blocks w' = (if pr_refs w = 1 then (pr_blocks w)(static_addr := None) else pr_blocks w)"
  using assms
  by (auto simp: close_def ready_def stop_handle_def Let_def close_library_def locked_def enter_def process_ok_def)

end
