(* ===== verification/Engine_Ops.thy ===== *)
theory Engine_Ops
  imports Engine
begin

text \<open>
  The operations of the embedded engine (\<open>riftembed/ops.go\<close>): one per entry point of the library,
  each the arguments it marshals, the name it reports and the shape of its result.  The JSON
  parser and the state of the context are parameters.
\<close>

section \<open>Imposters\<close>

definition engine_create_imposter :: "string option \<Rightarrow> 's engine \<Rightarrow> imposter \<Rightarrow> ('s, go_error + 16 word) native" where
  "engine_create_imposter ctx e i = op_port ctx e ''create imposter'' (NCreateImposter (enc_imposter i))"

definition engine_delete_imposter :: "string option \<Rightarrow> 's engine \<Rightarrow> 16 word \<Rightarrow> ('s, go_error + unit) native" where
  "engine_delete_imposter ctx e port = op_rc ctx e ''delete imposter'' (NDeleteImposter port)"

definition engine_delete_all :: "string option \<Rightarrow> 's engine \<Rightarrow> ('s, go_error + unit) native" where
  "engine_delete_all ctx e = op_rc ctx e ''delete all imposters'' NDeleteAll"

record list_options =
  lo_replayable :: bool
  lo_removeProxies :: bool

definition list_options_fields :: "list_options field list" where
  "list_options_fields =
     [mk_field ''replayable'' omit_bool lo_replayable lo_replayable_update,
      mk_field ''removeProxies'' omit_bool lo_removeProxies lo_removeProxies_update]"

definition enc_list_options :: "list_options \<Rightarrow> json" where
  "enc_list_options = enc_struct list_options_fields"

definition engine_list_imposters ::
    "(string \<Rightarrow> json option) \<Rightarrow> string option \<Rightarrow> 's engine \<Rightarrow> list_options \<Rightarrow> ('s, go_error + payload) native" where
  "engine_list_imposters parse ctx e opts =
     op_text parse ctx e ''list imposters'' (NListImposters (enc_list_options opts))"

definition engine_get_imposter ::
    "(string \<Rightarrow> json option) \<Rightarrow> string option \<Rightarrow> 's engine \<Rightarrow> 16 word \<Rightarrow> list_options \<Rightarrow>
     ('s, go_error + payload) native" where
  "engine_get_imposter parse ctx e port opts =
     op_text parse ctx e ''get imposter'' (NGetImposter port (enc_list_options opts))"

definition engine_set_imposter_enabled ::
    "string option \<Rightarrow> 's engine \<Rightarrow> 16 word \<Rightarrow> bool \<Rightarrow> ('s, go_error + unit) native" where
  "engine_set_imposter_enabled ctx e port enabled =
     op_rc ctx e ''set imposter enabled'' (NSetImposterEnabled port (if enabled then 1 else 0))"

definition engine_apply_config ::
    "(string \<Rightarrow> json option) \<Rightarrow> string option \<Rightarrow> 's engine \<Rightarrow> imposters_config \<Rightarrow> ('s, go_error + payload) native" where
  "engine_apply_config parse ctx e cfg =
     op_text parse ctx e ''apply config'' (NApplyConfig (enc_imposters_config cfg))"

section \<open>Stubs\<close>

definition enc_stubs :: "stub list option \<Rightarrow> json" where
  "enc_stubs stubs = (case stubs of None \<Rightarrow> JNull | Some ss \<Rightarrow> JArr (map enc_stub ss))"

definition engine_replace_stubs ::
    "string option \<Rightarrow> 's engine \<Rightarrow> 16 word \<Rightarrow> stub list option \<Rightarrow> ('s, go_error + unit) native" where
  "engine_replace_stubs ctx e port stubs = op_rc ctx e ''replace stubs'' (NReplaceStubs port (enc_stubs stubs))"

text \<open>The index is a Go \<open>int\<close>; what reaches the library is an \<open>int32\<close>.\<close>

definition engine_add_stub ::
    "string option \<Rightarrow> 's engine \<Rightarrow> 16 word \<Rightarrow> stub \<Rightarrow> int \<Rightarrow> ('s, go_error + unit) native" where
  "engine_add_stub ctx e port st index =
     (if index > 2 ^ 31 - 1 \<or> index < - (2 ^ 31)
      then give (Inl (sentinel_msg ErrInvalidDefinition
             (''stub index '' @ decimal_int index @ '' is outside the C ABI's int32 range'')))
      else op_rc ctx e ''add stub'' (NAddStub port (enc_stub st) (word_of_int index)))"

record stub_ref =
  sr_index :: "int option"
  sr_id :: string

definition stub_at :: "int \<Rightarrow> stub_ref" where
  "stub_at i = \<lparr>sr_index = Some i, sr_id = []\<rparr>"

definition stub_by_id :: "string \<Rightarrow> stub_ref" where
  "stub_by_id i = \<lparr>sr_index = None, sr_id = i\<rparr>"

definition stub_ref_fields :: "stub_ref field list" where
  "stub_ref_fields =
     [mk_field ''index''
        \<lparr>vc_enc = map_option JNum,
         vc_dec = (\<lambda>old j. case j of JNull \<Rightarrow> Some None
                    | JNum i \<Rightarrow> if go_int i then Some (Some i) else None | _ \<Rightarrow> None),
         vc_zero = None\<rparr> sr_index sr_index_update,
      mk_field ''id'' omit_string sr_id sr_id_update]"

definition enc_stub_ref :: "stub_ref \<Rightarrow> json" where
  "enc_stub_ref = enc_struct stub_ref_fields"

definition engine_get_stub ::
    "(string \<Rightarrow> json option) \<Rightarrow> string option \<Rightarrow> 's engine \<Rightarrow> 16 word \<Rightarrow> stub_ref \<Rightarrow>
     ('s, go_error + payload) native" where
  "engine_get_stub parse ctx e port ref = op_text parse ctx e ''get stub'' (NGetStub port (enc_stub_ref ref))"

definition engine_update_stub ::
    "string option \<Rightarrow> 's engine \<Rightarrow> 16 word \<Rightarrow> stub_ref \<Rightarrow> stub \<Rightarrow> ('s, go_error + unit) native" where
  "engine_update_stub ctx e port ref st =
     op_rc ctx e ''update stub'' (NUpdateStub port (enc_stub_ref ref) (enc_stub st))"

definition engine_delete_stub :: "string option \<Rightarrow> 's engine \<Rightarrow> 16 word \<Rightarrow> stub_ref \<Rightarrow> ('s, go_error + unit) native" where
  "engine_delete_stub ctx e port ref = op_rc ctx e ''delete stub'' (NDeleteStub port (enc_stub_ref ref))"

definition engine_stub_warnings ::
    "(string \<Rightarrow> json option) \<Rightarrow> string option \<Rightarrow> 's engine \<Rightarrow> 16 word \<Rightarrow> ('s, go_error + payload) native" where
  "engine_stub_warnings parse ctx e port = op_text parse ctx e ''stub warnings'' (NStubWarnings port)"

section \<open>Recording and verification\<close>

definition decode_reply ::
    "string \<Rightarrow> (json \<Rightarrow> 'a option) \<Rightarrow> ('s, go_error + payload) native \<Rightarrow> ('s, go_error + 'a) native" where
  "decode_reply what d run = and_then run (\<lambda>r. give (decode_as (wrap_invalid what) (json_unmarshal d) r))"

definition engine_recorded ::
    "(string \<Rightarrow> json option) \<Rightarrow> string option \<Rightarrow> 's engine \<Rightarrow> 16 word \<Rightarrow>
     ('s, go_error + recorded_request list) native" where
  "engine_recorded parse ctx e port =
     decode_reply ''decode recorded requests'' (dec_slice dec_recorded_request)
       (op_text parse ctx e ''recorded requests'' (NRecorded port))"

definition engine_clear_recorded :: "string option \<Rightarrow> 's engine \<Rightarrow> 16 word \<Rightarrow> ('s, go_error + unit) native" where
  "engine_clear_recorded ctx e port = op_rc ctx e ''clear recorded'' (NClearRecorded port)"

definition engine_clear_proxy_recordings ::
    "string option \<Rightarrow> 's engine \<Rightarrow> 16 word \<Rightarrow> ('s, go_error + unit) native" where
  "engine_clear_proxy_recordings ctx e port = op_rc ctx e ''clear proxy recordings'' (NClearProxyRecordings port)"

definition engine_verify ::
    "(string \<Rightarrow> json option) \<Rightarrow> string option \<Rightarrow> 's engine \<Rightarrow> 16 word \<Rightarrow> verify_request \<Rightarrow>
     ('s, go_error + verify_result) native" where
  "engine_verify parse ctx e port q =
     decode_reply ''decode verify result'' dec_verify_result
       (op_text parse ctx e ''verify'' (NVerify port (enc_verify_request q)))"

section \<open>Scenarios\<close>

definition engine_scenarios ::
    "(string \<Rightarrow> json option) \<Rightarrow> string option \<Rightarrow> 's engine \<Rightarrow> 16 word \<Rightarrow> string \<Rightarrow> ('s, go_error + payload) native" where
  "engine_scenarios parse ctx e port flowID = op_text parse ctx e ''scenarios'' (NScenarios port flowID)"

definition engine_set_scenario_state ::
    "string option \<Rightarrow> 's engine \<Rightarrow> 16 word \<Rightarrow> string \<Rightarrow> string \<Rightarrow> string \<Rightarrow> ('s, go_error + unit) native" where
  "engine_set_scenario_state ctx e port scenario state flowID =
     op_rc ctx e ''set scenario state'' (NSetScenarioState port scenario state flowID)"

definition engine_reset_scenarios ::
    "string option \<Rightarrow> 's engine \<Rightarrow> 16 word \<Rightarrow> string \<Rightarrow> ('s, go_error + unit) native" where
  "engine_reset_scenarios ctx e port flowID = op_rc ctx e ''reset scenarios'' (NResetScenarios port flowID)"

section \<open>Spaces and flow state\<close>

definition engine_space_add_stub ::
    "string option \<Rightarrow> 's engine \<Rightarrow> 16 word \<Rightarrow> string \<Rightarrow> stub \<Rightarrow> ('s, go_error + unit) native" where
  "engine_space_add_stub ctx e port flowID st =
     op_rc ctx e ''space add stub'' (NSpaceAddStub port flowID (enc_stub st))"

definition engine_space_list_stubs ::
    "(string \<Rightarrow> json option) \<Rightarrow> string option \<Rightarrow> 's engine \<Rightarrow> 16 word \<Rightarrow> string \<Rightarrow> ('s, go_error + payload) native" where
  "engine_space_list_stubs parse ctx e port flowID =
     op_text parse ctx e ''space list stubs'' (NSpaceListStubs port flowID)"

definition engine_space_delete :: "string option \<Rightarrow> 's engine \<Rightarrow> 16 word \<Rightarrow> string \<Rightarrow> ('s, go_error + unit) native" where
  "engine_space_delete ctx e port flowID = op_rc ctx e ''space delete'' (NSpaceDelete port flowID)"

definition engine_space_recorded ::
    "(string \<Rightarrow> json option) \<Rightarrow> string option \<Rightarrow> 's engine \<Rightarrow> 16 word \<Rightarrow> string \<Rightarrow>
     ('s, go_error + recorded_request list) native" where
  "engine_space_recorded parse ctx e port flowID =
     decode_reply ''decode space recorded'' (dec_slice dec_recorded_request)
       (op_text parse ctx e ''space recorded'' (NSpaceRecorded port flowID))"

definition engine_flow_state_get ::
    "(string \<Rightarrow> json option) \<Rightarrow> string option \<Rightarrow> 's engine \<Rightarrow> 16 word \<Rightarrow> string \<Rightarrow> string \<Rightarrow>
     ('s, go_error + payload) native" where
  "engine_flow_state_get parse ctx e port flowID key =
     op_text parse ctx e ''flow state get'' (NFlowStateGet port flowID key)"

definition engine_flow_state_put ::
    "string option \<Rightarrow> 's engine \<Rightarrow> 16 word \<Rightarrow> string \<Rightarrow> string \<Rightarrow> string \<Rightarrow> ('s, go_error + unit) native" where
  "engine_flow_state_put ctx e port flowID key val =
     op_rc ctx e ''flow state put'' (NFlowStatePut port flowID key val)"

definition engine_flow_state_delete ::
    "string option \<Rightarrow> 's engine \<Rightarrow> 16 word \<Rightarrow> string \<Rightarrow> ('s, go_error + unit) native" where
  "engine_flow_state_delete ctx e port flowID = op_rc ctx e ''flow state delete'' (NFlowStateDelete port flowID)"

section \<open>The admin plane\<close>

definition serve_admin ::
    "(string \<Rightarrow> json option) \<Rightarrow> string option \<Rightarrow> 's engine \<Rightarrow> serve_options \<Rightarrow> ('s, go_error + payload) native" where
  "serve_admin parse ctx e opts =
     (case validate_serve_options opts of
        Inl err \<Rightarrow> give (Inl err)
      | Inr _ \<Rightarrow>
          let body = enc_serve_options opts
          in and_then (engine_build_info parse e) (\<lambda>r.
               case r of
                 Inl err \<Rightarrow> give (Inl err)
               | Inr info \<Rightarrow>
                   (case check_serve_options info body of
                      Inl err \<Rightarrow> give (Inl err)
                    | Inr _ \<Rightarrow> op_text parse ctx e ''serve admin'' (NServeAdmin body))))"

section \<open>Laws\<close>

lemma decode_reply_runs:
  assumes "ready e w" and "engine_call e run"
  shows "\<exists>r w'. decode_reply what d run w = Some (r, w') \<and> same_resources w w' \<and> ready e w' \<and> classified r"
  unfolding decode_reply_def
  by (rule engine_call.then_pure [OF assms(2) _ assms(1)]) (rule decode_as_classified, simp_all add: kinds_wrap)

interpretation recorded: engine_call e "engine_recorded parse ctx e port" for parse ctx e port
  unfolding engine_recorded_def by unfold_locales (rule decode_reply_runs [OF _ texts.engine_call_axioms])

interpretation verified: engine_call e "engine_verify parse ctx e port q" for parse ctx e port q
  unfolding engine_verify_def by unfold_locales (rule decode_reply_runs [OF _ texts.engine_call_axioms])

text \<open>The build information is the library's, read off the static string.\<close>

definition static_build_info :: "(string \<Rightarrow> json option) \<Rightarrow> 's engine \<Rightarrow> go_error + build_info" where
  "static_build_info parse e =
     (let s = (case nl_build_info (en_sym e) of None \<Rightarrow> [] | Some t \<Rightarrow> c_text t)
      in if s = [] then Inl (sentinel_msg ErrEngineUnavailable ''rift_build_info returned nothing'')
         else parse_build_info \<lparr>pl_text = s, pl_doc = parse s\<rparr>)"

lemma build_info_reads_static:
  assumes "ready e w" and "\<not> en_closed e"
  shows "\<exists>w'. engine_build_info parse e w = Some (static_build_info parse e, w') \<and>
    same_resources w w' \<and> ready e w' \<and> pr_native w' = pr_native w"
proof -
  let ?w1 = "enter (locked w)"
  let ?w2 = "?w1\<lparr>pr_locks := pr_locks ?w1 - 1\<rparr>"
  let ?s = "case nl_build_info (en_sym e) of None \<Rightarrow> [] | Some t \<Rightarrow> c_text t"
  have inv: "process_ok w" "pr_refs w > 0"
    "pr_blocks w static_addr = map_option (\<lambda>t. (False, t @ [nul])) (nl_build_info (en_sym e))"
    using assms by (simp_all add: ready_def)
  define p where "p = (if nl_build_info (en_sym e) = None then 0 else static_addr)"
  have ptr: "build_info_ptr (en_sym e) (locked w) = Some (p, ?w1)"
    using inv(2) by (simp add: build_info_ptr_def locked_def p_def)
  have str: "go_string p ?w1 = Some (?s, ?w1)"
    using inv(3) take_c_text
    by (auto simp: go_string_def p_def static_addr_def locked_def scan_nul_block split: option.split)
  have "engine_build_info parse e w = Some (static_build_info parse e, ?w2)"
    using assms(2) ptr str by (simp add: engine_build_info_def static_build_info_def Let_def)
  moreover have same: "same_resources w ?w2" by (simp add: same_resources_def locked_def)
  moreover have "ready e ?w2"
    by (rule ready_same [OF assms(1) same]) (use inv(1) in \<open>simp add: locked_def process_ok_def\<close>)
  ultimately show ?thesis by auto
qed

lemma static_build_info_Inl: "static_build_info parse e = Inl err \<Longrightarrow> kinds err = {ErrEngineUnavailable}"
  by (auto simp: static_build_info_def Let_def kinds_wrap dest: parse_build_info_Inl split: if_splits)

text \<open>What \<open>ServeAdmin\<close> does, by its guards.\<close>

definition serve_guard :: "(string \<Rightarrow> json option) \<Rightarrow> 's engine \<Rightarrow> serve_options \<Rightarrow> go_error + unit" where
  "serve_guard parse e opts =
     (case validate_serve_options opts of
        Inl err \<Rightarrow> Inl err
      | Inr _ \<Rightarrow>
          if en_closed e then Inl (Sentinel ErrClosed)
          else (case static_build_info parse e of
                  Inl err \<Rightarrow> Inl err
                | Inr info \<Rightarrow> check_serve_options info (enc_serve_options opts)))"

lemma serve_guard_Inl: "serve_guard parse e opts = Inl err \<Longrightarrow> kinds err \<noteq> {}"
  using check_serve_options_Inl [of _ "enc_fields serve_options_fields opts" err]
  by (auto simp: serve_guard_def enc_serve_options_def enc_struct_def
      dest: validate_serve_options_Inl static_build_info_Inl split: sum.splits if_splits)

lemma serve_admin_guarded:
  assumes "ready e w"
  shows "\<exists>w'. same_resources w w' \<and> ready e w' \<and> pr_native w' = pr_native w \<and>
    serve_admin parse ctx e opts w =
      (case serve_guard parse e opts of
         Inl err \<Rightarrow> Some (Inl err, w')
       | Inr _ \<Rightarrow> op_text parse ctx e ''serve admin'' (NServeAdmin (enc_serve_options opts)) w')"
proof (cases "validate_serve_options opts")
  case (Inl err)
  then show ?thesis using assms by (intro exI [of _ w]) (simp add: serve_admin_def serve_guard_def)
next
  case (Inr u)
  note valid = Inr
  show ?thesis
  proof (cases "en_closed e")
    case True
    then show ?thesis
      using assms valid by (intro exI [of _ w]) (simp add: serve_admin_def serve_guard_def engine_build_info_def Let_def)
  next
    case False
    obtain w' where w': "engine_build_info parse e w = Some (static_build_info parse e, w')"
      "same_resources w w'" "ready e w'" "pr_native w' = pr_native w"
      using build_info_reads_static [OF assms False] by blast
    then show ?thesis
      using False valid
      by (intro exI [of _ w']) (auto simp: serve_admin_def serve_guard_def Let_def split: sum.split)
  qed
qed

lemma serve_admin_runs:
  assumes "ready e w"
  shows "\<exists>r w'. serve_admin parse ctx e opts w = Some (r, w') \<and> same_resources w w' \<and> ready e w' \<and> classified r"
proof -
  obtain w1 where w1: "same_resources w w1" "ready e w1"
    "serve_admin parse ctx e opts w =
      (case serve_guard parse e opts of
         Inl err \<Rightarrow> Some (Inl err, w1)
       | Inr _ \<Rightarrow> op_text parse ctx e ''serve admin'' (NServeAdmin (enc_serve_options opts)) w1)"
    using serve_admin_guarded [OF assms] by blast
  show ?thesis
  proof (cases "serve_guard parse e opts")
    case (Inl err)
    then show ?thesis using w1 serve_guard_Inl [OF Inl] by simp
  next
    case (Inr u)
    then show ?thesis
      using w1 texts.runs [OF w1(2)] same_resources_trans [OF w1(1)] by fastforce
  qed
qed

text \<open>The options \<open>validate\<close> refuses, and what the guards make of any options on an open engine.\<close>

definition refused_options :: "serve_options \<Rightarrow> bool" where
  "refused_options opts \<longleftrightarrow>
     blank (so_apiKey opts) \<and> so_apiKey opts \<noteq> [] \<or> so_upstreamCAFile opts \<noteq> [] \<and> so_upstreamCAPEM opts \<noteq> [] \<or>
     so_noParse opts \<and> so_configFile opts = []"

lemma serve_guard_cases:
  assumes "\<not> en_closed e" and "static_build_info parse e = Inr info"
  shows "case serve_guard parse e opts of
      Inl err \<Rightarrow> (if refused_options opts then kinds err = {ErrInvalidDefinition}
        else kinds err = {ErrVersionMismatch} \<and> (\<exists>k \<in> sent_keys opts. \<not> supports_serve_option info k))
    | Inr _ \<Rightarrow> \<not> refused_options opts \<and> \<not> (\<exists>k \<in> sent_keys opts. \<not> supports_serve_option info k)"
proof (cases "validate_serve_options opts")
  case (Inl err)
  then have "refused_options opts" by (auto simp: validate_serve_options_def refused_options_def blank_def split: if_splits)
  then show ?thesis using Inl by (simp add: validate_serve_options_Inl serve_guard_def)
next
  case (Inr u)
  then have "\<not> refused_options opts" by (auto simp: validate_serve_options_def refused_options_def blank_def split: if_splits)
  moreover have "serve_guard parse e opts = check_serve_options info (enc_serve_options opts)"
    using Inr assms by (simp add: serve_guard_def)
  ultimately show ?thesis
    using check_serve_options_Inl [of info "enc_fields serve_options_fields opts"] check_encoded_options [of info opts]
    by (auto simp: enc_serve_options_def enc_struct_def split: sum.split)
qed

interpretation serving: engine_call e "serve_admin parse ctx e opts" for parse ctx e opts
  by unfold_locales (rule serve_admin_runs)

end
