(* ===== verification/Machines.thy ===== *)
theory Machines
  imports Main
begin

text \<open>
  Labelled step relations: reachability, runs, and the two arguments the state machines of the
  SDK are verified by, an invariant and a rank that every step of a run lowers.
\<close>

inductive reach :: "('c \<Rightarrow> bool) \<Rightarrow> ('c \<Rightarrow> 'e \<Rightarrow> 'c \<Rightarrow> bool) \<Rightarrow> 'c \<Rightarrow> bool"
  for start step where
  reach_start: "start c \<Longrightarrow> reach start step c"
| reach_step: "reach start step c \<Longrightarrow> step c e c' \<Longrightarrow> reach start step c'"

inductive run :: "('c \<Rightarrow> 'e \<Rightarrow> 'c \<Rightarrow> bool) \<Rightarrow> 'c \<Rightarrow> 'e list \<Rightarrow> 'c \<Rightarrow> bool"
  for step where
  run_Nil: "run step c [] c"
| run_Cons: "step c e c' \<Longrightarrow> run step c' es c'' \<Longrightarrow> run step c (e # es) c''"

inductive_simps run_Nil_iff [simp]: "run step c [] c'"
inductive_simps run_Cons_iff: "run step c (e # es) c''"

lemma run_append: "run step c es c' \<Longrightarrow> run step c' es' c'' \<Longrightarrow> run step c (es @ es') c''"
  by (induction rule: run.induct) (auto intro: run.intros)

lemma reach_run: "run step c es c' \<Longrightarrow> reach start step c \<Longrightarrow> reach start step c'"
  by (induction rule: run.induct) (auto intro: reach.intros)

locale invariant =
  fixes start :: "'c \<Rightarrow> bool" and step :: "'c \<Rightarrow> 'e \<Rightarrow> 'c \<Rightarrow> bool" and inv :: "'c \<Rightarrow> bool"
  assumes inv_start: "start c \<Longrightarrow> inv c"
    and inv_step: "inv c \<Longrightarrow> step c e c' \<Longrightarrow> inv c'"
begin

lemma inv_reach: "reach start step c \<Longrightarrow> inv c"
  by (induction rule: reach.induct) (auto intro: inv_start inv_step)

lemma inv_run: "run step c es c' \<Longrightarrow> inv c \<Longrightarrow> inv c'"
  by (induction rule: run.induct) (auto intro: inv_step)

end

text \<open>
  While \<open>busy\<close> holds at the end of every step, a step lowers the rank: a run through busy states
  is no longer than the rank it starts with.
\<close>

inductive busy_run :: "('c \<Rightarrow> bool) \<Rightarrow> ('c \<Rightarrow> 'e \<Rightarrow> 'c \<Rightarrow> bool) \<Rightarrow> 'c \<Rightarrow> 'e list \<Rightarrow> 'c \<Rightarrow> bool"
  for busy step where
  busy_Nil: "busy c \<Longrightarrow> busy_run busy step c [] c"
| busy_Cons: "busy c \<Longrightarrow> step c e c' \<Longrightarrow> busy_run busy step c' es c'' \<Longrightarrow> busy_run busy step c (e # es) c''"

lemma busy_run_first: "busy_run busy step c es c' \<Longrightarrow> busy c"
  by (induction rule: busy_run.induct) simp_all

locale ranked = invariant start step inv
  for start :: "'c \<Rightarrow> bool" and step :: "'c \<Rightarrow> 'e \<Rightarrow> 'c \<Rightarrow> bool" and inv +
  fixes busy :: "'c \<Rightarrow> bool" and rank :: "'c \<Rightarrow> nat"
  assumes rank_step: "inv c \<Longrightarrow> busy c \<Longrightarrow> step c e c' \<Longrightarrow> busy c' \<Longrightarrow> rank c' < rank c"
begin

lemma busy_run_inv: "busy_run busy step c es c' \<Longrightarrow> inv c \<Longrightarrow> inv c'"
  by (induction rule: busy_run.induct) (auto intro: inv_step)

lemma busy_run_bounded: "busy_run busy step c es c' \<Longrightarrow> inv c \<Longrightarrow> length es + rank c' \<le> rank c"
proof (induction rule: busy_run.induct)
  case (busy_Cons c e c' es c'')
  have "rank c' < rank c"
    by (rule rank_step [OF busy_Cons.prems busy_Cons.hyps(1,2) busy_run_first [OF busy_Cons.hyps(3)]])
  moreover have "length es + rank c'' \<le> rank c'"
    by (rule busy_Cons.IH [OF inv_step [OF busy_Cons.prems busy_Cons.hyps(2)]])
  ultimately show ?case by simp
qed simp

end

end
