(* ===== verification/Engine_Lock.thy ===== *)
theory Engine_Lock
  imports Machines
begin

text \<open>
  The embedded engine shared by goroutines (\<open>riftembed/engine.go\<close>): the read-write lock around the
  handle, every operation inside a read lock and \<open>Close\<close> inside the write lock.  As in Go's
  \<open>sync.RWMutex\<close>, a writer first takes the lock over from other writers and new readers, then waits
  for the readers there are.

  A goroutine is where it stands in \<open>withHandle\<close> or in \<open>Close\<close>; a configuration is the engine's
  fields, the lock, and what the library knows of the handle.
\<close>

datatype pc =
    Idle
  | Reading       \<comment> \<open>read lock held, \<open>closed\<close> not looked at\<close>
  | Calling nat   \<comment> \<open>inside the function given to \<open>withHandle\<close>, with this handle\<close>
  | Closing       \<comment> \<open>in \<open>Lock\<close>, waiting for the readers\<close>
  | Writing       \<comment> \<open>write lock held, \<open>closed\<close> not looked at\<close>
  | Stopping nat  \<comment> \<open>closed, about to stop this handle\<close>
  | Unloading     \<comment> \<open>stopped, about to close the library\<close>

record shared =
  sh_handle :: nat
  sh_closed :: bool
  sh_readers :: "nat set"
  sh_writer :: "nat option"
  sh_live :: "nat set"
  sh_loaded :: bool
  sh_stops :: nat
  sh_pc :: "nat \<Rightarrow> pc"

definition at :: "nat \<Rightarrow> pc \<Rightarrow> shared \<Rightarrow> shared" where
  "at i p c = c\<lparr>sh_pc := (sh_pc c)(i := p)\<rparr>"

datatype event = RLock | Refuse | Downcall | Return | Lock | Acquire | Already | Mark | Stop | Unload

inductive lock_step :: "shared \<Rightarrow> nat \<times> event \<Rightarrow> shared \<Rightarrow> bool" where
  rlock: "sh_pc c i = Idle \<Longrightarrow> sh_writer c = None \<Longrightarrow>
    lock_step c (i, RLock) (at i Reading (c\<lparr>sh_readers := insert i (sh_readers c)\<rparr>))"
| refuse: "sh_pc c i = Reading \<Longrightarrow> sh_closed c \<Longrightarrow>
    lock_step c (i, Refuse) (at i Idle (c\<lparr>sh_readers := sh_readers c - {i}\<rparr>))"
| downcall: "sh_pc c i = Reading \<Longrightarrow> \<not> sh_closed c \<Longrightarrow>
    lock_step c (i, Downcall) (at i (Calling (sh_handle c)) c)"
| return: "sh_pc c i = Calling h \<Longrightarrow>
    lock_step c (i, Return) (at i Idle (c\<lparr>sh_readers := sh_readers c - {i}\<rparr>))"
| lock: "sh_pc c i = Idle \<Longrightarrow> sh_writer c = None \<Longrightarrow>
    lock_step c (i, Lock) (at i Closing (c\<lparr>sh_writer := Some i\<rparr>))"
| acquire: "sh_pc c i = Closing \<Longrightarrow> sh_readers c = {} \<Longrightarrow>
    lock_step c (i, Acquire) (at i Writing c)"
| already: "sh_pc c i = Writing \<Longrightarrow> sh_closed c \<Longrightarrow>
    lock_step c (i, Already) (at i Idle (c\<lparr>sh_writer := None\<rparr>))"
| mark: "sh_pc c i = Writing \<Longrightarrow> \<not> sh_closed c \<Longrightarrow>
    lock_step c (i, Mark) (at i (Stopping (sh_handle c)) (c\<lparr>sh_closed := True, sh_handle := 0\<rparr>))"
| stop: "sh_pc c i = Stopping h \<Longrightarrow>
    lock_step c (i, Stop) (at i Unloading (c\<lparr>sh_live := sh_live c - {h}, sh_stops := Suc (sh_stops c)\<rparr>))"
| unload: "sh_pc c i = Unloading \<Longrightarrow>
    lock_step c (i, Unload) (at i Idle (c\<lparr>sh_loaded := False, sh_writer := None\<rparr>))"

inductive_cases lock_stepE: "lock_step c e c'"

definition fresh_engine :: "nat \<Rightarrow> shared" where
  "fresh_engine h =
     \<lparr>sh_handle = h, sh_closed = False, sh_readers = {}, sh_writer = None, sh_live = {h},
      sh_loaded = True, sh_stops = 0, sh_pc = (\<lambda>_. Idle)\<rparr>"

definition fresh :: "shared \<Rightarrow> bool" where
  "fresh c \<longleftrightarrow> (\<exists>h. h \<noteq> 0 \<and> c = fresh_engine h)"

section \<open>The invariant\<close>

fun is_reader :: "pc \<Rightarrow> bool" where
  "is_reader Reading = True"
| "is_reader (Calling h) = True"
| "is_reader _ = False"

fun is_writer :: "pc \<Rightarrow> bool" where
  "is_writer Closing = True"
| "is_writer Writing = True"
| "is_writer (Stopping h) = True"
| "is_writer Unloading = True"
| "is_writer _ = False"

fun exclusive :: "pc \<Rightarrow> bool" where
  "exclusive Writing = True"
| "exclusive (Stopping h) = True"
| "exclusive Unloading = True"
| "exclusive _ = False"

text \<open>Who holds the lock, and what is true of the handle at each place.\<close>

definition lock_at :: "shared \<Rightarrow> nat \<Rightarrow> bool" where
  "lock_at c i \<longleftrightarrow>
     (i \<in> sh_readers c \<longleftrightarrow> is_reader (sh_pc c i)) \<and>
     (sh_writer c = Some i \<longleftrightarrow> is_writer (sh_pc c i)) \<and>
     (exclusive (sh_pc c i) \<longrightarrow> sh_readers c = {})"

definition lock_inv :: "shared \<Rightarrow> bool" where
  "lock_inv c \<longleftrightarrow> finite (sh_readers c) \<and> (\<forall>i. lock_at c i)"

fun handle_ok :: "shared \<Rightarrow> pc \<Rightarrow> bool" where
  "handle_ok c (Calling h) = (\<not> sh_closed c \<and> h = sh_handle c)"
| "handle_ok c (Stopping h) = (sh_closed c \<and> h \<in> sh_live c \<and> sh_loaded c \<and> sh_stops c = 0)"
| "handle_ok c Unloading = (sh_closed c \<and> sh_loaded c \<and> sh_stops c = 1)"
| "handle_ok c _ = True"

definition handle_inv :: "shared \<Rightarrow> bool" where
  "handle_inv c \<longleftrightarrow>
     (\<forall>i. handle_ok c (sh_pc c i)) \<and>
     (\<not> sh_closed c \<longrightarrow> sh_handle c \<in> sh_live c \<and> sh_loaded c \<and> sh_stops c = 0) \<and>
     (sh_closed c \<longrightarrow> sh_handle c = 0 \<and> sh_stops c \<le> 1)"

definition engine_inv :: "shared \<Rightarrow> bool" where
  "engine_inv c \<longleftrightarrow> lock_inv c \<and> handle_inv c"

lemma at_simps [simp]:
  "sh_pc (at i p c) = (sh_pc c)(i := p)" "sh_handle (at i p c) = sh_handle c"
  "sh_closed (at i p c) = sh_closed c" "sh_readers (at i p c) = sh_readers c"
  "sh_writer (at i p c) = sh_writer c" "sh_live (at i p c) = sh_live c"
  "sh_loaded (at i p c) = sh_loaded c" "sh_stops (at i p c) = sh_stops c"
  by (simp_all add: at_def)

lemma fresh_inv: "fresh c \<Longrightarrow> engine_inv c"
  by (auto simp: fresh_def fresh_engine_def engine_inv_def lock_inv_def lock_at_def handle_inv_def)

lemma exclusive_writer: "exclusive p \<Longrightarrow> is_writer p"
  by (cases p) simp_all

lemma idle_iff: "p = Idle \<longleftrightarrow> \<not> is_reader p \<and> \<not> is_writer p"
  by (cases p) simp_all

lemma lock_invD:
  assumes "lock_inv c"
  shows "finite (sh_readers c)" and "i \<in> sh_readers c \<longleftrightarrow> is_reader (sh_pc c i)"
    and "sh_writer c = Some i \<longleftrightarrow> is_writer (sh_pc c i)"
    and "exclusive (sh_pc c i) \<Longrightarrow> sh_readers c = {}"
  using assms by (auto simp: lock_inv_def lock_at_def)

lemma one_writer:
  assumes "lock_inv c" and "is_writer (sh_pc c i)" and "is_writer (sh_pc c j)"
  shows "i = j"
proof -
  have "sh_writer c = Some i" "sh_writer c = Some j"
    using lock_invD(3) [OF assms(1)] assms(2,3) by simp_all
  then show ?thesis by simp
qed

text \<open>Beside a goroutine that owns the write lock every other one is idle.\<close>

lemma alone:
  assumes "lock_inv c" and "exclusive (sh_pc c i)" and "j \<noteq> i"
  shows "sh_pc c j = Idle"
proof -
  have "\<not> is_writer (sh_pc c j)"
    using one_writer [OF assms(1) _ exclusive_writer [OF assms(2)]] assms(3) by blast
  moreover have "\<not> is_reader (sh_pc c j)"
    using lock_invD(2) [OF assms(1), of j] lock_invD(4) [OF assms(1,2)] by simp
  ultimately show ?thesis by (simp add: idle_iff)
qed

lemma lock_inv_step:
  assumes "lock_inv c" and "lock_step c e c'"
  shows "lock_inv c'"
proof -
  have facts: "\<forall>j. lock_at c j" "finite (sh_readers c)" "lock_at c (fst e)"
    "\<forall>j. exclusive (sh_pc c j) \<longrightarrow> is_writer (sh_pc c j)"
    "\<forall>j k. is_writer (sh_pc c j) \<longrightarrow> is_writer (sh_pc c k) \<longrightarrow> j = k"
    using assms(1) one_writer [OF assms(1)] exclusive_writer by (auto simp: lock_inv_def)
  from assms(2) show ?thesis
    by (cases rule: lock_step.cases) (insert facts, auto simp: lock_inv_def lock_at_def)
qed

text \<open>Two kinds of step: one that leaves engine and library alone, and one by their only user.\<close>

lemma handle_ok_cong:
  "sh_closed c' = sh_closed c \<Longrightarrow> sh_handle c' = sh_handle c \<Longrightarrow> sh_live c' = sh_live c \<Longrightarrow>
   sh_loaded c' = sh_loaded c \<Longrightarrow> sh_stops c' = sh_stops c \<Longrightarrow> handle_ok c' p = handle_ok c p"
  by (cases p) simp_all

lemma handle_inv_same:
  assumes "handle_inv c" and "handle_ok c p" and "sh_pc c' = (sh_pc c)(i := p)"
    and "sh_closed c' = sh_closed c" "sh_handle c' = sh_handle c" "sh_live c' = sh_live c"
      "sh_loaded c' = sh_loaded c" "sh_stops c' = sh_stops c"
  shows "handle_inv c'"
  using assms(1,2) unfolding handle_inv_def handle_ok_cong [OF assms(4-)] assms(3-) by simp

lemma handle_inv_alone:
  assumes "lock_inv c" and "exclusive (sh_pc c i)" and "sh_pc c' = (sh_pc c)(i := p)" and "handle_ok c' p"
    and "\<not> sh_closed c' \<Longrightarrow> sh_handle c' \<in> sh_live c' \<and> sh_loaded c' \<and> sh_stops c' = 0"
    and "sh_closed c' \<Longrightarrow> sh_handle c' = 0 \<and> sh_stops c' \<le> 1"
  shows "handle_inv c'"
  using alone [OF assms(1,2)] assms(3-) by (auto simp: handle_inv_def)

lemma handle_inv_step:
  assumes "handle_inv c" and "lock_inv c" and "lock_step c e c'"
  shows "handle_inv c'"
proof -
  have at: "handle_ok c (sh_pc c i)" for i using assms(1) by (simp add: handle_inv_def)
  have fields: "\<not> sh_closed c \<Longrightarrow> sh_handle c \<in> sh_live c \<and> sh_loaded c \<and> sh_stops c = 0"
    "sh_closed c \<Longrightarrow> sh_handle c = 0 \<and> sh_stops c \<le> 1" using assms(1) by (simp_all add: handle_inv_def)
  from assms(3) show ?thesis
  proof (cases rule: lock_step.cases)
    case (mark i)
    then show ?thesis using fields by (intro handle_inv_alone [OF assms(2), of i]) auto
  next
    case (stop i h)
    then show ?thesis using at [of i] fields by (intro handle_inv_alone [OF assms(2), of i]) auto
  next
    case (unload i)
    then show ?thesis using at [of i] fields by (intro handle_inv_alone [OF assms(2), of i]) auto
  qed (rule handle_inv_same [OF assms(1)], simp_all)+
qed

lemma engine_inv_step: "engine_inv c \<Longrightarrow> lock_step c e c' \<Longrightarrow> engine_inv c'"
  unfolding engine_inv_def using lock_inv_step handle_inv_step by blast

section \<open>Close gets through\<close>

text \<open>What is left to do for the goroutine at \<open>p\<close>, once a writer is waiting.\<close>

fun pc_rank :: "pc \<Rightarrow> nat" where
  "pc_rank Idle = 0"
| "pc_rank Reading = 2"
| "pc_rank (Calling h) = 1"
| "pc_rank Closing = 4"
| "pc_rank Writing = 3"
| "pc_rank (Stopping h) = 2"
| "pc_rank Unloading = 1"

definition active :: "shared \<Rightarrow> nat set" where
  "active c = {i. sh_pc c i \<noteq> Idle}"

definition writer_rank :: "shared \<Rightarrow> nat" where
  "writer_rank c = (\<Sum>i \<in> active c. pc_rank (sh_pc c i))"

definition writer_waiting :: "shared \<Rightarrow> bool" where
  "writer_waiting c \<longleftrightarrow> sh_writer c \<noteq> None"

lemma active_eq: "lock_inv c \<Longrightarrow> active c = sh_readers c \<union> set_option (sh_writer c)"
  using lock_invD(2,3) [of c] by (auto simp: active_def idle_iff)

lemma finite_active: "lock_inv c \<Longrightarrow> finite (active c)"
  by (simp add: active_eq lock_invD(1))

lemma writer_rank_update:
  assumes "finite (active c)" and "sh_pc c' = (sh_pc c)(i := p)" and "pc_rank p < pc_rank (sh_pc c i)"
  shows "writer_rank c' < writer_rank c"
proof -
  have i: "i \<in> active c" using assms(3) by (auto simp: active_def)
  have "writer_rank c' = (\<Sum>j \<in> active c. pc_rank (sh_pc c' j))"
    unfolding writer_rank_def using assms(1,2) i
    by (intro sum.mono_neutral_left) (auto simp: active_def)
  also have "\<dots> < (\<Sum>j \<in> active c. pc_rank (sh_pc c j))"
    using assms i by (intro sum_strict_mono_ex1) auto
  finally show ?thesis by (simp add: writer_rank_def)
qed

lemma writer_rank_step:
  assumes "lock_inv c" and "writer_waiting c" and "lock_step c e c'"
  shows "writer_rank c' < writer_rank c"
  using assms(3)
proof (cases rule: lock_step.cases)
  case (rlock i)
  then show ?thesis using assms(2) by (simp add: writer_waiting_def)
next
  case (lock i)
  then show ?thesis using assms(2) by (simp add: writer_waiting_def)
qed (rule writer_rank_update [OF finite_active [OF assms(1)]], simp, simp)+

text \<open>Nobody who holds or waits for the lock is stuck unless another one can go on.\<close>

lemma can_step:
  assumes "sh_pc c i \<noteq> Idle" and "sh_pc c i = Closing \<Longrightarrow> sh_readers c = {}"
  shows "\<exists>ev c'. lock_step c (i, ev) c'"
proof (cases "sh_pc c i")
  case Reading
  then show ?thesis using refuse [OF Reading] downcall [OF Reading] by (cases "sh_closed c") blast+
next
  case Writing
  then show ?thesis using already [OF Writing] mark [OF Writing] by (cases "sh_closed c") blast+
next
  case (Calling h)
  then show ?thesis using return [OF Calling] by blast
next
  case (Stopping h)
  then show ?thesis using stop [OF Stopping] by blast
next
  case Unloading
  then show ?thesis using unload [OF Unloading] by blast
next
  case Closing
  then show ?thesis using acquire [OF Closing assms(2) [OF Closing]] by blast
qed (use assms(1) in simp)

lemma active_steps:
  assumes "lock_inv c" and "active c \<noteq> {}"
  shows "\<exists>i ev c'. i \<in> active c \<and> lock_step c (i, ev) c'"
proof (cases "sh_readers c = {}")
  case True
  obtain i where "sh_pc c i \<noteq> Idle" using assms(2) by (auto simp: active_def)
  then show ?thesis using can_step [of c i] True by (auto simp: active_def)
next
  case False
  then obtain i where "is_reader (sh_pc c i)" using lock_invD(2) [OF assms(1)] by blast
  then have "sh_pc c i \<noteq> Idle" "sh_pc c i \<noteq> Closing" by auto
  then show ?thesis using can_step [of c i] by (auto simp: active_def)
qed

interpretation shared: ranked fresh lock_step engine_inv writer_waiting writer_rank
proof unfold_locales
  show "engine_inv c" if "fresh c" for c using that by (rule fresh_inv)
  show "engine_inv c'" if "engine_inv c" "lock_step c e c'" for c e c' using that by (rule engine_inv_step)
  show "writer_rank c' < writer_rank c"
    if "engine_inv c" "writer_waiting c" "lock_step c e c'" "writer_waiting c'" for c e c'
    using that by (intro writer_rank_step) (simp_all add: engine_inv_def)
qed

end
