(* ===== verification/Shutdown.thy ===== *)
theory Shutdown
  imports Machines
begin

text \<open>
  The shutdown of a spawned engine (\<open>process.stop\<close> in \<open>rift/spawn.go\<close>), called by any number of
  goroutines: the body runs once, under a \<open>sync.Once\<close>, while another goroutine owns the wait for
  the child, and the child may exit at any moment; a killed child is gone at once, and terminating is killing on Windows.  The clock counts the milliseconds since the
  child was asked to terminate.
\<close>

datatype wait_error = ExitError string | ProcessDone string | OtherError string

definition ignore_expected_exit :: "wait_error option \<Rightarrow> wait_error option" where
  "ignore_expected_exit err =
     (case err of
        None \<Rightarrow> None
      | Some (ExitError _) \<Rightarrow> None
      | Some (ProcessDone _) \<Rightarrow> None
      | Some (OtherError msg) \<Rightarrow> Some (OtherError msg))"

datatype once_state = Unused | Busy nat | Spent
datatype signal = SigTerm | SigKill

text \<open>What \<open>terminate\<close> sends, on Windows and elsewhere.\<close>

definition terminate_signal :: "bool \<Rightarrow> signal" where
  "terminate_signal windows = (if windows then SigKill else SigTerm)"

datatype stop_pc =
    Outside
  | Blocked    \<comment> \<open>in \<open>Do\<close>, while another call runs the body\<close>
  | Entered    \<comment> \<open>in the body, before its first select\<close>
  | Waiting    \<comment> \<open>asked the child to terminate, in the second select\<close>
  | Killing    \<comment> \<open>killed it, waiting for the wait to return\<close>
  | Returned

record shutdown =
  sd_windows :: bool
  sd_started :: bool
  sd_alive :: bool
  sd_done :: bool  \<comment> \<open>\<open>waitDone\<close> is closed\<close>
  sd_waitErr :: "wait_error option"
  sd_stopErr :: "wait_error option"
  sd_clock :: nat
  sd_signals :: "signal list"
  sd_once :: once_state
  sd_pc :: "nat \<Rightarrow> stop_pc"

definition caller :: "nat \<Rightarrow> stop_pc \<Rightarrow> shutdown \<Rightarrow> shutdown" where
  "caller i p s = s\<lparr>sd_pc := (sd_pc s)(i := p)\<rparr>"

definition grace :: nat where
  "grace = 5000"

text \<open>The end of the body: its error is kept and the once is spent.\<close>

definition leave :: "nat \<Rightarrow> wait_error option \<Rightarrow> shutdown \<Rightarrow> shutdown" where
  "leave i err s = caller i Returned (s\<lparr>sd_stopErr := err, sd_once := Spent\<rparr>)"

datatype stop_event =
    Enter | Block | Reuse | NoProcess | Gone | Terminate | SeenGone | TimedOut | Reaped
  | ChildExit | WaitReturns "wait_error option" | Tick

inductive stop_step :: "shutdown \<Rightarrow> nat \<times> stop_event \<Rightarrow> shutdown \<Rightarrow> bool" where
  enter: "sd_pc s i = Outside \<Longrightarrow> sd_once s = Unused \<Longrightarrow>
    stop_step s (i, Enter) (caller i Entered (s\<lparr>sd_once := Busy i\<rparr>))"
| block: "sd_pc s i = Outside \<Longrightarrow> sd_once s = Busy j \<Longrightarrow> stop_step s (i, Block) (caller i Blocked s)"
| reuse: "sd_pc s i = Outside \<or> sd_pc s i = Blocked \<Longrightarrow> sd_once s = Spent \<Longrightarrow>
    stop_step s (i, Reuse) (caller i Returned s)"
| no_process: "sd_pc s i = Entered \<Longrightarrow> \<not> sd_started s \<Longrightarrow> stop_step s (i, NoProcess) (leave i (sd_stopErr s) s)"
| gone: "sd_pc s i = Entered \<Longrightarrow> sd_started s \<Longrightarrow> sd_done s \<Longrightarrow>
    stop_step s (i, Gone) (leave i (ignore_expected_exit (sd_waitErr s)) s)"
| terminate: "sd_pc s i = Entered \<Longrightarrow> sd_started s \<Longrightarrow> \<not> sd_done s \<Longrightarrow>
    stop_step s (i, Terminate) (caller i Waiting
      (s\<lparr>sd_signals := sd_signals s @ [terminate_signal (sd_windows s)], sd_clock := 0,
         sd_alive := (sd_alive s \<and> terminate_signal (sd_windows s) \<noteq> SigKill)\<rparr>))"
| seen_gone: "sd_pc s i = Waiting \<Longrightarrow> sd_done s \<Longrightarrow>
    stop_step s (i, SeenGone) (leave i (ignore_expected_exit (sd_waitErr s)) s)"
| timed_out: "sd_pc s i = Waiting \<Longrightarrow> grace \<le> sd_clock s \<Longrightarrow>
    stop_step s (i, TimedOut) (caller i Killing (s\<lparr>sd_signals := sd_signals s @ [SigKill], sd_alive := False\<rparr>))"
| reaped: "sd_pc s i = Killing \<Longrightarrow> sd_done s \<Longrightarrow>
    stop_step s (i, Reaped) (leave i (ignore_expected_exit (sd_waitErr s)) s)"
| child_exit: "sd_alive s \<Longrightarrow> stop_step s (i, ChildExit) (s\<lparr>sd_alive := False\<rparr>)"
| wait_returns: "sd_started s \<Longrightarrow> \<not> sd_alive s \<Longrightarrow> \<not> sd_done s \<Longrightarrow>
    stop_step s (i, WaitReturns err) (s\<lparr>sd_waitErr := err, sd_done := True\<rparr>)"
| tick: "stop_step s (i, Tick) (s\<lparr>sd_clock := Suc (sd_clock s)\<rparr>)"

inductive_cases stop_stepE: "stop_step s e s'"

definition new_process :: "shutdown \<Rightarrow> bool" where
  "new_process s \<longleftrightarrow>
     (sd_alive s \<longrightarrow> sd_started s) \<and> \<not> sd_done s \<and> sd_waitErr s = None \<and> sd_stopErr s = None \<and>
     sd_signals s = [] \<and> sd_once s = Unused \<and> sd_pc s = (\<lambda>_. Outside)"

section \<open>The invariant\<close>

fun in_body :: "stop_pc \<Rightarrow> bool" where
  "in_body Entered = True"
| "in_body Waiting = True"
| "in_body Killing = True"
| "in_body _ = False"

fun caller_ok :: "shutdown \<Rightarrow> stop_pc \<Rightarrow> bool" where
  "caller_ok s Entered = (sd_signals s = [])"
| "caller_ok s Waiting = (sd_started s \<and> sd_signals s = [terminate_signal (sd_windows s)])"
| "caller_ok s Killing = (sd_started s \<and> sd_signals s = [terminate_signal (sd_windows s), SigKill] \<and> grace \<le> sd_clock s \<and> \<not> sd_alive s)"
| "caller_ok s Returned = (sd_once s = Spent)"
| "caller_ok s _ = True"

definition once_ok :: "shutdown \<Rightarrow> bool" where
  "once_ok s \<longleftrightarrow>
     (case sd_once s of
        Unused \<Rightarrow> sd_signals s = [] \<and> sd_stopErr s = None
      | Busy i \<Rightarrow> sd_stopErr s = None
      | Spent \<Rightarrow> (if sd_started s then sd_done s \<and> sd_stopErr s = ignore_expected_exit (sd_waitErr s)
                  else sd_stopErr s = None \<and> sd_signals s = []) \<and>
          sd_signals s \<in> {[], [terminate_signal (sd_windows s)], [terminate_signal (sd_windows s), SigKill]} \<and>
          (1 < length (sd_signals s) \<longrightarrow> grace \<le> sd_clock s))"

definition stop_inv :: "shutdown \<Rightarrow> bool" where
  "stop_inv s \<longleftrightarrow>
     (sd_done s \<longrightarrow> sd_started s \<and> \<not> sd_alive s) \<and> (sd_alive s \<longrightarrow> sd_started s) \<and> once_ok s \<and>
     (\<forall>i. (sd_once s = Busy i \<longleftrightarrow> in_body (sd_pc s i)) \<and> caller_ok s (sd_pc s i))"

lemma caller_simps [simp]:
  "sd_pc (caller i p s) = (sd_pc s)(i := p)" "sd_started (caller i p s) = sd_started s"
  "sd_alive (caller i p s) = sd_alive s" "sd_done (caller i p s) = sd_done s"
  "sd_waitErr (caller i p s) = sd_waitErr s" "sd_stopErr (caller i p s) = sd_stopErr s"
  "sd_clock (caller i p s) = sd_clock s" "sd_signals (caller i p s) = sd_signals s"
  "sd_once (caller i p s) = sd_once s" "sd_windows (caller i p s) = sd_windows s"
  by (simp_all add: caller_def)

text \<open>Before the body has run nobody has returned, and only its caller is inside it.\<close>

lemma others_outside:
  assumes "stop_inv s" and "sd_once s \<noteq> Spent" and "sd_once s \<noteq> Busy j"
  shows "sd_pc s j = Outside \<or> sd_pc s j = Blocked"
proof -
  have "(sd_once s = Busy j \<longleftrightarrow> in_body (sd_pc s j)) \<and> caller_ok s (sd_pc s j)"
    using assms(1) by (simp add: stop_inv_def)
  then show ?thesis using assms(2,3) by (cases "sd_pc s j") auto
qed

text \<open>A step of the call that runs the body, or that begins it.\<close>

lemma stop_inv_bodyI:
  assumes "stop_inv s" and "sd_once s = Busy i \<or> sd_once s = Unused"
    and "sd_pc s' = (sd_pc s)(i := p)" and "sd_once s' = (if in_body p then Busy i else Spent)"
    and "caller_ok s' p" and "once_ok s'"
    and "sd_done s' \<longrightarrow> sd_started s' \<and> \<not> sd_alive s'" and "sd_alive s' \<longrightarrow> sd_started s'"
  shows "stop_inv s'"
proof -
  have "(sd_once s' = Busy j \<longleftrightarrow> in_body (sd_pc s' j)) \<and> caller_ok s' (sd_pc s' j)" for j
  proof (cases "j = i")
    case True
    then show ?thesis using assms(3-5) by (auto split: if_splits)
  next
    case False
    then have "sd_pc s j = Outside \<or> sd_pc s j = Blocked"
      using others_outside [OF assms(1), of j] assms(2) by auto
    then show ?thesis using False assms(3,4) by (auto split: if_splits)
  qed
  then show ?thesis using assms(6-8) by (simp add: stop_inv_def)
qed

text \<open>A call that waits for the body or finds it done, and a step that touches no call.\<close>

lemma caller_ok_caller: "caller_ok (caller i p s) q = caller_ok s q"
  by (cases q) simp_all

lemma once_ok_caller: "once_ok (caller i p s) = once_ok s"
  by (simp add: once_ok_def split: once_state.split)

lemma stop_inv_callerI:
  assumes "stop_inv s" and "\<not> in_body (sd_pc s i)" and "\<not> in_body p" and "caller_ok s p"
  shows "stop_inv (caller i p s)"
  using assms by (auto simp: stop_inv_def caller_ok_caller once_ok_caller)

lemma stop_inv_sameI:
  assumes "stop_inv s" and "sd_pc s' = sd_pc s" and "sd_windows s' = sd_windows s"
    and "sd_once s' = sd_once s" "sd_signals s' = sd_signals s" "sd_started s' = sd_started s"
      "sd_clock s \<le> sd_clock s'" "sd_alive s' \<longrightarrow> sd_alive s"
    and "once_ok s'" and "sd_done s' \<longrightarrow> sd_started s' \<and> \<not> sd_alive s'"
  shows "stop_inv s'"
proof -
  have "caller_ok s' p" if "caller_ok s p" for p
    using that assms(3-8) by (cases p) auto
  then show ?thesis using assms by (auto simp: stop_inv_def)
qed

lemma stop_invD:
  assumes "stop_inv s"
  shows "in_body (sd_pc s i) \<longleftrightarrow> sd_once s = Busy i" and "caller_ok s (sd_pc s i)" and "once_ok s"
    and "sd_done s \<Longrightarrow> sd_started s \<and> \<not> sd_alive s" and "sd_alive s \<Longrightarrow> sd_started s"
  using assms by (auto simp: stop_inv_def)

lemma leave_simps [simp]:
  "sd_pc (leave i err s) = (sd_pc s)(i := Returned)" "sd_started (leave i err s) = sd_started s"
  "sd_alive (leave i err s) = sd_alive s" "sd_done (leave i err s) = sd_done s"
  "sd_waitErr (leave i err s) = sd_waitErr s" "sd_stopErr (leave i err s) = err"
  "sd_clock (leave i err s) = sd_clock s" "sd_signals (leave i err s) = sd_signals s"
  "sd_once (leave i err s) = Spent" "sd_windows (leave i err s) = sd_windows s"
  by (simp_all add: leave_def)

lemma once_ok_updates:
  "once_ok (s\<lparr>sd_alive := a\<rparr>) = once_ok s"
  "once_ok s \<Longrightarrow> once_ok (s\<lparr>sd_clock := Suc (sd_clock s)\<rparr>)"
  by (auto simp: once_ok_def split: once_state.splits)

lemma stop_inv_step:
  assumes inv: "stop_inv s" and step: "stop_step s e s'"
  shows "stop_inv s'"
proof -
  note inv_at = stop_invD [OF inv]
  from step show ?thesis
  proof (cases rule: stop_step.cases)
    case (enter i)
    then show ?thesis using inv_at(3-) by (intro stop_inv_bodyI [OF inv, of i _ Entered]) (auto simp: once_ok_def)
  next
    case (block i j)
    then show ?thesis using stop_inv_callerI [OF inv, of i Blocked] by simp
  next
    case (reuse i)
    then show ?thesis using stop_inv_callerI [OF inv, of i Returned] by auto
  next
    case (no_process i)
    then have "sd_once s = Busy i" using inv_at(1) [of i] by simp
    then show ?thesis
      using no_process inv_at(2) [of i] inv_at(3-) by (intro stop_inv_bodyI [OF inv, of i _ Returned]) (auto simp: once_ok_def)
  next
    case (gone i)
    then have "sd_once s = Busy i" using inv_at(1) [of i] by simp
    then show ?thesis
      using gone inv_at(2) [of i] inv_at(3-) by (intro stop_inv_bodyI [OF inv, of i _ Returned]) (auto simp: once_ok_def)
  next
    case (terminate i)
    then have "sd_once s = Busy i" using inv_at(1) [of i] by simp
    then show ?thesis
      using terminate inv_at(2) [of i] inv_at(3-) by (intro stop_inv_bodyI [OF inv, of i _ Waiting]) (auto simp: once_ok_def)
  next
    case (seen_gone i)
    then have "sd_once s = Busy i" using inv_at(1) [of i] by simp
    then show ?thesis
      using seen_gone inv_at(2) [of i] inv_at(3-) by (intro stop_inv_bodyI [OF inv, of i _ Returned]) (auto simp: once_ok_def)
  next
    case (timed_out i)
    then have "sd_once s = Busy i" using inv_at(1) [of i] by simp
    then show ?thesis
      using timed_out inv_at(2) [of i] inv_at(3-) by (intro stop_inv_bodyI [OF inv, of i _ Killing]) (auto simp: once_ok_def)
  next
    case (reaped i)
    then have "sd_once s = Busy i" using inv_at(1) [of i] by simp
    then show ?thesis
      using reaped inv_at(2) [of i] inv_at(3-) by (intro stop_inv_bodyI [OF inv, of i _ Returned]) (auto simp: once_ok_def)
  next
    case (child_exit i)
    then show ?thesis using inv_at(3-5) by (intro stop_inv_sameI [OF inv]) (simp_all add: once_ok_updates)
  next
    case (wait_returns i err)
    then have "once_ok s'" using inv_at(3) by (auto simp: once_ok_def split: once_state.splits)
    then show ?thesis using wait_returns by (intro stop_inv_sameI [OF inv]) simp_all
  next
    case (tick i)
    then show ?thesis using inv_at(3-5) by (intro stop_inv_sameI [OF inv]) (auto simp: once_ok_updates)
  qed
qed

lemma new_process_inv: "new_process s \<Longrightarrow> stop_inv s"
  by (auto simp: new_process_def stop_inv_def once_ok_def)

interpretation stopping: invariant new_process stop_step stop_inv
  using new_process_inv stop_inv_step by unfold_locales

section \<open>The way out\<close>

text \<open>However the child behaves, the call that runs the body can get out of it in bounded time.\<close>

definition returns_within :: "nat \<Rightarrow> nat \<Rightarrow> shutdown \<Rightarrow> bool" where
  "returns_within n i s \<longleftrightarrow> (\<exists>es s'. run stop_step s es s' \<and> length es \<le> n \<and> sd_pc s' i = Returned)"

lemma returns_now: "stop_step s e s' \<Longrightarrow> sd_pc s' i = Returned \<Longrightarrow> returns_within (Suc n) i s"
  unfolding returns_within_def
  by (intro exI [of _ "[e]"] exI [of _ s']) (auto intro: run.intros)

lemma returns_next: "stop_step s e s' \<Longrightarrow> returns_within n i s' \<Longrightarrow> returns_within (Suc n) i s"
  unfolding returns_within_def by (force intro: run.intros)

lemma returns_ticks: "returns_within n i (s\<lparr>sd_clock := sd_clock s + k\<rparr>) \<Longrightarrow> returns_within (k + n) i s"
proof (induction k arbitrary: s)
  case (Suc k)
  have "returns_within (k + n) i (s\<lparr>sd_clock := Suc (sd_clock s)\<rparr>)"
    using Suc.IH [of "s\<lparr>sd_clock := Suc (sd_clock s)\<rparr>"] Suc.prems by simp
  then show ?case using returns_next [OF tick] by simp
qed simp

lemma killing_returns:
  assumes "sd_pc s i = Killing" and "sd_started s" and "\<not> sd_alive s"
  shows "returns_within 2 i s"
proof (cases "sd_done s")
  case True
  then show ?thesis using returns_now [OF reaped [OF assms(1)], of i 1] by (simp add: numeral_2_eq_2)
next
  case False
  let ?s = "s\<lparr>sd_waitErr := None, sd_done := True\<rparr>"
  have "returns_within 1 i ?s" using returns_now [OF reaped [of ?s i], of i 0] assms(1) by simp
  then show ?thesis using returns_next [OF wait_returns [OF assms(2,3) False]] by (simp add: numeral_2_eq_2)
qed

lemma waiting_returns:
  assumes "sd_pc s i = Waiting" and "sd_started s"
  shows "returns_within (grace + 3) i s"
proof -
  let ?s = "s\<lparr>sd_clock := sd_clock s + grace\<rparr>"
  let ?k = "caller i Killing (?s\<lparr>sd_signals := sd_signals ?s @ [SigKill], sd_alive := False\<rparr>)"
  have "returns_within 2 i ?k" using assms(2) by (intro killing_returns) simp_all
  moreover have "stop_step ?s (i, TimedOut) ?k" by (rule timed_out) (use assms(1) in simp_all)
  ultimately have "returns_within 3 i ?s" using returns_next by (metis eval_nat_numeral(3))
  then show ?thesis by (rule returns_ticks)
qed

lemma entered_returns:
  assumes "sd_pc s i = Entered"
  shows "returns_within (Suc (grace + 3)) i s"
proof (cases "sd_started s")
  case False
  then show ?thesis using returns_now [OF no_process [OF assms False], of i "grace + 3"] by simp
next
  case started: True
  show ?thesis
  proof (cases "sd_done s")
    case True
    then show ?thesis using returns_now [OF gone [OF assms started True], of i "grace + 3"] by simp
  next
    case False
    show ?thesis
      by (rule returns_next [OF terminate [OF assms started False] waiting_returns]) (simp_all add: started)
  qed
qed

lemma body_returns:
  assumes "stop_inv s" and "in_body (sd_pc s i)"
  shows "returns_within (grace + 4) i s"
proof -
  have mono: "returns_within n i s \<Longrightarrow> n \<le> m \<Longrightarrow> returns_within m i s" for n m
    unfolding returns_within_def by (meson order_trans)
  show ?thesis
    using assms(2) stop_invD(2) [OF assms(1), of i] mono [OF entered_returns [of s i], of "grace + 4"]
      mono [OF waiting_returns [of s i], of "grace + 4"] mono [OF killing_returns [of s i], of "grace + 4"]
    by (cases "sd_pc s i") auto
qed

end
