(* ===== verification/Intercept.thy ===== *)
theory Intercept
  imports Engine_Ops Remote
begin

text \<open>
  The intercept listener (\<open>riftembed/intercept.go\<close>), a TLS-terminating proxy of the engine: its
  options and their validation, the start, the rules, the CA it hands out, and the texts that
  describe it without its secrets.  URL and certificate parsing are parameters.
\<close>

section \<open>Options\<close>

record intercept_auth =
  au_username :: string
  au_password :: string

definition intercept_auth_fields :: "intercept_auth field list" where
  "intercept_auth_fields =
     [mk_field ''username'' req_string au_username au_username_update,
      mk_field ''password'' req_string au_password au_password_update]"

record intercept_options =
  ic_port :: "16 word"
  ic_host :: string
  ic_caCertPEM :: string
  ic_caKeyPEM :: string
  ic_caCertPath :: string
  ic_caKeyPath :: string
  ic_returnCAKey :: bool
  ic_auth :: "intercept_auth option"
  ic_rules :: "intercept_rule list"

definition intercept_options_fields :: "intercept_options field list" where
  "intercept_options_fields =
     [mk_field ''port'' omit_u16 ic_port ic_port_update,
      mk_field ''host'' omit_string ic_host ic_host_update,
      mk_field ''caCertPem'' omit_string ic_caCertPEM ic_caCertPEM_update,
      mk_field ''caKeyPem'' omit_string ic_caKeyPEM ic_caKeyPEM_update,
      mk_field ''caCertPath'' omit_string ic_caCertPath ic_caCertPath_update,
      mk_field ''caKeyPath'' omit_string ic_caKeyPath ic_caKeyPath_update,
      mk_field ''returnCaKey'' omit_bool ic_returnCAKey ic_returnCAKey_update,
      mk_field ''auth'' (omit_struct_ptr intercept_auth_fields \<lparr>au_username = [], au_password = []\<rparr>)
        ic_auth ic_auth_update,
      mk_field ''rules'' (omit_slice enc_intercept_rule dec_intercept_rule) ic_rules ic_rules_update]"

definition enc_intercept_options :: "intercept_options \<Rightarrow> json" where
  "enc_intercept_options = enc_struct intercept_options_fields"

text \<open>Whether a both-or-neither pair is set; a half-set one is an error.\<close>

definition ca_pair :: "string \<Rightarrow> string \<Rightarrow> string \<Rightarrow> go_error + bool" where
  "ca_pair name cert key =
     (if (cert = []) \<noteq> (key = [])
      then Inl (sentinel_msg ErrInvalidDefinition (''intercept CA: '' @ name @ '' must be supplied together''))
      else Inr (cert \<noteq> []))"

definition validate_intercept :: "intercept_options \<Rightarrow> go_error + unit" where
  "validate_intercept opts =
     (case ca_pair ''caCertPem/caKeyPem'' (ic_caCertPEM opts) (ic_caKeyPEM opts) of
        Inl e \<Rightarrow> Inl e
      | Inr pemPair \<Rightarrow>
          (case ca_pair ''caCertPath/caKeyPath'' (ic_caCertPath opts) (ic_caKeyPath opts) of
             Inl e \<Rightarrow> Inl e
           | Inr pathPair \<Rightarrow>
               if pemPair \<and> pathPair
               then Inl (sentinel_msg ErrInvalidDefinition
                      ''intercept CA: supply the PEM pair or the path pair, not both'')
               else if ic_returnCAKey opts \<and> (pemPair \<or> pathPair)
               then Inl (sentinel_msg ErrInvalidDefinition
                      (''intercept CA: ReturnCAKey mints a new CA, so it cannot be combined '' @
                       ''with a supplied one''))
               else (case ic_auth opts of
                       None \<Rightarrow> Inr ()
                     | Some auth \<Rightarrow>
                         if trim_space (au_username auth) = [] \<or> trim_space (au_password auth) = []
                         then Inl (sentinel_msg ErrInvalidDefinition
                                ''intercept auth needs a non-blank username and password'')
                         else Inr ())))"

section \<open>A running listener\<close>

record intercept_info =
  ii_port :: "16 word"
  ii_url :: string

text \<open>The start reply: the fields of the embedded info first, then the CA material.\<close>

record start_response = intercept_info +
  rs_caCertPEM :: string
  rs_caKeyPEM :: string

definition start_response_fields :: "start_response field list" where
  "start_response_fields =
     [mk_field ''interceptPort'' req_u16 ii_port ii_port_update,
      mk_field ''interceptUrl'' req_string ii_url ii_url_update,
      mk_field ''caCertPem'' req_string rs_caCertPEM rs_caCertPEM_update,
      mk_field ''caKeyPem'' req_string rs_caKeyPEM rs_caKeyPEM_update]"

definition dec_start_response :: "json \<Rightarrow> start_response option" where
  "dec_start_response j =
     dec_struct start_response_fields j \<lparr>ii_port = 0, ii_url = [], rs_caCertPEM = [], rs_caKeyPEM = []\<rparr>"

record ca_material =
  ca_certPEM :: string
  ca_keyPEM :: string

record 's intercept =
  in_engine :: "'s engine"
  in_info :: intercept_info
  in_auth :: "intercept_auth option"
  in_ca :: "ca_material option"

definition listener_of :: "'s engine \<Rightarrow> intercept_options \<Rightarrow> start_response \<Rightarrow> go_error + 's intercept" where
  "listener_of e opts resp =
     (if ii_port resp = 0 then Inl (sentinel_msg ErrInvalidDefinition ''engine reported no intercept port'')
      else Inr \<lparr>in_engine = e, in_info = \<lparr>ii_port = ii_port resp, ii_url = ii_url resp\<rparr>, in_auth = ic_auth opts,
                in_ca = (if rs_caCertPEM resp \<noteq> [] \<and> rs_caKeyPEM resp \<noteq> []
                         then Some \<lparr>ca_certPEM = rs_caCertPEM resp, ca_keyPEM = rs_caKeyPEM resp\<rparr> else None)\<rparr>)"

definition bind_result :: "go_error + 'a \<Rightarrow> ('a \<Rightarrow> go_error + 'b) \<Rightarrow> go_error + 'b" where
  "bind_result r f = (case r of Inl e \<Rightarrow> Inl e | Inr v \<Rightarrow> f v)"

definition start_intercept ::
    "(string \<Rightarrow> json option) \<Rightarrow> string option \<Rightarrow> 's engine \<Rightarrow> intercept_options \<Rightarrow> ('s, go_error + 's intercept) native" where
  "start_intercept parse ctx e opts =
     (case validate_intercept opts of
        Inl err \<Rightarrow> give (Inl err)
      | Inr _ \<Rightarrow>
          and_then (decode_reply ''decode intercept info'' dec_start_response
                      (op_text parse ctx e ''start intercept'' (NStartIntercept (enc_intercept_options opts))))
            (\<lambda>r. give (bind_result r (listener_of e opts))))"

definition intercept_ca_material :: "'s intercept \<Rightarrow> ca_material \<times> bool" where
  "intercept_ca_material i =
     (case in_ca i of None \<Rightarrow> (\<lparr>ca_certPEM = [], ca_keyPEM = []\<rparr>, False) | Some m \<Rightarrow> (m, True))"

section \<open>Rules\<close>

definition enc_rules :: "intercept_rule list option \<Rightarrow> json" where
  "enc_rules rules = (case rules of None \<Rightarrow> JNull | Some rs \<Rightarrow> JArr (map enc_intercept_rule rs))"

definition intercept_stop :: "string option \<Rightarrow> 's intercept \<Rightarrow> ('s, go_error + unit) native" where
  "intercept_stop ctx i = op_rc ctx (in_engine i) ''stop intercept'' NStopIntercept"

definition intercept_add_rules ::
    "string option \<Rightarrow> 's intercept \<Rightarrow> intercept_rule list option \<Rightarrow> ('s, go_error + unit) native" where
  "intercept_add_rules ctx i rules =
     op_rc ctx (in_engine i) ''add intercept rules'' (NInterceptAddRules (enc_rules rules))"

definition intercept_clear_rules :: "string option \<Rightarrow> 's intercept \<Rightarrow> ('s, go_error + unit) native" where
  "intercept_clear_rules ctx i = op_rc ctx (in_engine i) ''clear intercept rules'' NInterceptClear"

definition intercept_list_rules ::
    "(string \<Rightarrow> json option) \<Rightarrow> string option \<Rightarrow> 's intercept \<Rightarrow> ('s, go_error + intercept_rule list) native" where
  "intercept_list_rules parse ctx i =
     decode_reply ''decode intercept rules'' (dec_slice dec_intercept_rule)
       (op_text parse ctx (in_engine i) ''list intercept rules'' NInterceptListRules)"

definition intercept_export_truststore ::
    "string option \<Rightarrow> 's intercept \<Rightarrow> string \<Rightarrow> string \<Rightarrow> string \<Rightarrow> ('s, go_error + unit) native" where
  "intercept_export_truststore ctx i format password outPath =
     op_rc ctx (in_engine i) ''export truststore'' (NInterceptTruststore format password outPath)"

definition intercept_serve :: "string \<Rightarrow> stub_response \<Rightarrow> intercept_rule" where
  "intercept_serve host r =
     intercept_rule_zero\<lparr>il_host := host,
       il_action := \<lparr>ia_serve = Some (case sr_is r of None \<Rightarrow> is_response_zero | Some is \<Rightarrow> is), ia_forward = None\<rparr>\<rparr>"

definition intercept_forward :: "string \<Rightarrow> 16 word \<Rightarrow> intercept_rule" where
  "intercept_forward host port =
     intercept_rule_zero\<lparr>il_host := host,
       il_action := \<lparr>ia_serve = None, ia_forward = Some \<lparr>it_port = port\<rparr>\<rparr>\<rparr>"

section \<open>Trust\<close>

text \<open>The certificate comes bare or as a JSON string.\<close>

definition pem_of_reply :: "payload \<Rightarrow> string" where
  "pem_of_reply raw =
     (case json_unmarshal dec_string_elem raw of
        Inr s \<Rightarrow> if s \<noteq> [] then s else pl_text raw
      | Inl _ \<Rightarrow> pl_text raw)"

definition intercept_ca_cert_pem ::
    "(string \<Rightarrow> json option) \<Rightarrow> string option \<Rightarrow> 's intercept \<Rightarrow> ('s, go_error + string) native" where
  "intercept_ca_cert_pem parse ctx i =
     and_then (op_text parse ctx (in_engine i) ''intercept CA'' NInterceptCAPEM)
       (\<lambda>r. give (bind_result r (\<lambda>raw. Inr (pem_of_reply raw))))"

text \<open>The system's certificates, if they can be read, with the CA's appended.\<close>

definition intercept_tls_config ::
    "(string \<Rightarrow> json option) \<Rightarrow> (string \<Rightarrow> 'cert list) \<Rightarrow> 'cert list option \<Rightarrow> string option \<Rightarrow> 's intercept \<Rightarrow>
     ('s, go_error + 'cert list) native" where
  "intercept_tls_config parse certs system ctx i =
     and_then (intercept_ca_cert_pem parse ctx i)
       (\<lambda>r. give (bind_result r (\<lambda>pem.
          let pool = (case system of None \<Rightarrow> [] | Some roots \<Rightarrow> roots)
          in if certs pem = []
             then Inl (sentinel_msg ErrInvalidDefinition ''the engine's CA PEM could not be parsed'')
             else Inr (pool @ certs pem))))"

section \<open>The proxy URL\<close>

text \<open>The bytes that stay as they are in the user information of a URL.\<close>

definition userinfo_char :: "char \<Rightarrow> bool" where
  "userinfo_char c \<longleftrightarrow> alnum c \<or> c \<in> set ''-_.~$&+,;=''"

definition user_password :: "string \<Rightarrow> string \<Rightarrow> string" where
  "user_password user password = escape userinfo_char user @ '':'' @ escape userinfo_char password @ ''@''"

definition proxy_url :: "(string \<Rightarrow> string + parsed_url) \<Rightarrow> 's intercept \<Rightarrow> parsed_url" where
  "proxy_url url_parse i =
     (let local = \<lparr>pu_scheme = ''http'', pu_userinfo = [], pu_host = ''127.0.0.1:'' @ itoa (ii_port (in_info i)),
                   pu_path = []\<rparr>;
          u = (if ii_url (in_info i) \<noteq> []
               then (case url_parse (ii_url (in_info i)) of Inl _ \<Rightarrow> local | Inr parsed \<Rightarrow> parsed)
               else local)
      in case in_auth i of
           None \<Rightarrow> u
         | Some auth \<Rightarrow> u\<lparr>pu_userinfo := user_password (au_username auth) (au_password auth)\<rparr>)"

text \<open>The proxy and the trusted certificates of \<open>HTTPClient\<close>.\<close>

definition intercept_http_client ::
    "(string \<Rightarrow> string + parsed_url) \<Rightarrow> (string \<Rightarrow> json option) \<Rightarrow> (string \<Rightarrow> 'cert list) \<Rightarrow> 'cert list option \<Rightarrow>
     string option \<Rightarrow> 's intercept \<Rightarrow> ('s, go_error + parsed_url \<times> 'cert list) native" where
  "intercept_http_client url_parse parse certs system ctx i =
     and_then (intercept_tls_config parse certs system ctx i)
       (\<lambda>r. give (bind_result r (\<lambda>roots. Inr (proxy_url url_parse i, roots))))"

section \<open>Texts without secrets\<close>

text \<open>\<open>Redacted\<close>: a password, what follows the first colon of the user information, is replaced.\<close>

definition redact_userinfo :: "string \<Rightarrow> string" where
  "redact_userinfo s =
     (if CHR '':'' \<in> set s then fst (cut_at CHR '':'' s) @ '':xxxxx@'' else s)"

definition redacted :: "parsed_url \<Rightarrow> string" where
  "redacted u = url_string (u\<lparr>pu_userinfo := redact_userinfo (pu_userinfo u)\<rparr>) (pu_path u) []"

definition intercept_auth_string :: "intercept_auth \<Rightarrow> string" where
  "intercept_auth_string a = ''InterceptAuth{Username: '' @ quoted (au_username a) @ '', Password: <redacted>}''"

definition ca_material_string :: "ca_material \<Rightarrow> string" where
  "ca_material_string m =
     ''CAMaterial{CertPEM: '' @ decimal (length (ca_certPEM m)) @ '' bytes, KeyPEM: <redacted>}''"

definition intercept_string :: "(string \<Rightarrow> string + parsed_url) \<Rightarrow> 's intercept \<Rightarrow> string" where
  "intercept_string url_parse i =
     ''Intercept{port: '' @ itoa (ii_port (in_info i)) @ '', url: '' @ redacted (proxy_url url_parse i) @ ''}''"

section \<open>Laws\<close>

text \<open>What the options must satisfy.\<close>

definition ca_source_ok :: "intercept_options \<Rightarrow> bool" where
  "ca_source_ok opts \<longleftrightarrow>
     (ic_caCertPEM opts = [] \<longleftrightarrow> ic_caKeyPEM opts = []) \<and> (ic_caCertPath opts = [] \<longleftrightarrow> ic_caKeyPath opts = []) \<and>
     (if ic_returnCAKey opts then ic_caCertPEM opts = [] \<and> ic_caCertPath opts = []
      else ic_caCertPEM opts = [] \<or> ic_caCertPath opts = [])"

definition auth_ok :: "intercept_options \<Rightarrow> bool" where
  "auth_ok opts \<longleftrightarrow>
     (case ic_auth opts of None \<Rightarrow> True | Some a \<Rightarrow> \<not> blank (au_username a) \<and> \<not> blank (au_password a))"

lemma validate_intercept_iff: "validate_intercept opts = Inr () \<longleftrightarrow> ca_source_ok opts \<and> auth_ok opts"
  by (auto simp: validate_intercept_def ca_pair_def ca_source_ok_def auth_ok_def blank_def split: option.splits)

lemma validate_intercept_Inl: "validate_intercept opts = Inl e \<Longrightarrow> kinds e = {ErrInvalidDefinition}"
  by (auto simp: validate_intercept_def ca_pair_def kinds_wrap split: option.splits if_splits sum.splits)

lemma listener_of_Inl: "listener_of e opts resp = Inl err \<Longrightarrow> kinds err = {ErrInvalidDefinition}"
  by (auto simp: listener_of_def kinds_wrap split: if_splits)

lemma bind_result_classified:
  "classified r \<Longrightarrow> (\<And>v. r = Inr v \<Longrightarrow> classified (f v)) \<Longrightarrow> classified (bind_result r f)"
  by (cases r) (simp_all add: bind_result_def)

lemma then_bind_runs:
  assumes "engine_call e run" and "\<And>v. classified (f v)" and "ready e w"
  shows "\<exists>r w'. and_then run (\<lambda>r. give (bind_result r f)) w = Some (r, w') \<and> same_resources w w' \<and>
    ready e w' \<and> classified r"
  by (rule engine_call.then_pure [OF assms(1) _ assms(3)]) (rule bind_result_classified, use assms(2) in simp_all)

interpretation starting: engine_call e "start_intercept parse ctx e opts" for parse ctx e opts
proof unfold_locales
  fix w assume w: "ready e w"
  have decoded: "engine_call e (decode_reply ''decode intercept info'' dec_start_response
      (op_text parse ctx e ''start intercept'' (NStartIntercept (enc_intercept_options opts))))"
    by unfold_locales (rule decode_reply_runs [OF _ texts.engine_call_axioms])
  have "classified (listener_of e opts resp)" for resp
    by (simp add: classified_def listener_of_Inl)
  from then_bind_runs [OF decoded this w]
  show "\<exists>r w'. start_intercept parse ctx e opts w = Some (r, w') \<and> same_resources w w' \<and> ready e w' \<and> classified r"
    using w by (auto simp: start_intercept_def validate_intercept_Inl split: sum.split)
qed

interpretation listing: engine_call "in_engine i" "intercept_list_rules parse ctx i" for parse ctx i
  unfolding intercept_list_rules_def by unfold_locales (rule decode_reply_runs [OF _ texts.engine_call_axioms])

interpretation ca_cert: engine_call "in_engine i" "intercept_ca_cert_pem parse ctx i" for parse ctx i
  unfolding intercept_ca_cert_pem_def by unfold_locales (rule then_bind_runs [OF texts.engine_call_axioms], simp_all)

interpretation trust: engine_call "in_engine i" "intercept_tls_config parse certs system ctx i" for parse certs system ctx i
  unfolding intercept_tls_config_def
  by unfold_locales (rule then_bind_runs [OF ca_cert.engine_call_axioms], simp_all add: Let_def kinds_wrap)

interpretation http: engine_call "in_engine i" "intercept_http_client url_parse parse certs system ctx i"
  for url_parse parse certs system ctx i
  unfolding intercept_http_client_def by unfold_locales (rule then_bind_runs [OF trust.engine_call_axioms], simp_all)

text \<open>The library is only called with valid options.\<close>

lemma start_intercept_invalid:
  "\<not> (ca_source_ok opts \<and> auth_ok opts) \<Longrightarrow>
   \<exists>err. start_intercept parse ctx e opts w = Some (Inl err, w) \<and> kinds err = {ErrInvalidDefinition}"
  using validate_intercept_iff [of opts] validate_intercept_Inl [of opts]
  by (cases "validate_intercept opts") (auto simp: start_intercept_def)

lemma start_intercept_result:
  assumes "start_intercept parse ctx e opts w = Some (Inr i, w')"
  shows "ii_port (in_info i) \<noteq> 0" and "in_engine i = e" and "in_auth i = ic_auth opts"
    and "in_ca i = Some m \<Longrightarrow> ca_certPEM m \<noteq> [] \<and> ca_keyPEM m \<noteq> []"
proof -
  obtain resp where "listener_of e opts resp = Inr i"
    using assms
    by (auto simp: start_intercept_def and_then_def give_def bind_result_def split: sum.splits option.splits)
  then show "ii_port (in_info i) \<noteq> 0" "in_engine i = e" "in_auth i = ic_auth opts"
    "in_ca i = Some m \<Longrightarrow> ca_certPEM m \<noteq> [] \<and> ca_keyPEM m \<noteq> []"
    by (auto simp: listener_of_def split: if_splits)
qed

text \<open>The user information of the proxy URL is hidden from its first colon on.\<close>

lemma userinfo_no_colon: "CHR '':'' \<notin> set (escape userinfo_char s)"
proof
  assume "CHR '':'' \<in> set (escape userinfo_char s)"
  then have "userinfo_char CHR '':'' \<or> alnum CHR '':''" using escape_chars by fastforce
  moreover have "\<not> userinfo_char CHR '':''" "\<not> alnum CHR '':''" by code_simp+
  ultimately show False by simp
qed

lemma cut_at_prefix: "sep \<notin> set s \<Longrightarrow> cut_at sep (s @ sep # t) = (s, t)"
  by (induction s) (auto simp: cut_at_def)

lemma redact_user_password: "redact_userinfo (user_password user password) = escape userinfo_char user @ '':xxxxx@''"
  using cut_at_prefix [OF userinfo_no_colon] by (simp add: redact_userinfo_def user_password_def)

lemma intercept_string_hides:
  "intercept_string url_parse (i\<lparr>in_auth := Some \<lparr>au_username = user, au_password = p\<rparr>, in_ca := m\<rparr>) =
   intercept_string url_parse (i\<lparr>in_auth := Some \<lparr>au_username = user, au_password = p'\<rparr>, in_ca := m'\<rparr>)"
  by (simp add: intercept_string_def proxy_url_def redacted_def redact_user_password Let_def)

end
