(* ===== verification/Testkit.thy ===== *)
theory Testkit
  imports Engine_Ops Remote Machines
begin

text \<open>
  The test kit (\<open>rifttest/rifttest.go\<close>): the engine shared by the tests of a binary, the imposter a
  test owns, and the assertion with the report it prints.  The clients are parameters: a client is
  the operations a test calls.  How Go prints a value of type \<open>any\<close> and writes a document as text
  are parameters too.
\<close>

section \<open>The shared engine\<close>

text \<open>
  An interface value is nil, or holds a client: one that was supplied, or a pointer to an embedded
  engine, which may itself be nil.
\<close>

datatype ('c, 'e) client_value = NilClient | Supplied 'c | Embedded "'e option"

record ('c, 'e) shared_state =
  sk_eng :: "('c, 'e) client_value"
  sk_err :: "go_error option"
  sk_once :: bool

definition shared_initial :: "('c, 'e) shared_state" where
  "shared_initial = \<lparr>sk_eng = NilClient, sk_err = None, sk_once = False\<rparr>"

record 'c kit_options =
  ko_client :: "'c option"
  ko_libraryPath :: string
  ko_skipIfUnavailable :: bool

datatype 'v outcome = Value 'v | Skipped string | Fatal string | Panics

text \<open>\<open>riftembed.Start\<close> returns a nil pointer with its error; the pointer becomes the interface.\<close>

definition shared_start ::
    "(string \<Rightarrow> go_error + 'e) \<Rightarrow> 'c kit_options \<Rightarrow> ('c, 'e) shared_state \<Rightarrow> ('c, 'e) shared_state" where
  "shared_start launch opts s =
     (if sk_once s then s
      else (case ko_client opts of
              Some c \<Rightarrow> s\<lparr>sk_once := True, sk_eng := Supplied c\<rparr>
            | None \<Rightarrow>
                (case launch (ko_libraryPath opts) of
                   Inl e \<Rightarrow> s\<lparr>sk_once := True, sk_eng := Embedded None, sk_err := Some e\<rparr>
                 | Inr eng \<Rightarrow> s\<lparr>sk_once := True, sk_eng := Embedded (Some eng), sk_err := None\<rparr>)))"

definition shared_engine ::
    "(string \<Rightarrow> go_error + 'e) \<Rightarrow> 'c kit_options \<Rightarrow> ('c, 'e) shared_state \<Rightarrow>
     ('c, 'e) client_value outcome \<times> ('c, 'e) shared_state" where
  "shared_engine launch opts s =
     (let s' = shared_start launch opts s
      in case sk_err s' of
           None \<Rightarrow> (Value (sk_eng s'), s')
         | Some e \<Rightarrow>
             if ko_skipIfUnavailable opts
             then (Skipped (''rifttest: no engine available: '' @ error_text e), s')
             else (Fatal (''rifttest: could not start an engine: '' @ error_text e @ newline @
                     ''  fix: install the native library (see riftembed.LibraryPath), or pass'' @ newline @
                     ''       rifttest.Options{Client: ...} to use a remote or spawned engine''), s'))"

text \<open>
  \<open>Close\<close> of what the interface holds, given what closing a client and an engine return.  The
  method of a nil engine pointer panics at its lock, before the shared variables are reset.
\<close>

definition shared_close ::
    "('c \<Rightarrow> go_error option) \<Rightarrow> ('e \<Rightarrow> go_error option) \<Rightarrow> ('c, 'e) shared_state \<Rightarrow>
     go_error option outcome \<times> ('c, 'e) shared_state" where
  "shared_close close_client close_engine s =
     (case sk_eng s of
        NilClient \<Rightarrow> (Value None, s)
      | Supplied c \<Rightarrow> (Value (close_client c), shared_initial)
      | Embedded (Some e) \<Rightarrow> (Value (close_engine e), shared_initial)
      | Embedded None \<Rightarrow> (Panics, s))"

section \<open>The imposter of a test\<close>

record handle =
  hd_port :: "16 word"
  hd_protocol :: string
  hd_name :: string

definition test_definition :: "imposter \<Rightarrow> imposter" where
  "test_definition i = i\<lparr>imp_recordRequests := True\<rparr>"

definition test_imposter :: "(imposter \<Rightarrow> go_error + 16 word) \<Rightarrow> imposter \<Rightarrow> handle outcome" where
  "test_imposter create i =
     (let def = test_definition i;
          protocol = (if imp_protocol def = [] then ''http'' else imp_protocol def)
      in case create def of
           Inl e \<Rightarrow> Fatal (''rifttest: create imposter '' @ quoted (imp_name def) @ '': '' @ error_text e)
         | Inr port \<Rightarrow> Value \<lparr>hd_port = port, hd_protocol = protocol, hd_name = imp_name def\<rparr>)"

text \<open>What the cleanup reports of the error the deletion returned.\<close>

definition cleanup_report :: "16 word \<Rightarrow> go_error option \<Rightarrow> string option" where
  "cleanup_report port err =
     (case err of
        None \<Rightarrow> None
      | Some e \<Rightarrow>
          if \<not> errors_is e ErrImposterNotFound \<and> \<not> errors_is e ErrClosed
          then Some (''rifttest: delete imposter '' @ itoa port @ '': '' @ error_text e)
          else None)"

text \<open>\<open>BaseURLFor\<close>: a client with a host of its own, the admin-API client, or any other.\<close>

definition client_base_url :: "remote option \<Rightarrow> string \<Rightarrow> 16 word \<Rightarrow> string" where
  "client_base_url c protocol port =
     (case c of Some r \<Rightarrow> base_url_for r protocol port | None \<Rightarrow> base_url protocol port)"

definition handle_url :: "remote option \<Rightarrow> handle \<Rightarrow> string \<Rightarrow> string" where
  "handle_url c h path =
     client_base_url c (hd_protocol h) (hd_port h) @
     (if path \<noteq> [] \<and> \<not> starts_with ''/'' path then ''/'' @ path else path)"

definition handle_recorded ::
    "(16 word \<Rightarrow> go_error + recorded_request list) \<Rightarrow> handle \<Rightarrow> recorded_request list outcome" where
  "handle_recorded recorded h =
     (case recorded (hd_port h) of
        Inl e \<Rightarrow> Fatal (''rifttest: read journal for imposter '' @ itoa (hd_port h) @ '': '' @ error_text e)
      | Inr rs \<Rightarrow> Value rs)"

definition handle_clear_recorded :: "(16 word \<Rightarrow> go_error + unit) \<Rightarrow> handle \<Rightarrow> unit outcome" where
  "handle_clear_recorded clear h =
     (case clear (hd_port h) of
        Inl e \<Rightarrow> Fatal (''rifttest: clear journal for imposter '' @ itoa (hd_port h) @ '': '' @ error_text e)
      | Inr _ \<Rightarrow> Value ())"

definition handle_add_stub_at ::
    "(16 word \<Rightarrow> stub \<Rightarrow> int \<Rightarrow> go_error + unit) \<Rightarrow> handle \<Rightarrow> int \<Rightarrow> stub \<Rightarrow> unit outcome" where
  "handle_add_stub_at add h index st =
     (case add (hd_port h) st index of
        Inl e \<Rightarrow> Fatal (''rifttest: add stub to imposter '' @ itoa (hd_port h) @ '': '' @ error_text e)
      | Inr _ \<Rightarrow> Value ())"

definition handle_add_stub ::
    "(16 word \<Rightarrow> stub \<Rightarrow> int \<Rightarrow> go_error + unit) \<Rightarrow> handle \<Rightarrow> stub \<Rightarrow> unit outcome" where
  "handle_add_stub add h st = handle_add_stub_at add h (-1) st"

definition handle_set_scenario_state ::
    "(16 word \<Rightarrow> string \<Rightarrow> string \<Rightarrow> string \<Rightarrow> go_error + unit) \<Rightarrow> handle \<Rightarrow> string \<Rightarrow> string \<Rightarrow> unit outcome" where
  "handle_set_scenario_state set_state_of h scenario state =
     (case set_state_of (hd_port h) scenario state [] of
        Inl e \<Rightarrow> Fatal (''rifttest: set scenario '' @ quoted scenario @ '' to '' @ quoted state @ '': '' @ error_text e)
      | Inr _ \<Rightarrow> Value ())"

section \<open>The report\<close>

text \<open>How values are printed: a value of type \<open>any\<close>, a map of such values, a document as text.\<close>

record printer =
  pt_any :: "json \<Rightarrow> string"
  pt_map :: "json gomap \<Rightarrow> string"
  pt_json :: "json \<Rightarrow> string"

definition arrow :: string where
  "arrow = [CHR 0xE2, CHR 0x86, CHR 0x92]"

definition ellipsis :: string where
  "ellipsis = [CHR 0xE2, CHR 0x80, CHR 0xA6]"

definition max_body :: nat where
  "max_body = 200"

definition max_shown :: nat where
  "max_shown = 20"

definition truncated_body :: "string \<Rightarrow> string" where
  "truncated_body body = (if length body > max_body then take max_body body @ ellipsis else body)"

definition summarise :: "printer \<Rightarrow> recorded_request \<Rightarrow> string" where
  "summarise pt r =
     rq_method r @ '' '' @ rq_path r @
     (if rq_status r \<noteq> 0 then '' '' @ arrow @ '' '' @ decimal_int (rq_status r) else []) @
     (if rq_query r \<noteq> [] then '' query='' @ pt_map pt (rq_query r) else []) @
     (if rq_headers r \<noteq> [] then '' headers='' @ pt_map pt (rq_headers r) else []) @
     (if rq_body r \<noteq> JNull then '' body='' @ truncated_body (pt_any pt (rq_body r)) else [])"

definition shown_line :: "printer \<Rightarrow> recorded_request \<Rightarrow> string" where
  "shown_line pt r = ''    '' @ summarise pt r @ newline"

fun journal_lines :: "printer \<Rightarrow> nat \<Rightarrow> nat \<Rightarrow> recorded_request list \<Rightarrow> string" where
  "journal_lines pt tot i [] = []"
| "journal_lines pt tot i (r # rs) =
     (if i = max_shown then ''    ... and '' @ decimal (tot - max_shown) @ '' more'' @ newline
      else shown_line pt r @ journal_lines pt tot (Suc i) rs)"

definition failed_clause :: "printer \<Rightarrow> failed_predicate \<Rightarrow> string" where
  "failed_clause pt fp =
     ''    wanted '' @ pt_json pt (enc_predicate (fp_predicate fp)) @ newline @
     ''      actual: '' @ pt_any pt (fp_actual fp) @ newline"

definition closest_block :: "printer \<Rightarrow> closest_match \<Rightarrow> string" where
  "closest_block pt c =
     newline @ ''  closest recorded request:'' @ newline @ ''    '' @ summarise pt (cm_request c) @ newline @
     (case cm_failedPredicates c of
        Some (fp # fps) \<Rightarrow>
          newline @ ''  it failed these clauses:'' @ newline @ concat (map (failed_clause pt) (fp # fps))
      | _ \<Rightarrow> [])"

definition render_failure ::
    "printer \<Rightarrow> predicate list \<Rightarrow> verify_result \<Rightarrow> recorded_request list \<Rightarrow> string" where
  "render_failure pt predicates res journal =
     newline @ ''  expected a request matching:'' @ newline @
     concat (map (\<lambda>p. ''    '' @ pt_json pt (enc_predicate p) @ newline) predicates) @
     (case vr_closest res of None \<Rightarrow> [] | Some c \<Rightarrow> closest_block pt c) @
     (if journal = []
      then newline @ ''  the journal is empty '' @ [CHR 0xE2, CHR 0x80, CHR 0x94] @
           '' the imposter received nothing.'' @ newline @
           ''    check the system under test is pointed at Handle.BaseURL().'' @ newline
      else newline @ ''  journal:'' @ newline @ journal_lines pt (length journal) 0 journal)"

section \<open>The assertion\<close>

text \<open>A test passes the assertion, fails it with a text, or is ended by an error of the client.\<close>

datatype verdict = Passed | Failed string | Ended string

definition assert_request :: "stub \<Rightarrow> verify_request" where
  "assert_request match =
     verify_request_zero\<lparr>vq_predicates := st_predicates match, vq_includeClosest := True\<rparr>"

definition assert_received ::
    "printer \<Rightarrow> (16 word \<Rightarrow> verify_request \<Rightarrow> go_error + verify_result) \<Rightarrow>
     (16 word \<Rightarrow> go_error + recorded_request list) \<Rightarrow> handle \<Rightarrow> stub \<Rightarrow> count_matcher \<Rightarrow> verdict" where
  "assert_received pt verify recorded h match want =
     (case verify (hd_port h) (assert_request match) of
        Inl e \<Rightarrow> Ended (''rifttest: verify against imposter '' @ itoa (hd_port h) @ '': '' @ error_text e)
      | Inr res \<Rightarrow>
          if satisfied want (vr_matched res) then Passed
          else (case handle_recorded recorded h of
                  Value journal \<Rightarrow> Failed
                    (''rifttest: imposter '' @ quoted (hd_name h) @ '' (port '' @ itoa (hd_port h) @ ''): expected '' @
                     count_string want @ '' matching request(s), got '' @ decimal_int (vr_matched res) @ '' of '' @
                     decimal_int (vr_total res) @ '' recorded'' @ newline @
                     render_failure pt (st_predicates match) res journal)
                | Fatal msg \<Rightarrow> Ended msg
                | Skipped msg \<Rightarrow> Ended msg
                | Panics \<Rightarrow> Ended []))"

definition assert_not_received ::
    "printer \<Rightarrow> (16 word \<Rightarrow> verify_request \<Rightarrow> go_error + verify_result) \<Rightarrow>
     (16 word \<Rightarrow> go_error + recorded_request list) \<Rightarrow> handle \<Rightarrow> stub \<Rightarrow> verdict" where
  "assert_not_received pt verify recorded h match = assert_received pt verify recorded h match never"

section \<open>Laws\<close>

text \<open>The journal of a report is cut after twenty requests, and says how many it leaves out.\<close>

lemma journal_lines_eq:
  "i \<le> max_shown \<Longrightarrow> journal_lines pt tot i rs =
     concat (map (shown_line pt) (take (max_shown - i) rs)) @
     (if length rs > max_shown - i then ''    ... and '' @ decimal (tot - max_shown) @ '' more'' @ newline else [])"
proof (induction rs arbitrary: i)
  case (Cons r rs)
  show ?case
  proof (cases "i = max_shown")
    case False
    then obtain k where "max_shown - i = Suc k" "max_shown - Suc i = k" using Cons.prems by (metis Suc_diff_Suc le_neq_implies_less)
    then show ?thesis using Cons.IH [of "Suc i"] Cons.prems False by simp
  qed simp
qed simp

lemma truncated_body_length: "length (truncated_body body) \<le> max_body + 3"
  by (simp add: truncated_body_def ellipsis_def)

text \<open>Whoever got an engine got one that exists.\<close>

definition shared_ok :: "('c, 'e) shared_state \<Rightarrow> bool" where
  "shared_ok s \<longleftrightarrow>
     (sk_once s = (sk_eng s \<noteq> NilClient)) \<and> (sk_err s \<noteq> None \<longleftrightarrow> sk_eng s = Embedded None)"

lemma shared_initial_ok: "shared_ok shared_initial"
  by (simp add: shared_ok_def shared_initial_def)

lemma shared_start_ok: "shared_ok s \<Longrightarrow> shared_ok (shared_start launch opts s)"
  by (auto simp: shared_ok_def shared_start_def split: option.split sum.split)

lemma shared_start_once: "shared_ok s \<Longrightarrow> sk_once (shared_start launch opts s)"
  by (auto simp: shared_start_def split: option.split sum.split)

lemma shared_start_again: "sk_once s \<Longrightarrow> shared_start launch opts s = s"
  by (simp add: shared_start_def)

lemma shared_engine_state: "snd (shared_engine launch opts s) = shared_start launch opts s"
  by (simp add: shared_engine_def Let_def split: option.split)

lemma shared_close_ok: "shared_ok s \<Longrightarrow> shared_ok (snd (shared_close cc ce s))"
  by (auto simp: shared_close_def shared_initial_ok split: client_value.split option.split)

text \<open>Any order of calls.\<close>

datatype 'c kit_call = CallEngine "'c kit_options" | CallClose

inductive kit_step ::
    "(string \<Rightarrow> go_error + 'e) \<Rightarrow> ('c \<Rightarrow> go_error option) \<Rightarrow> ('e \<Rightarrow> go_error option) \<Rightarrow>
     ('c, 'e) shared_state \<Rightarrow> 'c kit_call \<Rightarrow> ('c, 'e) shared_state \<Rightarrow> bool"
  for launch close_client close_engine where
  "kit_step launch close_client close_engine s (CallEngine opts) (snd (shared_engine launch opts s))"
| "kit_step launch close_client close_engine s CallClose (snd (shared_close close_client close_engine s))"

inductive_cases kit_stepE: "kit_step launch close_client close_engine s e s'"

interpretation kit: invariant "\<lambda>s. s = shared_initial" "kit_step launch close_client close_engine" shared_ok
  for launch close_client close_engine
proof unfold_locales
  show "shared_ok s" if "s = shared_initial" for s using that shared_initial_ok by simp
  show "shared_ok s'" if "shared_ok s" "kit_step launch close_client close_engine s e s'" for s e s'
    using that(2) shared_start_ok [OF that(1)] shared_close_ok [OF that(1)]
    by (auto elim!: kit_stepE simp: shared_engine_state)
qed

end
