(* ===== verification/Spawn.thy ===== *)
theory Spawn
  imports Remote Loader Machines
begin

text \<open>
  A managed engine process (\<open>rift/spawn.go\<close>, \<open>rift/process_unix.go\<close>): finding the binary, the
  command line, the wait until the admin API answers, and the shutdown.  What the operating system
  answers is a parameter: the files, the working directory, \<open>PATH\<close>, the free port, the start of
  the command, and what every probe of the child sees.
\<close>

section \<open>The binary\<close>

record machine = host +
  mc_cwd :: "string + string"  \<comment> \<open>or the error of looking it up\<close>
  mc_look_path :: "string \<Rightarrow> string option"

definition path_abs :: "machine \<Rightarrow> string \<Rightarrow> string + string" where
  "path_abs m p =
     (if rooted p then Inr (path_clean p) else map_sum id (\<lambda>d. path_join [d, p]) (mc_cwd m))"

fun first_candidate :: "machine \<Rightarrow> string list \<Rightarrow> (go_error + string) option" where
  "first_candidate m [] = None"
| "first_candidate m (c # cs) =
     (if c = [] then first_candidate m cs
      else Some (case path_abs m c of
                   Inl msg \<Rightarrow> Inl (wrap_invalid ''resolve rift binary path'' (Foreign msg))
                 | Inr p \<Rightarrow>
                     if h_is_file m p then Inr p
                     else Inl (sentinel_msg ErrEngineUnavailable
                            (''rift binary '' @ quoted c @ '' does not exist''))))"

definition binary_names :: "machine \<Rightarrow> string list" where
  "binary_names m =
     (if h_goos m = ''windows'' then [''rift.exe'', ''rift-http-proxy.exe''] else [''rift'', ''rift-http-proxy''])"

definition find_binary :: "machine \<Rightarrow> string \<Rightarrow> go_error + string" where
  "find_binary m explicit =
     (case first_candidate m [explicit, h_getenv m ''RIFT_BINARY''] of
        Some r \<Rightarrow> r
      | None \<Rightarrow>
          (case List.map_filter (mc_look_path m) (binary_names m) of
             found # _ \<Rightarrow> Inr found
           | [] \<Rightarrow> Inl (sentinel_msg ErrEngineUnavailable
               (''no rift binary found on PATH (looked for '' @ comma_list '', '' (binary_names m) @ '')'' @ newline @
                ''  fix: install rift, or set RIFT_BINARY=/path/to/rift''))))"

section \<open>Readiness\<close>

text \<open>Durations and instants are in nanoseconds.\<close>

definition ms :: "int \<Rightarrow> int" where
  "ms n = n * 1000000"

text \<open>
  What one turn of the loop sees: the context's error, the state of a child that has exited, what
  the ping returned and how long it took, and how much longer than asked the sleep lasted.
\<close>

record probe =
  pb_ctx :: "string option"
  pb_exited :: "string option"
  pb_ping :: "go_error option"
  pb_ping_time :: nat
  pb_oversleep :: nat

text \<open>The result comes with the number of pings that were sent.\<close>

partial_function (option) wait_loop ::
    "(nat \<Rightarrow> probe) \<Rightarrow> int \<Rightarrow> string \<Rightarrow> nat \<Rightarrow> int \<Rightarrow> int \<Rightarrow> ((go_error + unit) \<times> nat) option" where
  "wait_loop env deadline timeout i now backoff =
     (case pb_ctx (env i) of
        Some msg \<Rightarrow> Some (Inl (wrap_as ErrEngineUnavailable ''waiting for engine: '' (Foreign msg)), i)
      | None \<Rightarrow>
          (case pb_exited (env i) of
             Some state \<Rightarrow> Some (Inl (sentinel_msg ErrEngineUnavailable
               (''engine exited during startup ('' @ state @ '')'')), i)
           | None \<Rightarrow>
               (case pb_ping (env i) of
                  None \<Rightarrow> Some (Inr (), Suc i)
                | Some e \<Rightarrow>
                    let now1 = now + int (pb_ping_time (env i))
                    in if now1 > deadline
                       then Some (Inl (Wrapped
                              (sentinel_text ErrEngineUnavailable @ '': engine did not become ready within '' @
                               timeout @ '' (last error: '' @ error_text e @ '')'')
                              [Sentinel ErrEngineUnavailable, e]), Suc i)
                       else wait_loop env deadline timeout (Suc i) (now1 + backoff + int (pb_oversleep (env i)))
                              (if backoff < ms 250 then 2 * backoff else backoff))))"

definition wait_ready :: "(nat \<Rightarrow> probe) \<Rightarrow> int \<Rightarrow> string \<Rightarrow> int \<Rightarrow> ((go_error + unit) \<times> nat) option" where
  "wait_ready env now timeout_text timeout = wait_loop env (now + timeout) timeout_text 0 now (ms 10)"

section \<open>Spawn\<close>

record spawn_options =
  sp_binary :: string
  sp_adminPort :: "16 word"
  sp_args :: "string list"
  sp_dir :: string
  sp_env :: "string list option"
  sp_startTimeout :: int
  sp_apiKey :: string

record command =
  cm_path :: string
  cm_args :: "string list"
  cm_dir :: string
  cm_env :: "string list option"

definition spawn_command :: "string \<Rightarrow> 16 word \<Rightarrow> spawn_options \<Rightarrow> command" where
  "spawn_command bin port opts =
     \<lparr>cm_path = bin,
      cm_args = [''--port'', itoa port] @
        (if sp_apiKey opts \<noteq> [] then [''--api-key'', sp_apiKey opts] else []) @ sp_args opts,
      cm_dir = sp_dir opts, cm_env = sp_env opts\<rparr>"

text \<open>What came of it: the command that was started, if any, and whether it was stopped again.\<close>

record spawned =
  sn_started :: "command option"
  sn_stopped :: bool
  sn_result :: "go_error + remote"

definition not_started :: "go_error \<Rightarrow> spawned" where
  "not_started e = \<lparr>sn_started = None, sn_stopped = False, sn_result = Inl e\<rparr>"

definition admin_url :: "16 word \<Rightarrow> string" where
  "admin_url port = ''http://127.0.0.1:'' @ itoa port"

text \<open>What listening on a free port gives, the start of a command, the clock and the text of a duration are parameters.\<close>

record os =
  os_listen :: "string + string + 16 word"  \<comment> \<open>an error, the type of an address that is no TCP address, or a port\<close>
  os_start :: "command \<Rightarrow> string option"  \<comment> \<open>its error\<close>
  os_now :: int
  os_duration :: "int \<Rightarrow> string"
  os_probes :: "nat \<Rightarrow> probe"

definition free_port :: "os \<Rightarrow> go_error + 16 word" where
  "free_port env =
     (case os_listen env of
        Inl msg \<Rightarrow> Inl (wrap_as ErrEngineUnavailable ''reserve an admin port: '' (Foreign msg))
      | Inr (Inl kind) \<Rightarrow> Inl (sentinel_msg ErrEngineUnavailable (''unexpected listener address type '' @ kind))
      | Inr (Inr port) \<Rightarrow> Inr port)"

definition start_timeout :: "spawn_options \<Rightarrow> int" where
  "start_timeout opts = (if sp_startTimeout opts = 0 then ms 20000 else sp_startTimeout opts)"

definition run_command ::
    "(string \<Rightarrow> string + parsed_url) \<Rightarrow> os \<Rightarrow> spawn_options \<Rightarrow> 16 word \<Rightarrow> command \<Rightarrow> spawned option" where
  "run_command url_parse env opts port cmd =
     (case os_start env cmd of
        Some msg \<Rightarrow> Some (not_started (wrap_as ErrEngineUnavailable (''start '' @ cm_path cmd @ '': '') (Foreign msg)))
      | None \<Rightarrow>
          (case connect url_parse (admin_url port) (sp_apiKey opts) ''127.0.0.1'' of
             Inl e \<Rightarrow> Some \<lparr>sn_started = Some cmd, sn_stopped = True, sn_result = Inl e\<rparr>
           | Inr r \<Rightarrow>
               map_option (\<lambda>(ready, pings).
                  (case ready of
                     Inl e \<Rightarrow> \<lparr>sn_started = Some cmd, sn_stopped = True, sn_result = Inl e\<rparr>
                   | Inr _ \<Rightarrow> \<lparr>sn_started = Some cmd, sn_stopped = False, sn_result = Inr r\<rparr>))
                 (wait_ready (os_probes env) (os_now env) (os_duration env (start_timeout opts)) (start_timeout opts))))"

definition spawn :: "machine \<Rightarrow> (string \<Rightarrow> string + parsed_url) \<Rightarrow> os \<Rightarrow> spawn_options \<Rightarrow> spawned option" where
  "spawn m url_parse env opts =
     (case check_api_key (sp_apiKey opts) of
        Inl e \<Rightarrow> Some (not_started e)
      | Inr _ \<Rightarrow>
          (case find_binary m (sp_binary opts) of
             Inl e \<Rightarrow> Some (not_started e)
           | Inr bin \<Rightarrow>
               (case (if sp_adminPort opts = 0 then free_port env else Inr (sp_adminPort opts)) of
                  Inl e \<Rightarrow> Some (not_started e)
                | Inr port \<Rightarrow> run_command url_parse env opts port (spawn_command bin port opts))))"

section \<open>Laws of the loop\<close>

text \<open>How far the doubling back-off is behind one that waits 320 ms from the start.\<close>

definition lag :: "int \<Rightarrow> int \<Rightarrow> bool" where
  "lag backoff d \<longleftrightarrow> (backoff, d) \<in>
     {(ms 10, ms 1290), (ms 20, ms 980), (ms 40, ms 680), (ms 80, ms 400), (ms 160, ms 160), (ms 320, 0)}"

lemma lag_step:
  assumes "lag backoff d"
  shows "\<exists>d'. lag (if backoff < ms 250 then 2 * backoff else backoff) d' \<and> d' + ms 320 = d + backoff"
    and "0 < backoff" and "0 \<le> d"
  using assms by (auto simp: lag_def ms_def)

text \<open>A classified error, or readiness on the word of the last ping.\<close>

definition verdict :: "(nat \<Rightarrow> probe) \<Rightarrow> go_error + unit \<Rightarrow> nat \<Rightarrow> bool" where
  "verdict env r k \<longleftrightarrow> classified r \<and>
     (r = Inr () \<longrightarrow> 0 < k \<and> pb_ping (env (k - 1)) = None \<and> pb_exited (env (k - 1)) = None)"

text \<open>One turn: it is the last one, or the loop goes on before the deadline.\<close>

lemma wait_loop_turn:
  obtains (last) r k where "wait_loop env deadline timeout i now backoff = Some (r, k)" "k \<le> Suc i" "verdict env r k"
  | (again) now' where "wait_loop env deadline timeout i now backoff =
      wait_loop env deadline timeout (Suc i) now' (if backoff < ms 250 then 2 * backoff else backoff)"
    "now + backoff \<le> now'" "now \<le> deadline"
proof -
  let ?now1 = "now + int (pb_ping_time (env i))"
  consider msg where "pb_ctx (env i) = Some msg"
    | st where "pb_ctx (env i) = None" "pb_exited (env i) = Some st"
    | "pb_ctx (env i) = None" "pb_exited (env i) = None" "pb_ping (env i) = None"
    | e where "pb_ctx (env i) = None" "pb_exited (env i) = None" "pb_ping (env i) = Some e" "?now1 > deadline"
    | e where "pb_ctx (env i) = None" "pb_exited (env i) = None" "pb_ping (env i) = Some e" "\<not> ?now1 > deadline"
    by (metis option.exhaust_sel)
  then show thesis
  proof cases
    case 1
    then show thesis by (intro last) (subst wait_loop.simps, auto simp: verdict_def kinds_wrap)
  next
    case 2
    then show thesis by (intro last) (subst wait_loop.simps, auto simp: verdict_def kinds_wrap)
  next
    case 3
    then show thesis by (intro last) (subst wait_loop.simps, auto simp: verdict_def)
  next
    case 4
    then show thesis by (intro last) (subst wait_loop.simps, auto simp: verdict_def Let_def)
  next
    case 5
    then show thesis
      by (intro again [of "?now1 + backoff + int (pb_oversleep (env i))"]) (subst wait_loop.simps, simp_all add: Let_def)
  qed
qed

lemma wait_loop_late:
  assumes "deadline < now"
  shows "\<exists>r k. wait_loop env deadline timeout i now backoff = Some (r, k) \<and> k \<le> Suc i \<and> verdict env r k"
  by (rule wait_loop_turn [of env deadline timeout i now backoff]) (use assms in auto)

text \<open>\<open>room\<close> counts the turns that still fit before the deadline.\<close>

definition room :: "int \<Rightarrow> int \<Rightarrow> int \<Rightarrow> nat" where
  "room deadline now d = nat ((deadline - now + d) div ms 320)"

lemma wait_loop_bounded:
  assumes "lag backoff d" and "now \<le> deadline"
  shows "\<exists>r k. wait_loop env deadline timeout i now backoff = Some (r, k) \<and>
    k \<le> i + room deadline now d + 2 \<and> verdict env r k"
  using assms
proof (induction "room deadline now d" arbitrary: i now backoff d rule: less_induct)
  case less
  show ?case
  proof (rule wait_loop_turn [of env deadline timeout i now backoff])
    fix now'
    let ?b = "if backoff < ms 250 then 2 * backoff else backoff"
    assume again: "wait_loop env deadline timeout i now backoff = wait_loop env deadline timeout (Suc i) now' ?b"
      "now + backoff \<le> now'"
    obtain d' where d': "lag ?b d'" "d' + ms 320 = d + backoff" using lag_step(1) [OF less.prems(1)] by blast
    show ?case
    proof (cases "deadline < now'")
      case True
      then show ?thesis unfolding again(1) using wait_loop_late [OF True] by force
    next
      case False
      have d'_nn: "0 \<le> d'" by (rule lag_step(3) [OF d'(1)])
      have "deadline - now' + d' + ms 320 \<le> deadline - now + d" using d'(2) again(2) by simp
      then have "(deadline - now' + d') div ms 320 + 1 \<le> (deadline - now + d) div ms 320"
        by (simp add: ms_def)
      moreover have "0 \<le> (deadline - now' + d') div ms 320"
        using False d'_nn by (simp add: ms_def pos_imp_zdiv_nonneg_iff)
      ultimately have "Suc (room deadline now' d') \<le> room deadline now d" by (simp add: room_def)
      then show ?thesis
        unfolding again(1) using less.hyps [OF _ d'(1), of now' "Suc i"] False by force
    qed
  next
    fix r k
    assume "wait_loop env deadline timeout i now backoff = Some (r, k)" "k \<le> Suc i" "verdict env r k"
    then show ?case by force
  qed
qed

text \<open>A start timeout that is not negative bounds the pings.\<close>

lemma wait_ready_bounded:
  assumes "0 \<le> timeout"
  shows "\<exists>r k. wait_ready env now shown timeout = Some (r, k) \<and>
    k \<le> nat ((timeout + ms 1290) div ms 320) + 2 \<and> verdict env r k"
proof -
  have "lag (ms 10) (ms 1290)" by (simp add: lag_def)
  from wait_loop_bounded [OF this, of now "now + timeout" env shown 0] assms show ?thesis
    by (simp add: wait_ready_def room_def)
qed

lemma wait_ready_returns: "\<exists>r k. wait_ready env now shown timeout = Some (r, k) \<and> verdict env r k"
  using wait_ready_bounded [of timeout] wait_loop_late [of "now + timeout" now]
  by (cases "0 \<le> timeout") (force simp: wait_ready_def)+

section \<open>Laws of Spawn\<close>

lemma first_candidate_spec:
  "first_candidate m cs = None \<longleftrightarrow> (\<forall>c \<in> set cs. c = [])"
  by (induction cs) auto

lemma find_binary_Inl: "find_binary m c = Inl e \<Longrightarrow> kinds e \<noteq> {}"
  by (auto simp: find_binary_def kinds_wrap split: option.splits sum.splits list.splits if_splits)

lemma free_port_Inl: "free_port env = Inl e \<Longrightarrow> kinds e \<noteq> {}"
  by (auto simp: free_port_def kinds_wrap split: sum.splits)

lemma check_api_key_Inl: "check_api_key key = Inl e \<Longrightarrow> kinds e = {ErrInvalidDefinition}"
  by (auto simp: check_api_key_def kinds_wrap split: if_splits)

lemma connect_Inl: "connect url_parse url key host = Inl e \<Longrightarrow> kinds e \<noteq> {}"
  by (auto simp: connect_def kinds_wrap check_api_key_Inl split: sum.splits if_splits)

lemma connect_Inr:
  "connect url_parse url key host = Inr r \<Longrightarrow> rm_apiKey r = key \<and> (host \<noteq> [] \<longrightarrow> rm_host r = host)"
  by (auto simp: connect_def split: sum.splits if_splits)

text \<open>A spawn that fails leaves no child; one that succeeds has a client for the child it started.\<close>

definition spawned_ok :: "os \<Rightarrow> spawn_options \<Rightarrow> spawned \<Rightarrow> bool" where
  "spawned_ok env opts out \<longleftrightarrow>
     (case sn_result out of
        Inl e \<Rightarrow> kinds e \<noteq> {} \<and> (sn_started out \<noteq> None \<longrightarrow> sn_stopped out)
      | Inr r \<Rightarrow> sn_started out \<noteq> None \<and> \<not> sn_stopped out \<and> rm_apiKey r = sp_apiKey opts \<and>
          rm_host r = ''127.0.0.1'' \<and> (\<exists>i. pb_ping (os_probes env i) = None \<and> pb_exited (os_probes env i) = None))"

lemma run_command_ok:
  "\<exists>out. run_command url_parse env opts port cmd = Some out \<and> spawned_ok env opts out \<and>
     (sn_started out = None \<or> sn_started out = Some cmd)"
proof (cases "os_start env cmd")
  case (Some msg)
  then show ?thesis by (simp add: run_command_def spawned_ok_def not_started_def kinds_wrap)
next
  case None
  note running = None
  show ?thesis
  proof (cases "connect url_parse (admin_url port) (sp_apiKey opts) ''127.0.0.1''")
    case (Inl e)
    then show ?thesis using running connect_Inl [OF Inl] by (simp add: run_command_def spawned_ok_def)
  next
    case (Inr r)
    obtain v k where wait: "wait_ready (os_probes env) (os_now env) (os_duration env (start_timeout opts))
        (start_timeout opts) = Some (v, k)" "verdict (os_probes env) v k"
      using wait_ready_returns by blast
    then show ?thesis
      using running Inr connect_Inr [OF Inr]
      by (cases v) (auto simp: run_command_def spawned_ok_def verdict_def)
  qed
qed

lemma spawn_ok:
  "\<exists>out. spawn m url_parse env opts = Some out \<and> spawned_ok env opts out \<and>
     (\<forall>cmd. sn_started out = Some cmd \<longrightarrow>
        (\<exists>bin port. find_binary m (sp_binary opts) = Inr bin \<and> cmd = spawn_command bin port opts \<and>
           (sp_adminPort opts \<noteq> 0 \<longrightarrow> port = sp_adminPort opts)))"
proof -
  have failed: "spawned_ok env opts (not_started e) \<and> sn_started (not_started e) = None" if "kinds e \<noteq> {}" for e
    using that by (simp add: spawned_ok_def not_started_def)
  show ?thesis
  proof (cases "check_api_key (sp_apiKey opts)")
    case (Inl e)
    then show ?thesis using failed [of e] check_api_key_Inl [OF Inl] by (simp add: spawn_def)
  next
    case (Inr u)
    note key = Inr
    show ?thesis
    proof (cases "find_binary m (sp_binary opts)")
      case (Inl e)
      then show ?thesis using key failed [of e] find_binary_Inl [OF Inl] by (simp add: spawn_def)
    next
      case (Inr bin)
      note bin = Inr
      let ?port = "if sp_adminPort opts = 0 then free_port env else Inr (sp_adminPort opts)"
      show ?thesis
      proof (cases ?port)
        case (Inl e)
        then show ?thesis
          using key bin failed [of e] free_port_Inl [of env e] by (auto simp: spawn_def split: if_splits)
      next
        case (Inr port)
        obtain out where out: "run_command url_parse env opts port (spawn_command bin port opts) = Some out"
          "spawned_ok env opts out" "sn_started out = None \<or> sn_started out = Some (spawn_command bin port opts)"
          using run_command_ok by blast
        moreover have "spawn m url_parse env opts = Some out" using key bin Inr out(1) by (simp add: spawn_def)
        moreover have "sp_adminPort opts \<noteq> 0 \<longrightarrow> port = sp_adminPort opts" using Inr by auto
        ultimately show ?thesis using bin by fastforce
      qed
    qed
  qed
qed

end
