(* ===== verification/Conformance.thy ===== *)
theory Conformance
  imports Spawn
begin

text \<open>
  The conformance corpus (\<open>conformance/corpus.go\<close>): finding and loading it, reading a fixture with
  its relative file references made absolute, and the capabilities a fixture requires.  The content
  of files and the JSON parser are parameters.
\<close>

section \<open>The manifest\<close>

definition req_bool :: "bool vcodec" where
  "req_bool = omit_bool\<lparr>vc_enc := (\<lambda>b. Some (JBool b))\<rparr>"

record fixture =
  fx_file :: string
  fx_port :: "16 word"
  fx_name :: string
  fx_requires :: "string list option"
  fx_hasVerify :: bool

definition fixture_fields :: "fixture field list" where
  "fixture_fields =
     [mk_field ''file'' req_string fx_file fx_file_update,
      mk_field ''port'' req_u16 fx_port fx_port_update,
      mk_field ''name'' req_string fx_name fx_name_update,
      mk_field ''requires'' (req_slice JStr dec_string_elem) fx_requires fx_requires_update,
      mk_field ''hasVerify'' req_bool fx_hasVerify fx_hasVerify_update]"

definition dec_fixture :: "json \<Rightarrow> fixture option" where
  "dec_fixture j = dec_struct fixture_fields j
     \<lparr>fx_file = [], fx_port = 0, fx_name = [], fx_requires = None, fx_hasVerify = False\<rparr>"

record corpus_manifest =
  cn_schemaVersion :: int
  cn_engineVersion :: string
  cn_fixtures :: "fixture list option"

definition corpus_manifest_fields :: "corpus_manifest field list" where
  "corpus_manifest_fields =
     [mk_field ''schemaVersion'' req_int cn_schemaVersion cn_schemaVersion_update,
      mk_field ''engineVersion'' req_string cn_engineVersion cn_engineVersion_update,
      mk_field ''fixtures'' (req_slice (enc_struct fixture_fields) dec_fixture) cn_fixtures cn_fixtures_update]"

definition dec_corpus_manifest :: "json \<Rightarrow> corpus_manifest option" where
  "dec_corpus_manifest j = dec_struct corpus_manifest_fields j
     \<lparr>cn_schemaVersion = 0, cn_engineVersion = [], cn_fixtures = None\<rparr>"

section \<open>The transcript of a fixture\<close>

record step_request =
  tr_method :: string
  tr_path :: string
  tr_headers :: "string gomap"
  tr_body :: json

definition step_request_fields :: "step_request field list" where
  "step_request_fields =
     [mk_field ''method'' req_string tr_method tr_method_update,
      mk_field ''path'' req_string tr_path tr_path_update,
      mk_field ''headers'' omit_string_map tr_headers tr_headers_update,
      mk_field ''body'' req_any tr_body tr_body_update]"

record step_expect =
  te_status :: int
  te_bodyContains :: string

definition step_expect_fields :: "step_expect field list" where
  "step_expect_fields =
     [mk_field ''status'' req_int te_status te_status_update,
      mk_field ''bodyContains'' req_string te_bodyContains te_bodyContains_update]"

record verify_step =
  ts_request :: step_request
  ts_expect :: step_expect

definition verify_step_zero :: verify_step where
  "verify_step_zero =
     \<lparr>ts_request = \<lparr>tr_method = [], tr_path = [], tr_headers = [], tr_body = JNull\<rparr>,
      ts_expect = \<lparr>te_status = 0, te_bodyContains = []\<rparr>\<rparr>"

definition verify_step_fields :: "verify_step field list" where
  "verify_step_fields =
     [mk_field ''request'' (req_struct step_request_fields (ts_request verify_step_zero))
        ts_request ts_request_update,
      mk_field ''expect'' (req_struct step_expect_fields (ts_expect verify_step_zero))
        ts_expect ts_expect_update]"

text \<open>A transcript is decoded only.\<close>

definition transcript_fields :: "verify_step list option field list" where
  "transcript_fields =
     [mk_field ''sequence''
        (req_slice (enc_struct verify_step_fields) (\<lambda>j. dec_struct verify_step_fields j verify_step_zero))
        (\<lambda>steps. steps) (\<lambda>g steps. g steps)]"

definition dec_transcript :: "json \<Rightarrow> verify_step list option option" where
  "dec_transcript j = dec_struct transcript_fields j None"

section \<open>Loading\<close>

record corpus =
  co_root :: string
  co_manifest :: corpus_manifest

definition plain_error :: "string \<Rightarrow> go_error" where
  "plain_error msg = Wrapped msg []"

definition wrapped_error :: "string \<Rightarrow> go_error \<Rightarrow> go_error" where
  "wrapped_error msg e = Wrapped (msg @ '': '' @ error_text e) [e]"

text \<open>\<open>path_abs\<close> of the candidates, in order; the paths looked at are reported.\<close>

fun locate_among :: "machine \<Rightarrow> string list \<Rightarrow> string list + string" where
  "locate_among m [] = Inl []"
| "locate_among m (c # cs) =
     (if c = [] then locate_among m cs
      else (case path_abs m c of
              Inl _ \<Rightarrow> locate_among m cs
            | Inr p \<Rightarrow>
                if h_is_file m (path_join [p, ''manifest.json'']) then Inr p
                else map_sum (Cons p) id (locate_among m cs)))"

definition corpus_candidates :: "machine \<Rightarrow> string \<Rightarrow> string list" where
  "corpus_candidates m explicit =
     [explicit, h_getenv m ''RIFT_CORPUS_DIR'', path_join [''..'', ''..'', ''rift'', ''sdk-conformance''],
      path_join [''..'', ''sdk-conformance'']]"

definition locate :: "machine \<Rightarrow> string \<Rightarrow> go_error + string" where
  "locate m explicit =
     map_sum (\<lambda>tried. plain_error
         (''no sdk-conformance corpus found'' @ newline @
          ''  fix: set RIFT_CORPUS_DIR to an extracted sdk-conformance-<version>/'' @ newline @
          ''  searched:'' @ newline @ ''    '' @ comma_list (newline @ ''    '') tried)) id
       (locate_among m (corpus_candidates m explicit))"

text \<open>A file that can be read is the document it parses to, with its text.\<close>

definition load :: "machine \<Rightarrow> (string \<Rightarrow> string + payload) \<Rightarrow> string \<Rightarrow> go_error + corpus" where
  "load m read_file explicit =
     (case locate m explicit of
        Inl e \<Rightarrow> Inl e
      | Inr root \<Rightarrow>
          (case read_file (path_join [root, ''manifest.json'']) of
             Inl msg \<Rightarrow> Inl (wrapped_error ''read corpus manifest'' (Foreign msg))
           | Inr raw \<Rightarrow>
               (case json_unmarshal dec_corpus_manifest raw of
                  Inl e \<Rightarrow> Inl (wrapped_error ''parse corpus manifest'' e)
                | Inr mf \<Rightarrow>
                    if cn_schemaVersion mf \<noteq> 1
                    then Inl (plain_error (''corpus schemaVersion '' @ decimal_int (cn_schemaVersion mf) @
                           '' is not supported (this SDK understands 1)''))
                    else Inr \<lparr>co_root = root, co_manifest = mf\<rparr>)))"

section \<open>Fixtures\<close>

definition corpus_relative :: "string \<Rightarrow> bool" where
  "corpus_relative t \<longleftrightarrow> starts_with ''data/'' t \<or> starts_with ''fixtures/'' t"

text \<open>Object members keep their names.\<close>

fun absolutise :: "string \<Rightarrow> json \<Rightarrow> json" where
  "absolutise dir (JObj kvs) = JObj (map (\<lambda>kv. (fst kv, absolutise dir (snd kv))) kvs)"
| "absolutise dir (JArr js) = JArr (map (absolutise dir) js)"
| "absolutise dir (JStr t) = (if corpus_relative t then JStr (path_join [dir, t]) else JStr t)"
| "absolutise dir j = j"

definition corpus_dir :: "corpus \<Rightarrow> string" where
  "corpus_dir c = path_join [co_root c, ''corpus'']"

definition read_fixture :: "(string \<Rightarrow> string + payload) \<Rightarrow> corpus \<Rightarrow> fixture \<Rightarrow> go_error + json" where
  "read_fixture read_file c f =
     (case read_file (path_join [co_root c, fx_file f]) of
        Inl msg \<Rightarrow> Inl (wrapped_error (''read fixture '' @ fx_file f) (Foreign msg))
      | Inr raw \<Rightarrow>
          (case json_unmarshal go_any raw of
             Inl e \<Rightarrow> Inl (wrapped_error (''parse fixture '' @ fx_file f) e)
           | Inr doc \<Rightarrow> Inr (absolutise (corpus_dir c) doc)))"

text \<open>A capability that is absent or false is missing.\<close>

definition missing :: "bool gomap \<Rightarrow> fixture \<Rightarrow> string list" where
  "missing caps f =
     filter (\<lambda>r. gm_get caps r \<noteq> Some True) (case fx_requires f of None \<Rightarrow> [] | Some rs \<Rightarrow> rs)"

section \<open>Laws\<close>

lemma rooted_path_join: "rooted d \<Longrightarrow> rooted (path_join (d # es))"
proof -
  assume d: "rooted d"
  then have ne: "d \<noteq> []" by (auto simp: rooted_def)
  have "rooted (join_slash (d # es))"
    using d by (cases es) (auto simp: rooted_def starts_with_iff)
  then show ?thesis using ne by (simp add: path_join_def rooted_clean)
qed

lemma rooted_not_relative: "rooted p \<Longrightarrow> \<not> corpus_relative p"
  by (auto simp: rooted_def corpus_relative_def starts_with_iff)

text \<open>No string of a document, at any depth, is a reference relative to the corpus.\<close>

fun no_relative :: "json \<Rightarrow> bool" where
  "no_relative (JObj kvs) = list_all (\<lambda>kv. no_relative (snd kv)) kvs"
| "no_relative (JArr js) = list_all no_relative js"
| "no_relative (JStr t) = (\<not> corpus_relative t)"
| "no_relative j = True"

lemma absolutise_no_relative: "rooted dir \<Longrightarrow> no_relative (absolutise dir j)"
  by (induction dir j rule: absolutise.induct)
    (auto simp: list_all_iff rooted_not_relative rooted_path_join)

lemma absolutise_id: "no_relative j \<Longrightarrow> absolutise dir j = j"
  by (induction dir j rule: absolutise.induct) (auto simp: list_all_iff intro!: map_idI)

lemma map_sum_Inr: "map_sum f id r = Inr p \<longleftrightarrow> r = Inr p"
  by (cases r) simp_all

lemma locate_among_Inr:
  "locate_among m cs = Inr p \<Longrightarrow>
     h_is_file m (path_join [p, ''manifest.json'']) \<and> (\<exists>c \<in> set cs. c \<noteq> [] \<and> path_abs m c = Inr p)"
  by (induction cs) (auto simp: map_sum_Inr split: if_splits sum.splits)

lemma path_abs_rooted:
  "path_abs m c = Inr p \<Longrightarrow> (\<And>d. mc_cwd m = Inr d \<Longrightarrow> rooted d) \<Longrightarrow> rooted p"
  by (cases "mc_cwd m") (auto simp: path_abs_def rooted_clean rooted_path_join split: if_splits)

lemma load_rooted:
  assumes "load m read_file explicit = Inr c" and "\<And>d. mc_cwd m = Inr d \<Longrightarrow> rooted d"
  shows "rooted (co_root c)" and "rooted (corpus_dir c)"
proof -
  obtain root where root: "locate m explicit = Inr root" "co_root c = root"
    using assms(1) by (auto simp: load_def split: sum.splits if_splits)
  then have "locate_among m (corpus_candidates m explicit) = Inr root"
    by (cases "locate_among m (corpus_candidates m explicit)") (auto simp: locate_def)
  then obtain cand where "path_abs m cand = Inr root" using locate_among_Inr by blast
  then show "rooted (co_root c)" using path_abs_rooted [OF _ assms(2)] root(2) by simp
  then show "rooted (corpus_dir c)" by (simp add: corpus_dir_def rooted_path_join)
qed

end
