(* ===== verification/Decoding.thy ===== *)
theory Decoding
  imports ModelLaws
begin

text \<open>
  What decoding produces: a document in which no member name is a case variant of a field's name
  decodes, if at all, to a well-formed value, so decoding, encoding and decoding again gives the
  same value.  The contracts are \<open>typed_value\<close> and \<open>typed_doc\<close>, interpreted at every codec and struct of
  a configuration.
\<close>

named_theorems codec_typed "codecs that decode to well-formed values"

section \<open>Contracts\<close>

text \<open>Of the old value and the document, decoding makes a well-formed value.\<close>

locale typed_value =
  fixes c :: "'v vcodec" and valid :: "'v \<Rightarrow> bool" and ok :: "json \<Rightarrow> bool"
  assumes dec_valid: "valid old \<Longrightarrow> ok j \<Longrightarrow> vc_dec c old j = Some v \<Longrightarrow> valid v"

locale typed_doc =
  fixes d :: "json \<Rightarrow> 'a option" and valid :: "'a \<Rightarrow> bool" and ok :: "json \<Rightarrow> bool"
  assumes doc_valid: "ok j \<Longrightarrow> d j = Some v \<Longrightarrow> valid v"
    and elements: "ok (JArr js) \<Longrightarrow> list_all ok js"
begin

lemma traverse_valid: "list_all ok js \<Longrightarrow> traverse d js = Some vs \<Longrightarrow> list_all valid vs"
  by (induction js arbitrary: vs) (auto simp: doc_valid split: option.splits)

lemma elements_valid: "ok (JArr js) \<Longrightarrow> traverse d js = Some vs \<Longrightarrow> list_all valid vs"
  by (rule traverse_valid [OF elements])

lemma typed_slice: "typed_value (omit_slice e d) (list_all valid) ok"
  by unfold_locales (auto simp: omit_slice_def dest: elements_valid split: json.splits)

lemma typed_rslice: "typed_value (req_slice e d) (pred_option (list_all valid)) ok"
  by unfold_locales (auto simp: req_slice_def dest: elements_valid split: json.splits)

lemma typed_ptr: "typed_value (omit_ptr e d) (pred_option valid) ok"
  by unfold_locales (auto simp: omit_ptr_def doc_valid split: if_splits)

end

section \<open>Codecs\<close>

interpretation typed_string: typed_value omit_string "\<lambda>_. True" "\<lambda>_. True" by unfold_locales simp
interpretation typed_req_string: typed_value req_string "\<lambda>_. True" "\<lambda>_. True" by unfold_locales simp
interpretation typed_bool: typed_value omit_bool "\<lambda>_. True" "\<lambda>_. True" by unfold_locales simp
interpretation typed_u16: typed_value omit_u16 "\<lambda>_. True" "\<lambda>_. True" by unfold_locales simp
interpretation typed_req_u16: typed_value req_u16 "\<lambda>_. True" "\<lambda>_. True" by unfold_locales simp
interpretation typed_bool_ptr: typed_value omit_bool_ptr "\<lambda>_. True" "\<lambda>_. True" by unfold_locales simp
interpretation typed_u64_ptr: typed_value omit_u64_ptr "\<lambda>_. True" "\<lambda>_. True" by unfold_locales simp

interpretation typed_int: typed_value omit_int go_int "\<lambda>_. True"
  by unfold_locales (auto simp: omit_int_def split: json.splits if_splits)

interpretation typed_any: typed_value omit_any canonical "\<lambda>_. True"
  by unfold_locales (auto simp: omit_any_def dest: go_any_is_canonical)

lemma go_any_members_map_ok: "go_any_members kvs = Some m \<Longrightarrow> map_ok m"
  using go_any_is_canonical [of "JObj kvs" "JObj m"] by (simp add: go_any_JObj map_ok_def del: go_any.simps)

lemma map_ok_merge: "map_ok m \<Longrightarrow> map_ok old \<Longrightarrow> map_ok (gm_put_all m old)"
  using set_gm_put_all [of m old] by (auto simp: map_ok_def list_all_iff)

interpretation typed_map: typed_value omit_map map_ok "\<lambda>_. True"
proof unfold_locales
  show "map_ok v" if "map_ok old" "vc_dec omit_map old j = Some v" for old j v
    using that by (auto simp: omit_map_def map_ok_merge go_any_members_map_ok split: json.splits)
qed

interpretation typed_string_map: typed_value omit_string_map gm_ok "\<lambda>_. True"
  by unfold_locales (auto simp: omit_string_map_def split: json.splits)

interpretation any_doc: typed_doc go_any canonical "\<lambda>_. True"
  by unfold_locales (simp_all add: go_any_is_canonical list_all_iff)

declare typed_string.typed_value_axioms [codec_typed] typed_req_string.typed_value_axioms [codec_typed]
  typed_bool.typed_value_axioms [codec_typed] typed_u16.typed_value_axioms [codec_typed]
  typed_req_u16.typed_value_axioms [codec_typed] typed_bool_ptr.typed_value_axioms [codec_typed]
  typed_u64_ptr.typed_value_axioms [codec_typed] typed_int.typed_value_axioms [codec_typed]
  typed_any.typed_value_axioms [codec_typed] typed_map.typed_value_axioms [codec_typed]
  typed_string_map.typed_value_axioms [codec_typed] any_doc.typed_slice [codec_typed]

section \<open>Tables\<close>

text \<open>A field keeps a struct well formed, given what is known of the member it reads.\<close>

definition field_typed :: "('r \<Rightarrow> bool) \<Rightarrow> (json \<Rightarrow> bool) \<Rightarrow> 'r field \<Rightarrow> bool" where
  "field_typed valid ok f \<longleftrightarrow> (\<forall>j s s'. valid s \<longrightarrow> ok j \<longrightarrow> fdec f j s = Some s' \<longrightarrow> valid s')"

lemma field_typedI:
  assumes "typed_value c P ok"
    and "\<And>s. valid s \<Longrightarrow> P (get s)"
    and "\<And>s v. valid s \<Longrightarrow> P v \<Longrightarrow> valid (upd (\<lambda>_. v) s)"
    and "\<And>j. mem j \<Longrightarrow> ok j"
  shows "field_typed valid mem (mk_field n c get upd)"
  unfolding field_typed_def mk_field_simps
proof (intro allI impI)
  fix j s s'
  assume s: "valid s" and j: "mem j" and "map_option (\<lambda>v. upd (\<lambda>_. v) s) (vc_dec c (get s) j) = Some s'"
  then obtain v where "vc_dec c (get s) j = Some v" and s': "s' = upd (\<lambda>_. v) s" by auto
  then have "P v" using typed_value.dec_valid [OF assms(1) assms(2) [OF s] assms(4) [OF j]] by simp
  then show "valid s'" unfolding s' by (rule assms(3) [OF s])
qed

text \<open>
  A document is spelled for a table when no member is a case variant of a field's name and the
  members satisfy what their names ask of them.
\<close>

definition spelled :: "string list \<Rightarrow> (string \<Rightarrow> json \<Rightarrow> bool) \<Rightarrow> json \<Rightarrow> bool" where
  "spelled names mem j \<longleftrightarrow>
     (case j of
        JObj kvs \<Rightarrow> list_all (\<lambda>kv. list_all (\<lambda>n. fold_name n = fold_name (fst kv) \<longrightarrow> n = fst kv) names \<and>
                      mem (fst kv) (snd kv)) kvs
      | _ \<Rightarrow> True)"

lemma find_SomeD: "find P xs = Some x \<Longrightarrow> x \<in> set xs \<and> P x"
  by (induction xs) (auto split: if_splits)

lemma find_fieldD: "find_field fs k = Some f \<Longrightarrow> f \<in> set fs \<and> fold_name (fname f) = fold_name k"
  by (auto simp: find_field_def dest: find_SomeD split: option.splits)

lemma spelled_find:
  "spelled (known_keys fs) mem (JObj kvs) \<Longrightarrow> (k, j) \<in> set kvs \<Longrightarrow> find_field fs k = Some f \<Longrightarrow>
     f \<in> set fs \<and> fname f = k \<and> mem k j"
  by (drule find_fieldD) (fastforce simp: spelled_def known_keys_def list_all_iff)

lemma dec_fields_valid:
  assumes "list_all (\<lambda>f. field_typed valid (mem (fname f)) f) fs"
    and "spelled (known_keys fs) mem (JObj kvs)" and "valid s" and "dec_fields fs kvs s = Some s'"
  shows "valid s'"
  using assms(2-)
proof (induction kvs arbitrary: s)
  case (Cons kj kvs)
  obtain k j where kj: "kj = (k, j)" by force
  have rest: "spelled (known_keys fs) mem (JObj kvs)" using Cons.prems(1) by (simp add: spelled_def)
  show ?case
  proof (cases "find_field fs k")
    case None
    then show ?thesis using Cons.IH [OF rest Cons.prems(2)] Cons.prems(3) by (simp add: kj)
  next
    case (Some f)
    have f: "f \<in> set fs" "fname f = k" "mem k j"
      using spelled_find [OF Cons.prems(1) _ Some, of j] by (simp_all add: kj)
    obtain s1 where s1: "fdec f j s = Some s1" "dec_fields fs kvs s1 = Some s'"
      using Cons.prems(3) Some by (auto simp: kj split: option.splits)
    have "field_typed valid (mem k) f" using assms(1) f(1,2) by (auto simp: list_all_iff)
    then have "valid s1" using Cons.prems(2) f(3) s1(1) unfolding field_typed_def by blast
    then show ?thesis using Cons.IH [OF rest _ s1(2)] by simp
  qed
qed simp

lemma unmarshal_valid:
  assumes fields: "list_all (\<lambda>f. field_typed valid (mem (fname f)) f) fs"
    and zero: "valid zero" and extra: "\<And>s m. valid s \<Longrightarrow> extra_ok fs m \<Longrightarrow> valid (set_extra m s)"
    and spelled: "spelled (known_keys fs) mem j" and dec: "unmarshal_open fs zero set_extra j = Some r"
  shows "valid r"
proof (cases j)
  case (JObj kvs)
  obtain s m where s: "dec_fields fs kvs zero = Some s" and m: "go_any_members kvs = Some m"
    and r: "r = set_extra (filter (\<lambda>(k, v). k \<notin> set (known_keys fs)) m) s"
    using dec by (auto simp: JObj unmarshal_open_def unmarshal_with_extra_def dec_struct_def split: option.splits)
  have "find_field fs k = None" if k: "(k, v) \<in> set m" "k \<notin> set (known_keys fs)" for k v
  proof (cases "find_field fs k")
    case (Some f)
    have "gm_get m k \<noteq> None" using k(1) weak_map_of_SomeI by (fastforce simp: gm_get_def)
    then obtain j' where "(k, j') \<in> set kvs"
      using go_any_members_get [OF m, of k] map_of_SomeD [of "rev kvs" k] by (cases "map_of (rev kvs) k") auto
    then have "f \<in> set fs" "fname f = k" using spelled_find [OF spelled [unfolded JObj] _ Some] by simp_all
    then show ?thesis using k(2) by (auto simp: known_keys_def)
  qed
  then have "extra_ok fs (filter (\<lambda>(k, v). k \<notin> set (known_keys fs)) m)"
    using go_any_members_map_ok [OF m] by (auto simp: extra_ok_def map_ok_def list_all_iff)
  then show ?thesis
    unfolding r using extra dec_fields_valid [OF fields spelled [unfolded JObj] zero s] by blast
qed (use dec zero extra in \<open>auto simp: unmarshal_open_def unmarshal_with_extra_def dec_struct_def extra_ok_def gm_ok_def\<close>)

section \<open>The spelling of a configuration\<close>

text \<open>The open structs of a configuration, the members that hold another of them, and all names.\<close>

datatype struct_tag =
    TConfig | TImposter | TStub | TStubResponse | TIs | TProxy | TBehaviors | TRiftResponse | TRiftImposter
  | TPredicate | TRecorded

fun member_tag :: "struct_tag \<Rightarrow> string \<Rightarrow> struct_tag option" where
  "member_tag TConfig k = (if k = ''imposters'' then Some TImposter else None)"
| "member_tag TImposter k =
     (if k = ''stubs'' then Some TStub else if k = ''defaultResponse'' then Some TIs
      else if k = ''_rift'' then Some TRiftImposter else None)"
| "member_tag TStub k =
     (if k = ''predicates'' then Some TPredicate else if k = ''responses'' then Some TStubResponse else None)"
| "member_tag TStubResponse k =
     (if k = ''is'' then Some TIs else if k = ''proxy'' then Some TProxy
      else if k = ''_behaviors'' then Some TBehaviors else if k = ''_rift'' then Some TRiftResponse else None)"
| "member_tag TPredicate k = (if k \<in> {''not'', ''and'', ''or''} then Some TPredicate else None)"
| "member_tag _ k = None"

fun tag_names :: "struct_tag \<Rightarrow> string list" where
  "tag_names TConfig = known_keys imposters_config_fields"
| "tag_names TImposter = known_keys imposter_fields"
| "tag_names TStub = known_keys stub_fields"
| "tag_names TStubResponse = known_keys stub_response_fields"
| "tag_names TIs = known_keys is_response_fields"
| "tag_names TProxy = known_keys proxy_response_fields"
| "tag_names TBehaviors = known_keys behaviors_fields"
| "tag_names TRiftResponse = known_keys rift_response_fields"
| "tag_names TRiftImposter = known_keys rift_imposter_fields"
| "tag_names TPredicate = known_keys (predicate_fields enc_predicate dec_predicate)"
| "tag_names TRecorded = known_keys recorded_request_fields"

text \<open>No struct of the document, at any depth, has a member that is a case variant of a field's name.\<close>

fun exact_names :: "struct_tag \<Rightarrow> json \<Rightarrow> bool" where
  "exact_names t (JObj kvs) =
     list_all (\<lambda>kv. list_all (\<lambda>n. fold_name n = fold_name (fst kv) \<longrightarrow> n = fst kv) (tag_names t) \<and>
       (case member_tag t (fst kv) of None \<Rightarrow> True | Some t' \<Rightarrow> exact_names t' (snd kv))) kvs"
| "exact_names t (JArr js) = list_all (exact_names t) js"
| "exact_names t _ = True"

abbreviation member_exact :: "struct_tag \<Rightarrow> string \<Rightarrow> json \<Rightarrow> bool" where
  "member_exact t k j \<equiv> (case member_tag t k of None \<Rightarrow> True | Some t' \<Rightarrow> exact_names t' j)"

lemma exact_spelled: "exact_names t j \<Longrightarrow> spelled (tag_names t) (member_exact t) j"
  by (cases j) (simp_all add: spelled_def)

lemma open_typed:
  assumes "list_all (\<lambda>f. field_typed valid (member_exact t (fname f)) f) fs" and "tag_names t = known_keys fs"
    and "valid zero" and "\<And>s m. valid s \<Longrightarrow> extra_ok fs m \<Longrightarrow> valid (set_extra m s)"
  shows "typed_doc (unmarshal_open fs zero set_extra) valid (exact_names t)"
proof unfold_locales
  fix j v
  assume j: "exact_names t j" and dec: "unmarshal_open fs zero set_extra j = Some v"
  have "spelled (known_keys fs) (member_exact t) j" using exact_spelled [OF j] assms(2) by simp
  from unmarshal_valid [OF assms(1,3) _ this dec] assms(4) show "valid v" by blast
qed simp

section \<open>Structs without methods\<close>

text \<open>Their members need no spelling: a case variant is the field's member.\<close>

lemma closed_fields_valid:
  "list_all (field_typed valid (\<lambda>_. True)) fs \<Longrightarrow> valid s \<Longrightarrow> dec_fields fs kvs s = Some s' \<Longrightarrow> valid s'"
proof (induction kvs arbitrary: s)
  case (Cons kj kvs)
  show ?case
  proof (cases "find_field fs (fst kj)")
    case None
    then show ?thesis using Cons by (cases kj) simp
  next
    case (Some f)
    then obtain s1 where s1: "fdec f (snd kj) s = Some s1" "dec_fields fs kvs s1 = Some s'"
      using Cons.prems(3) by (cases kj) (auto split: option.splits)
    have "field_typed valid (\<lambda>_. True) f" using Cons.prems(1) find_fieldD [OF Some] by (simp add: list_all_iff)
    then have "valid s1" using Cons.prems(2) s1(1) unfolding field_typed_def by blast
    then show ?thesis using Cons.IH [OF Cons.prems(1) _ s1(2)] by simp
  qed
qed simp

lemma closed_typed:
  assumes "list_all (field_typed valid (\<lambda>_. True)) fs" and "valid z"
  shows "typed_value (omit_struct_ptr fs z) (pred_option valid) (\<lambda>_. True)"
    and "typed_value (req_struct fs z) valid (\<lambda>_. True)"
  using closed_fields_valid [OF assms(1)] assms(2)
  by (unfold_locales, auto simp: omit_struct_ptr_def req_struct_def dec_struct_def
      split: json.splits option.splits if_splits)

lemma path_rewrite_typed [codec_typed]:
  "typed_value (omit_struct_ptr path_rewrite_fields path_rewrite_zero) (pred_option (\<lambda>_. True)) (\<lambda>_. True)"
  by (rule closed_typed) (simp_all add: field_typed_def list_all_iff)

lemma jsonpath_selector_typed [codec_typed]:
  "typed_value (omit_struct_ptr jsonpath_selector_fields jsonpath_selector_zero) (pred_option (\<lambda>_. True)) (\<lambda>_. True)"
  by (rule closed_typed) (simp_all add: field_typed_def list_all_iff)

lemma xpath_selector_typed [codec_typed]:
  "typed_value (omit_struct_ptr xpath_selector_fields xpath_selector_zero) (pred_option valid_xpath_selector) (\<lambda>_. True)"
proof (rule closed_typed)
  show "list_all (field_typed valid_xpath_selector (\<lambda>_. True)) xpath_selector_fields"
    unfolding xpath_selector_fields_def list.pred_inject
    by (intro conjI; (rule field_typedI, rule codec_typed)?; simp add: valid_xpath_selector_def)
qed (simp add: xpath_selector_zero_def valid_xpath_selector_def)

section \<open>Open structs\<close>

interpretation is_typed: typed_doc dec_is_response valid_is_response "exact_names TIs"
  unfolding dec_is_response_def
proof (rule open_typed)
  show "list_all (\<lambda>f. field_typed valid_is_response (member_exact TIs (fname f)) f) is_response_fields"
    unfolding is_response_fields_def list.pred_inject
    by (intro conjI; (rule field_typedI, rule codec_typed)?; simp add: valid_is_response_def)
qed (simp_all add: is_response_zero_def valid_is_response_def)

declare is_typed.typed_ptr [codec_typed]

interpretation proxy_typed: typed_doc dec_proxy_response valid_proxy_response "exact_names TProxy"
  unfolding dec_proxy_response_def
proof (rule open_typed)
  show "list_all (\<lambda>f. field_typed valid_proxy_response (member_exact TProxy (fname f)) f) proxy_response_fields"
    unfolding proxy_response_fields_def list.pred_inject
    by (intro conjI; (rule field_typedI, rule codec_typed)?; simp add: valid_proxy_response_def option.pred_True)
qed (simp_all add: proxy_response_zero_def valid_proxy_response_def)

declare proxy_typed.typed_ptr [codec_typed]

interpretation behaviors_typed: typed_doc dec_behaviors valid_behaviors "exact_names TBehaviors"
  unfolding dec_behaviors_def
proof (rule open_typed)
  show "list_all (\<lambda>f. field_typed valid_behaviors (member_exact TBehaviors (fname f)) f) behaviors_fields"
    unfolding behaviors_fields_def list.pred_inject
    by (intro conjI; (rule field_typedI, rule codec_typed)?; simp add: valid_behaviors_def)
qed (simp_all add: behaviors_zero_def valid_behaviors_def go_int_def)

declare behaviors_typed.typed_ptr [codec_typed]

interpretation rift_imposter_typed: typed_doc dec_rift_imposter valid_rift_imposter "exact_names TRiftImposter"
  unfolding dec_rift_imposter_def
proof (rule open_typed)
  show "list_all (\<lambda>f. field_typed valid_rift_imposter (member_exact TRiftImposter (fname f)) f) rift_imposter_fields"
    unfolding rift_imposter_fields_def list.pred_inject
    by (intro conjI; (rule field_typedI, rule codec_typed)?; simp add: valid_rift_imposter_def)
qed (simp_all add: rift_imposter_zero_def valid_rift_imposter_def)

declare rift_imposter_typed.typed_ptr [codec_typed]

interpretation rift_response_typed: typed_doc dec_rift_response valid_rift_response "exact_names TRiftResponse"
  unfolding dec_rift_response_def
proof (rule open_typed)
  show "list_all (\<lambda>f. field_typed valid_rift_response (member_exact TRiftResponse (fname f)) f) rift_response_fields"
    unfolding rift_response_fields_def list.pred_inject
    by (intro conjI; (rule field_typedI, rule codec_typed)?; simp add: valid_rift_response_def)
qed (simp_all add: rift_response_zero_def valid_rift_response_def)

declare rift_response_typed.typed_ptr [codec_typed]

interpretation stub_response_typed: typed_doc dec_stub_response valid_stub_response "exact_names TStubResponse"
  unfolding dec_stub_response_def
proof (rule open_typed)
  show "list_all (\<lambda>f. field_typed valid_stub_response (member_exact TStubResponse (fname f)) f) stub_response_fields"
    unfolding stub_response_fields_def list.pred_inject
    by (intro conjI; (rule field_typedI, rule codec_typed)?; simp add: valid_stub_response_def)
qed (simp_all add: stub_response_zero_def valid_stub_response_def)

declare stub_response_typed.typed_slice [codec_typed]

section \<open>Predicates\<close>

text \<open>By the depth of the document: the predicates it nests are well formed.\<close>

lemma pred_op_fields_typed: "list_all (field_typed valid_pred_flat (\<lambda>_. True)) pred_op_fields"
  unfolding pred_op_fields_def list.pred_inject
  by (intro conjI; (rule field_typedI, rule codec_typed)?; simp add: valid_pred_flat_def)

lemma pred_param_fields_typed: "list_all (field_typed valid_pred_flat (\<lambda>_. True)) pred_param_fields"
  unfolding pred_param_fields_def list.pred_inject
  by (intro conjI; (rule field_typedI, rule codec_typed)?; simp add: valid_pred_flat_def option.pred_True)

lemma valid_predicate_own: "valid_predicate p \<Longrightarrow> valid_pred_flat (p_flat p)"
  by (simp add: valid_predicate_flat [of p])

lemma valid_predicate_subs:
  "valid_predicate p \<Longrightarrow> pred_option valid_predicate (p_not p)"
  "valid_predicate p \<Longrightarrow> list_all valid_predicate (p_and p)"
  "valid_predicate p \<Longrightarrow> list_all valid_predicate (p_or p)"
  by (simp_all add: valid_predicate_flat [of p])

lemma valid_sub_updates:
  "valid_predicate p \<Longrightarrow> pred_option valid_predicate n \<Longrightarrow> valid_predicate (p_not_update (\<lambda>_. n) p)"
  "valid_predicate p \<Longrightarrow> list_all valid_predicate ps \<Longrightarrow> valid_predicate (p_and_update (\<lambda>_. ps) p)"
  "valid_predicate p \<Longrightarrow> list_all valid_predicate ps \<Longrightarrow> valid_predicate (p_or_update (\<lambda>_. ps) p)"
  by (cases p; simp add: p_not_update_def p_and_update_def p_or_update_def)+

lemma valid_flat_update:
  "valid_predicate p \<Longrightarrow> valid_pred_flat fl \<Longrightarrow> valid_predicate (p_flat_update (\<lambda>_. fl) p)"
  by (cases p) (simp add: p_flat_update_def)

lemma flat_field_typed:
  "field_typed valid_pred_flat (\<lambda>_. True) f \<Longrightarrow> field_typed valid_predicate mem (flat_field f)"
  unfolding field_typed_def by (auto intro!: valid_flat_update dest: valid_predicate_own)

lemma flat_fields_typed:
  "list_all (field_typed valid_pred_flat (\<lambda>_. True)) fs \<Longrightarrow>
   list_all (\<lambda>f. field_typed valid_predicate (mem (fname f)) f) (map flat_field fs)"
  by (auto simp: list_all_iff intro: flat_field_typed)

lemma predicate_typed_step:
  assumes "typed_doc d valid_predicate (\<lambda>j. exact_names TPredicate j \<and> json_depth j < n)"
  shows "list_all (\<lambda>f. field_typed valid_predicate (\<lambda>j. member_exact TPredicate (fname f) j \<and> json_depth j < n) f)
    (predicate_fields enc_predicate d)"
proof -
  note sub = typed_doc.typed_ptr [OF assms, of enc_predicate] typed_doc.typed_slice [OF assms, of enc_predicate]
  have "list_all (\<lambda>f. field_typed valid_predicate (\<lambda>j. member_exact TPredicate (fname f) j \<and> json_depth j < n) f)
     [mk_field ''not'' (omit_ptr enc_predicate d) p_not p_not_update,
      mk_field ''and'' (omit_slice enc_predicate d) p_and p_and_update,
      mk_field ''or'' (omit_slice enc_predicate d) p_or p_or_update]"
    unfolding list.pred_inject
    by (intro conjI; (rule field_typedI, rule sub)?; simp add: valid_predicate_subs valid_sub_updates)
  then show ?thesis
    unfolding predicate_fields_def list_all_append
    by (intro conjI flat_fields_typed pred_op_fields_typed pred_param_fields_typed)
qed

lemma predicate_doc_step:
  assumes "typed_doc dec_predicate valid_predicate (\<lambda>j. exact_names TPredicate j \<and> json_depth j < n)"
    and j: "exact_names TPredicate j" "json_depth j \<le> n" and dec: "dec_predicate j = Some p"
  shows "valid_predicate p"
proof (rule unmarshal_valid [OF predicate_typed_step [OF assms(1)]])
  show "unmarshal_open (predicate_fields enc_predicate dec_predicate) predicate_zero
      (\<lambda>m. p_flat_update (pf_extra_update (\<lambda>_. m))) j = Some p"
    by (rule trans [OF dec_predicate_unmarshal [symmetric] dec])
  have "json_depth x < n" if "j = JObj kvs" "(k, x) \<in> set kvs" for kvs k x
    using j(2) json_depth_JObj [OF that(2)] that(1) by simp
  then show "spelled (known_keys (predicate_fields enc_predicate dec_predicate))
      (\<lambda>k j. member_exact TPredicate k j \<and> json_depth j < n) j"
    using exact_spelled [OF j(1)] by (cases j) (auto simp: spelled_def list_all_iff)
next
  show "valid_predicate predicate_zero" by (simp add: predicate_zero_def valid_pred_flat_def pred_flat_zero_def)
  show "valid_predicate (p_flat_update (pf_extra_update (\<lambda>_. m)) q)"
    if "valid_predicate q" "extra_ok (predicate_fields enc_predicate dec_predicate) m" for q m
    using that by (cases q) (simp add: p_flat_update_def valid_pred_flat_def)
qed

lemma predicate_typed_depth: "exact_names TPredicate j \<Longrightarrow> dec_predicate j = Some p \<Longrightarrow> valid_predicate p"
proof (induction "json_depth j" arbitrary: j p rule: less_induct)
  case less
  have "typed_doc dec_predicate valid_predicate (\<lambda>x. exact_names TPredicate x \<and> json_depth x < json_depth j)"
    by unfold_locales (use less.hyps in \<open>auto simp: list_all_iff intro: less_trans [OF json_depth_JArr]\<close>)
  from predicate_doc_step [OF this less.prems(1) _ less.prems(2)] show ?case by simp
qed

interpretation predicate_typed: typed_doc dec_predicate valid_predicate "exact_names TPredicate"
  by unfold_locales (auto intro: predicate_typed_depth)

declare predicate_typed.typed_slice [codec_typed]

section \<open>Stubs, imposters and configurations\<close>

interpretation stub_typed: typed_doc dec_stub valid_stub "exact_names TStub"
  unfolding dec_stub_def
proof (rule open_typed)
  show "list_all (\<lambda>f. field_typed valid_stub (member_exact TStub (fname f)) f) stub_fields"
    unfolding stub_fields_def list.pred_inject
    by (intro conjI; (rule field_typedI, rule codec_typed)?; simp add: valid_stub_def)
qed (simp_all add: stub_zero_def valid_stub_def)

declare stub_typed.typed_slice [codec_typed]

interpretation imposter_typed: typed_doc dec_imposter valid_imposter "exact_names TImposter"
  unfolding dec_imposter_def
proof (rule open_typed)
  show "list_all (\<lambda>f. field_typed valid_imposter (member_exact TImposter (fname f)) f) imposter_fields"
    unfolding imposter_fields_def list.pred_inject
    by (intro conjI; (rule field_typedI, rule codec_typed)?; simp add: valid_imposter_def)
qed (simp_all add: imposter_zero_def valid_imposter_def)

declare imposter_typed.typed_rslice [codec_typed]

interpretation config_typed: typed_doc dec_imposters_config valid_imposters_config "exact_names TConfig"
  unfolding dec_imposters_config_def
proof (rule open_typed)
  show "list_all (\<lambda>f. field_typed valid_imposters_config (member_exact TConfig (fname f)) f) imposters_config_fields"
    unfolding imposters_config_fields_def list.pred_inject
    by (intro conjI; (rule field_typedI, rule codec_typed)?; simp add: valid_imposters_config_def)
qed (simp_all add: imposters_config_zero_def valid_imposters_config_def)

interpretation recorded_typed: typed_doc dec_recorded_request valid_recorded_request "exact_names TRecorded"
  unfolding dec_recorded_request_def
proof (rule open_typed)
  show "list_all (\<lambda>f. field_typed valid_recorded_request (member_exact TRecorded (fname f)) f) recorded_request_fields"
    unfolding recorded_request_fields_def list.pred_inject
    by (intro conjI; (rule field_typedI, rule codec_typed)?; simp add: valid_recorded_request_def)
qed (simp_all add: recorded_request_zero_def valid_recorded_request_def go_int_def)

end
