(* ===== verification/Sharing.thy ===== *)
theory Sharing
  imports Imposters
begin

text \<open>
  Response builders with the pointers they really hold.  A \<open>StubResponse\<close> of \<open>rift/model.go\<close> points at
  its \<open>is\<close>, \<open>_behaviors\<close> and \<open>_rift\<close> blocks; \<open>BuildResponse\<close> (\<open>rift/response.go\<close>) copies the struct and
  with it the pointers, and \<open>Return\<close> (\<open>rift/stub.go\<close>) keeps that copy.  The blocks live in a heap here, so
  what a later method call does to a response handed out earlier is part of the model.  The theory
  of the builders as values is what remains when every builder is built last.
\<close>

section \<open>The heap\<close>

record heap =
  hp_is :: "nat \<Rightarrow> is_response"
  hp_behaviors :: "nat \<Rightarrow> behaviors"
  hp_rift :: "nat \<Rightarrow> rift_response"
  hp_next :: nat  \<comment> \<open>addresses from here on are free\<close>

definition put_is :: "nat \<Rightarrow> is_response \<Rightarrow> heap \<Rightarrow> heap" where
  "put_is a v h = h\<lparr>hp_is := (hp_is h)(a := v)\<rparr>"

definition put_behaviors :: "nat \<Rightarrow> behaviors \<Rightarrow> heap \<Rightarrow> heap" where
  "put_behaviors a v h = h\<lparr>hp_behaviors := (hp_behaviors h)(a := v)\<rparr>"

definition put_rift :: "nat \<Rightarrow> rift_response \<Rightarrow> heap \<Rightarrow> heap" where
  "put_rift a v h = h\<lparr>hp_rift := (hp_rift h)(a := v)\<rparr>"

text \<open>Change the block a pointer points at, after making a zero one when the pointer is nil.\<close>

definition through ::
    "(heap \<Rightarrow> nat \<Rightarrow> 'c) \<Rightarrow> (nat \<Rightarrow> 'c \<Rightarrow> heap \<Rightarrow> heap) \<Rightarrow> 'c \<Rightarrow> ('c \<Rightarrow> 'c) \<Rightarrow> heap \<times> nat option \<Rightarrow>
     heap \<times> nat option" where
  "through get put zero g s =
     (case s of
        (h, None) \<Rightarrow> (put (hp_next h) (g zero) (h\<lparr>hp_next := Suc (hp_next h)\<rparr>), Some (hp_next h))
      | (h, Some a) \<Rightarrow> (put a (g (get h a)) h, Some a))"

section \<open>Builders\<close>

text \<open>A response as Go stores it: three pointers, and the other fields.\<close>

record response_ref =
  rp_is :: "nat option"
  rp_behaviors :: "nat option"
  rp_rift :: "nat option"
  rp_rest :: stub_response

definition load_response :: "heap \<Rightarrow> response_ref \<Rightarrow> stub_response" where
  "load_response h r =
     (rp_rest r)\<lparr>sr_is := map_option (hp_is h) (rp_is r),
       sr_behaviors := map_option (hp_behaviors h) (rp_behaviors r),
       sr_rift := map_option (hp_rift h) (rp_rift r)\<rparr>"

definition status_at :: "int \<Rightarrow> heap \<Rightarrow> heap \<times> response_ref" where
  "status_at code h =
     (let (h', p) = through hp_is put_is is_response_zero (\<lambda>r. r\<lparr>ir_statusCode := JNum code\<rparr>) (h, None)
      in (h', \<lparr>rp_is = p, rp_behaviors = None, rp_rift = None, rp_rest = stub_response_zero\<rparr>))"

text \<open>The methods of a canned response's builder, as calls.\<close>

datatype response_call =
    RHeader string string
  | RHeaderValues string "string list"
  | RBody json
  | RStatus int
  | RBinary
  | RBehave behavior_call
  | RTemplated

fun response_step :: "response_call \<Rightarrow> response_builder \<Rightarrow> response_builder" where
  "response_step (RHeader name val) = rb_with_header name val"
| "response_step (RHeaderValues name vals) = rb_with_header_values name vals"
| "response_step (RBody body) = rb_with_body body"
| "response_step (RStatus code) = rb_with_status code"
| "response_step RBinary = rb_binary"
| "response_step (RBehave c) = response_behave c"
| "response_step RTemplated = rb_templated"

text \<open>The same methods on the heap: each changes one block in place.\<close>

definition is_at :: "(is_response \<Rightarrow> is_response) \<Rightarrow> heap \<times> response_ref \<Rightarrow> heap \<times> response_ref" where
  "is_at g s =
     (let (h', p) = through hp_is put_is is_response_zero g (fst s, rp_is (snd s))
      in (h', (snd s)\<lparr>rp_is := p\<rparr>))"

definition behave_at :: "behavior_call \<Rightarrow> heap \<times> response_ref \<Rightarrow> heap \<times> response_ref" where
  "behave_at c s =
     (let (h', p) = through hp_behaviors put_behaviors behaviors_zero (behavior_setter c) (fst s, rp_behaviors (snd s))
      in (h', (snd s)\<lparr>rp_behaviors := p\<rparr>))"

definition templated_at :: "heap \<times> response_ref \<Rightarrow> heap \<times> response_ref" where
  "templated_at s =
     (let (h', p) = through hp_rift put_rift rift_response_zero (\<lambda>r. r\<lparr>rr_templated := True\<rparr>) (fst s, rp_rift (snd s))
      in (h', (snd s)\<lparr>rp_rift := p\<rparr>))"

fun response_step_at :: "response_call \<Rightarrow> heap \<times> response_ref \<Rightarrow> heap \<times> response_ref" where
  "response_step_at (RHeader name val) = is_at (\<lambda>r. r\<lparr>ir_headers := gm_put name (JStr val) (ir_headers r)\<rparr>)"
| "response_step_at (RHeaderValues name vals) =
     is_at (\<lambda>r. r\<lparr>ir_headers := gm_put name (JArr (map JStr vals)) (ir_headers r)\<rparr>)"
| "response_step_at (RBody body) = is_at (\<lambda>r. r\<lparr>ir_body := body\<rparr>)"
| "response_step_at (RStatus code) = is_at (\<lambda>r. r\<lparr>ir_statusCode := JNum code\<rparr>)"
| "response_step_at RBinary = is_at (\<lambda>r. r\<lparr>ir_mode := ''binary''\<rparr>)"
| "response_step_at (RBehave c) = behave_at c"
| "response_step_at RTemplated = templated_at"

section \<open>A test that builds stubs\<close>

text \<open>
  Several builders are called in any order, and a stub is returned what one of them builds, any
  number of times: the struct is copied, pointers and all.
\<close>

datatype build_event = Call nat response_call | Return nat

record workshop =
  ws_heap :: heap
  ws_builders :: "nat \<Rightarrow> response_ref"
  ws_cycle :: "response_ref list"

fun build_step :: "build_event \<Rightarrow> workshop \<Rightarrow> workshop" where
  "build_step (Call i c) w =
     (let (h, b) = response_step_at c (ws_heap w, ws_builders w i)
      in w\<lparr>ws_heap := h, ws_builders := (ws_builders w)(i := b)\<rparr>)"
| "build_step (Return i) w = w\<lparr>ws_cycle := ws_cycle w @ [ws_builders w i]\<rparr>"

text \<open>The constructors a builder starts with, as values and on the heap.\<close>

datatype build_start = SStatus int | SFault string | SInject string

fun start_value :: "build_start \<Rightarrow> response_builder" where
  "start_value (SStatus code) = status code"
| "start_value (SFault kind) = fault_response kind"
| "start_value (SInject js) = inject_response js"

fun start_at :: "build_start \<Rightarrow> heap \<Rightarrow> heap \<times> response_ref" where
  "start_at (SStatus code) h = status_at code h"
| "start_at (SFault kind) h =
     (h, \<lparr>rp_is = None, rp_behaviors = None, rp_rift = None, rp_rest = fault_response kind\<rparr>)"
| "start_at (SInject js) h =
     (h, \<lparr>rp_is = None, rp_behaviors = None, rp_rift = None, rp_rest = inject_response js\<rparr>)"

definition empty_shop :: workshop where
  "empty_shop =
     \<lparr>ws_heap = \<lparr>hp_is = (\<lambda>_. is_response_zero), hp_behaviors = (\<lambda>_. behaviors_zero),
                  hp_rift = (\<lambda>_. rift_response_zero), hp_next = 0\<rparr>,
      ws_builders = (\<lambda>_. \<lparr>rp_is = None, rp_behaviors = None, rp_rift = None, rp_rest = stub_response_zero\<rparr>),
      ws_cycle = []\<rparr>"

text \<open>The builders \<open>0, 1, \<dots>\<close> of a test, made one after the other.\<close>

definition make_builder :: "nat \<times> build_start \<Rightarrow> workshop \<Rightarrow> workshop" where
  "make_builder ib w =
     (let (h, b) = start_at (snd ib) (ws_heap w)
      in w\<lparr>ws_heap := h, ws_builders := (ws_builders w)(fst ib := b)\<rparr>)"

definition open_shop :: "build_start list \<Rightarrow> workshop" where
  "open_shop starts = fold make_builder (enumerate 0 starts) empty_shop"

text \<open>What builder \<open>i\<close> is asked to do.\<close>

definition calls_of :: "nat \<Rightarrow> build_event list \<Rightarrow> response_call list" where
  "calls_of i es = List.map_filter (\<lambda>e. case e of Call j c \<Rightarrow> if j = i then Some c else None | Return _ \<Rightarrow> None) es"

text \<open>A response whose blocks, where it has any, are those of another.\<close>

definition follow :: "stub_response \<Rightarrow> stub_response \<Rightarrow> stub_response" where
  "follow v w =
     v\<lparr>sr_is := (if sr_is v = None then None else sr_is w),
       sr_behaviors := (if sr_behaviors v = None then None else sr_behaviors w),
       sr_rift := (if sr_rift v = None then None else sr_rift w)\<rparr>"

section \<open>The contract of a region of the heap\<close>

locale region =
  fixes get :: "heap \<Rightarrow> nat \<Rightarrow> 'c" and put :: "nat \<Rightarrow> 'c \<Rightarrow> heap \<Rightarrow> heap"
  assumes get_put: "get (put a v h) = (get h)(a := v)"
    and next_put: "hp_next (put a v h) = hp_next h"
    and get_next: "get (h\<lparr>hp_next := n\<rparr>) = get h"
begin

lemma through_value:
  "through get put zero g (h, p) = (h', p') \<Longrightarrow>
     map_option (get h') p' = Some (g (case p of None \<Rightarrow> zero | Some a \<Rightarrow> get h a))"
  by (auto simp: through_def get_put get_next split: option.splits)

lemma through_pointer:
  "through get put zero g (h, p) = (h', p') \<Longrightarrow>
     p' = Some (case p of None \<Rightarrow> hp_next h | Some a \<Rightarrow> a) \<and>
     hp_next h' = (case p of None \<Rightarrow> Suc (hp_next h) | Some _ \<Rightarrow> hp_next h)"
  by (auto simp: through_def next_put split: option.splits)

lemma through_other:
  "through get put zero g (h, p) = (h', p') \<Longrightarrow> a < hp_next h \<Longrightarrow> p \<noteq> Some a \<Longrightarrow> get h' a = get h a"
  by (auto simp: through_def get_put get_next split: option.splits)

end

interpretation is_region: region hp_is put_is by unfold_locales (simp_all add: put_is_def)
interpretation behaviors_region: region hp_behaviors put_behaviors by unfold_locales (simp_all add: put_behaviors_def)
interpretation rift_region: region hp_rift put_rift by unfold_locales (simp_all add: put_rift_def)

text \<open>A change of one block leaves the blocks of the other kinds.\<close>

lemma through_other_regions:
  "through hp_is put_is z g s = (h', p') \<Longrightarrow> hp_behaviors h' = hp_behaviors (fst s) \<and> hp_rift h' = hp_rift (fst s)"
  "through hp_behaviors put_behaviors zb gb s = (h', p') \<Longrightarrow> hp_is h' = hp_is (fst s) \<and> hp_rift h' = hp_rift (fst s)"
  "through hp_rift put_rift zr gr s = (h', p') \<Longrightarrow> hp_is h' = hp_is (fst s) \<and> hp_behaviors h' = hp_behaviors (fst s)"
  by (auto simp: through_def put_is_def put_behaviors_def put_rift_def split: prod.splits option.splits)

section \<open>A builder that is alone\<close>

definition bounded :: "heap \<Rightarrow> response_ref \<Rightarrow> bool" where
  "bounded h r \<longleftrightarrow> pred_option (\<lambda>a. a < hp_next h) (rp_is r) \<and>
     pred_option (\<lambda>a. a < hp_next h) (rp_behaviors r) \<and> pred_option (\<lambda>a. a < hp_next h) (rp_rift r)"

text \<open>No block of one response is a block of the other.\<close>

definition apart :: "response_ref \<Rightarrow> response_ref \<Rightarrow> bool" where
  "apart r r' \<longleftrightarrow> (\<forall>a. \<not> (rp_is r = Some a \<and> rp_is r' = Some a)) \<and>
     (\<forall>a. \<not> (rp_behaviors r = Some a \<and> rp_behaviors r' = Some a)) \<and>
     (\<forall>a. \<not> (rp_rift r = Some a \<and> rp_rift r' = Some a))"

text \<open>The pointers of a response stay, more may come.\<close>

definition grows :: "response_ref \<Rightarrow> response_ref \<Rightarrow> bool" where
  "grows r r' \<longleftrightarrow> rp_rest r' = rp_rest r \<and> (\<forall>a. rp_is r = Some a \<longrightarrow> rp_is r' = Some a) \<and>
     (\<forall>a. rp_behaviors r = Some a \<longrightarrow> rp_behaviors r' = Some a) \<and>
     (\<forall>a. rp_rift r = Some a \<longrightarrow> rp_rift r' = Some a)"

lemma grows_refl [simp]: "grows r r"
  by (simp add: grows_def)

lemma grows_trans: "grows r r' \<Longrightarrow> grows r' r'' \<Longrightarrow> grows r r''"
  by (auto simp: grows_def)

text \<open>What one step of a builder does to it, and to any other response.\<close>

definition step_law :: "heap \<times> response_ref \<Rightarrow> heap \<times> response_ref \<Rightarrow> (stub_response \<Rightarrow> stub_response) \<Rightarrow> bool" where
  "step_law s s' f \<longleftrightarrow>
     load_response (fst s') (snd s') = f (load_response (fst s) (snd s)) \<and>
     (bounded (fst s) (snd s) \<longrightarrow> bounded (fst s') (snd s')) \<and> grows (snd s) (snd s') \<and>
     (\<forall>r. bounded (fst s) r \<and> apart (snd s) r \<longrightarrow>
        load_response (fst s') r = load_response (fst s) r \<and> bounded (fst s') r \<and> apart (snd s') r)"

lemma is_at_law: "step_law (h, r) (is_at g (h, r)) (on_is g)"
proof -
  obtain h' p where run: "through hp_is put_is is_response_zero g (h, rp_is r) = (h', p)" by force
  have run': "is_at g (h, r) = (h', r\<lparr>rp_is := p\<rparr>)" by (simp add: is_at_def run)
  note laws = is_region.through_value [OF run] is_region.through_pointer [OF run]
    through_other_regions(1) [OF run] is_region.through_other [OF run]
  have "load_response h' (r\<lparr>rp_is := p\<rparr>) = (on_is g) (load_response h r)"
    using laws(1-3) by (cases "rp_is r") (auto simp: load_response_def on_is_def ensure_is_def Let_def cong: option.map_cong)
  moreover have "bounded h r \<Longrightarrow> bounded h' (r\<lparr>rp_is := p\<rparr>)" "grows r (r\<lparr>rp_is := p\<rparr>)"
    using laws(2) by (cases "rp_is r"; auto simp: bounded_def grows_def option.pred_set)+
  moreover have "load_response h' q = load_response h q \<and> bounded h' q \<and> apart (r\<lparr>rp_is := p\<rparr>) q"
    if "bounded h q" "apart r q" for q
    using laws(2-4) that
    by (cases "rp_is r"; cases "rp_is q") (auto simp: load_response_def bounded_def apart_def option.pred_set)
  ultimately show ?thesis unfolding step_law_def run' by simp
qed

lemma behave_at_law: "step_law (h, r) (behave_at c (h, r)) (response_behave c)"
proof -
  obtain h' p where run: "through hp_behaviors put_behaviors behaviors_zero (behavior_setter c) (h, rp_behaviors r) = (h', p)" by force
  have run': "behave_at c (h, r) = (h', r\<lparr>rp_behaviors := p\<rparr>)" by (simp add: behave_at_def run)
  note laws = behaviors_region.through_value [OF run] behaviors_region.through_pointer [OF run]
    through_other_regions(2) [OF run] behaviors_region.through_other [OF run]
  have "load_response h' (r\<lparr>rp_behaviors := p\<rparr>) = (response_behave c) (load_response h r)"
    using laws(1-3) by (cases "rp_behaviors r") (auto simp: load_response_def response_behave_def behave_def cong: option.map_cong)
  moreover have "bounded h r \<Longrightarrow> bounded h' (r\<lparr>rp_behaviors := p\<rparr>)" "grows r (r\<lparr>rp_behaviors := p\<rparr>)"
    using laws(2) by (cases "rp_behaviors r"; auto simp: bounded_def grows_def option.pred_set)+
  moreover have "load_response h' q = load_response h q \<and> bounded h' q \<and> apart (r\<lparr>rp_behaviors := p\<rparr>) q"
    if "bounded h q" "apart r q" for q
    using laws(2-4) that
    by (cases "rp_behaviors r"; cases "rp_behaviors q") (auto simp: load_response_def bounded_def apart_def option.pred_set)
  ultimately show ?thesis unfolding step_law_def run' by simp
qed

lemma templated_at_law: "step_law (h, r) (templated_at (h, r)) rb_templated"
proof -
  obtain h' p where run: "through hp_rift put_rift rift_response_zero (\<lambda>r. r\<lparr>rr_templated := True\<rparr>) (h, rp_rift r) = (h', p)" by force
  have run': "templated_at (h, r) = (h', r\<lparr>rp_rift := p\<rparr>)" by (simp add: templated_at_def run)
  note laws = rift_region.through_value [OF run] rift_region.through_pointer [OF run]
    through_other_regions(3) [OF run] rift_region.through_other [OF run]
  have "load_response h' (r\<lparr>rp_rift := p\<rparr>) = rb_templated (load_response h r)"
    using laws(1-3) by (cases "rp_rift r") (auto simp: load_response_def rb_templated_def cong: option.map_cong)
  moreover have "bounded h r \<Longrightarrow> bounded h' (r\<lparr>rp_rift := p\<rparr>)" "grows r (r\<lparr>rp_rift := p\<rparr>)"
    using laws(2) by (cases "rp_rift r"; auto simp: bounded_def grows_def option.pred_set)+
  moreover have "load_response h' q = load_response h q \<and> bounded h' q \<and> apart (r\<lparr>rp_rift := p\<rparr>) q"
    if "bounded h q" "apart r q" for q
    using laws(2-4) that
    by (cases "rp_rift r"; cases "rp_rift q") (auto simp: load_response_def bounded_def apart_def option.pred_set)
  ultimately show ?thesis unfolding step_law_def run' by simp
qed

lemma step_at_law: "step_law (h, r) (response_step_at c (h, r)) (response_step c)"
  using is_at_law behave_at_law templated_at_law
  by (cases c) (simp_all add: rb_with_header_def rb_with_header_values_def rb_with_body_def rb_with_status_def
      rb_binary_def)

section \<open>Builders that are used in any order\<close>

definition shop_ok :: "workshop \<Rightarrow> bool" where
  "shop_ok w \<longleftrightarrow> (\<forall>i. bounded (ws_heap w) (ws_builders w i)) \<and>
     (\<forall>i j. i \<noteq> j \<longrightarrow> apart (ws_builders w i) (ws_builders w j))"

definition builder_shows :: "workshop \<Rightarrow> nat \<Rightarrow> stub_response" where
  "builder_shows w i = load_response (ws_heap w) (ws_builders w i)"

lemma calls_of_simps [simp]:
  "calls_of i [] = []"
  "calls_of i (Call j c # es) = (if j = i then c # calls_of i es else calls_of i es)"
  "calls_of i (Return j # es) = calls_of i es"
  by (simp_all add: calls_of_def List.map_filter_simps)

lemma apart_sym: "apart r r' \<longleftrightarrow> apart r' r"
  unfolding apart_def by blast

lemma call_step:
  assumes "shop_ok w"
  shows "shop_ok (build_step (Call i c) w)" and "grows (ws_builders w j) (ws_builders (build_step (Call i c) w) j)"
    and "builder_shows (build_step (Call i c) w) j = (if j = i then response_step c (builder_shows w i) else builder_shows w j)"
proof -
  obtain h b where run: "response_step_at c (ws_heap w, ws_builders w i) = (h, b)" by force
  note law = step_at_law [of "ws_heap w" "ws_builders w i" c, unfolded run step_law_def fst_conv snd_conv]
  have own: "load_response h b = response_step c (builder_shows w i)" "bounded h b" "grows (ws_builders w i) b"
    using law assms by (simp_all add: shop_ok_def builder_shows_def)
  have other: "load_response h (ws_builders w j) = builder_shows w j \<and> bounded h (ws_builders w j) \<and> apart b (ws_builders w j)"
    if "j \<noteq> i" for j
    using law assms that unfolding shop_ok_def builder_shows_def by metis
  have step: "build_step (Call i c) w = w\<lparr>ws_heap := h, ws_builders := (ws_builders w)(i := b)\<rparr>"
    by (simp add: run)
  show "shop_ok (build_step (Call i c) w)"
    using assms own(2) other unfolding step shop_ok_def by (auto simp: apart_sym [of _ b])
  show "grows (ws_builders w j) (ws_builders (build_step (Call i c) w) j)"
    using own(3) unfolding step by simp
  show "builder_shows (build_step (Call i c) w) j = (if j = i then response_step c (builder_shows w i) else builder_shows w j)"
    using own(1) other [of j] unfolding step by (simp add: builder_shows_def)
qed

text \<open>Each builder does what its own calls say, whatever the others are asked.\<close>

lemma build_step_law:
  assumes "shop_ok w"
  shows "shop_ok (build_step e w)" and "grows (ws_builders w i) (ws_builders (build_step e w) i)"
    and "builder_shows (build_step e w) i = fold response_step (calls_of i [e]) (builder_shows w i)"
    and "\<exists>added. ws_cycle (build_step e w) = ws_cycle w @ added"
proof -
  show "shop_ok (build_step e w)" "grows (ws_builders w i) (ws_builders (build_step e w) i)"
    "builder_shows (build_step e w) i = fold response_step (calls_of i [e]) (builder_shows w i)"
    using call_step [OF assms] assms
    by (cases e; simp add: shop_ok_def builder_shows_def del: build_step.simps(1))+
  show "\<exists>added. ws_cycle (build_step e w) = ws_cycle w @ added"
    by (cases e) (simp_all split: prod.split)
qed

lemma calls_of_Cons: "calls_of i (e # es) = calls_of i [e] @ calls_of i es"
  by (cases e) simp_all

lemma run_builders:
  "shop_ok w \<Longrightarrow>
     shop_ok (fold build_step es w) \<and> grows (ws_builders w i) (ws_builders (fold build_step es w) i) \<and>
     builder_shows (fold build_step es w) i = fold response_step (calls_of i es) (builder_shows w i) \<and>
     (\<exists>added. ws_cycle (fold build_step es w) = ws_cycle w @ added)"
proof (induction es arbitrary: w)
  case (Cons e es)
  note step = build_step_law [OF Cons.prems, where e = e]
  note rest = Cons.IH [OF step(1)]
  have "grows (ws_builders w i) (ws_builders (fold build_step (e # es) w) i)"
    using grows_trans [OF step(2)] rest by simp
  moreover have "builder_shows (fold build_step (e # es) w) i = fold response_step (calls_of i (e # es)) (builder_shows w i)"
    unfolding calls_of_Cons [of i e es] using rest step(3) [where i = i] by simp
  moreover have "\<exists>added. ws_cycle (fold build_step (e # es) w) = ws_cycle w @ added"
    using rest step(4) by (metis append.assoc fold_simps(2))
  ultimately show ?case using rest by simp
qed simp

text \<open>A response that was returned points where its builder points.\<close>

lemma load_grown: "grows r r' \<Longrightarrow> load_response h r = follow (load_response h0 r) (load_response h r')"
  by (cases "rp_is r"; cases "rp_behaviors r"; cases "rp_rift r")
     (auto simp: grows_def load_response_def follow_def)

lemma returned_load:
  assumes ok: "shop_ok w" and run: "w' = fold build_step (es @ Return i # es') w"
  shows "load_response (ws_heap w') (ws_cycle w' ! length (ws_cycle (fold build_step es w))) =
    follow (fold response_step (calls_of i es) (builder_shows w i)) (fold response_step (calls_of i (es @ es')) (builder_shows w i))"
proof -
  define w1 where "w1 = fold build_step es w"
  define w2 where "w2 = build_step (Return i) w1"
  have w': "w' = fold build_step es' w2" unfolding run w2_def w1_def by simp
  have ok1: "shop_ok w1" and shown1: "builder_shows w1 i = fold response_step (calls_of i es) (builder_shows w i)"
    unfolding w1_def using run_builders [OF ok] by simp_all
  have w2: "shop_ok w2" "builder_shows w2 i = builder_shows w1 i" "ws_builders w2 = ws_builders w1"
      "ws_cycle w2 = ws_cycle w1 @ [ws_builders w1 i]"
    using ok1 by (simp_all add: w2_def shop_ok_def builder_shows_def)
  note after = run_builders [OF w2(1), of es' i, folded w']
  have "ws_cycle w' ! length (ws_cycle w1) = ws_builders w1 i"
    using after unfolding w2(4) by (auto simp: nth_append)
  moreover have "grows (ws_builders w1 i) (ws_builders w' i)" using after unfolding w2(3) by blast
  ultimately have "load_response (ws_heap w') (ws_cycle w' ! length (ws_cycle w1)) = follow (builder_shows w1 i) (builder_shows w' i)"
    using load_grown unfolding builder_shows_def by simp
  moreover have "calls_of i (es @ es') = calls_of i es @ calls_of i es'"
    by (simp add: calls_of_def List.map_filter_def)
  ultimately show ?thesis using after unfolding w1_def [symmetric] shown1 [symmetric] w2(2) by (simp add: shown1)
qed

section \<open>Builders made by the constructors\<close>

lemma start_law:
  assumes "start_at st h = (h', r)"
  shows "load_response h' r = start_value st" and "bounded h' r"
    and "bounded h q \<Longrightarrow> load_response h' q = load_response h q \<and> bounded h' q \<and> apart r q"
proof -
  show "load_response h' r = start_value st"
    using assms by (cases st) (auto simp: load_response_def status_at_def through_def put_is_def status_def
      status_of_def fault_response_def inject_response_def stub_response_zero_def)
  show "bounded h' r"
    using assms by (cases st) (auto simp: bounded_def status_at_def through_def put_is_def)
  show "load_response h' q = load_response h q \<and> bounded h' q \<and> apart r q" if q: "bounded h q"
  proof (cases st)
    case (SStatus code)
    obtain p where run: "through hp_is put_is is_response_zero (\<lambda>r. r\<lparr>ir_statusCode := JNum code\<rparr>) (h, None) = (h', p)"
      and r: "r = \<lparr>rp_is = p, rp_behaviors = None, rp_rift = None, rp_rest = stub_response_zero\<rparr>"
      using assms by (auto simp: SStatus status_at_def split: prod.splits)
    note laws = is_region.through_pointer [OF run] is_region.through_other [OF run] through_other_regions(1) [OF run]
    have "load_response h' q = load_response h q"
      using laws q by (cases "rp_is q") (simp_all add: load_response_def bounded_def)
    moreover have "bounded h' q"
      using laws(1) q by (auto simp: bounded_def option.pred_set)
    moreover have "apart r q" using laws(1) q by (auto simp: r apart_def bounded_def)
    ultimately show ?thesis by blast
  qed (use assms q in \<open>auto simp: apart_def\<close>)
qed

lemma make_builder_ok:
  assumes "shop_ok w"
  shows "shop_ok (make_builder (i, st) w)"
    and "builder_shows (make_builder (i, st) w) j = (if j = i then start_value st else builder_shows w j)"
    and "ws_cycle (make_builder (i, st) w) = ws_cycle w"
proof -
  obtain h b where run: "start_at st (ws_heap w) = (h, b)" by force
  note law = start_law [OF run]
  have step: "make_builder (i, st) w = w\<lparr>ws_heap := h, ws_builders := (ws_builders w)(i := b)\<rparr>"
    by (simp add: make_builder_def run)
  have other: "load_response h (ws_builders w j) = builder_shows w j \<and> bounded h (ws_builders w j) \<and> apart b (ws_builders w j)" for j
    using law(3) assms unfolding shop_ok_def builder_shows_def by metis
  have sym: "apart (ws_builders w j) b" for j using other [of j] apart_sym by blast
  have apart: "apart (ws_builders w j) (ws_builders w k)" if "j \<noteq> k" for j k
    using assms that by (simp add: shop_ok_def)
  show "shop_ok (make_builder (i, st) w)"
    unfolding step shop_ok_def using law(2) other sym apart by simp
  show "builder_shows (make_builder (i, st) w) j = (if j = i then start_value st else builder_shows w j)"
    using law(1) other [of j] unfolding step by (simp add: builder_shows_def)
  show "ws_cycle (make_builder (i, st) w) = ws_cycle w" unfolding step by simp
qed

lemma make_builders:
  "shop_ok w \<Longrightarrow> shop_ok (fold make_builder (enumerate n sts) w) \<and>
     (\<forall>j. builder_shows (fold make_builder (enumerate n sts) w) j =
        (if n \<le> j \<and> j < n + length sts then start_value (sts ! (j - n)) else builder_shows w j)) \<and>
     ws_cycle (fold make_builder (enumerate n sts) w) = ws_cycle w"
proof (induction sts arbitrary: n w)
  case (Cons st sts)
  show ?case
    using Cons.IH [OF make_builder_ok(1) [OF Cons.prems, of n st], of "Suc n"] make_builder_ok(2,3) [OF Cons.prems, of n st]
    by (auto simp: nth_Cons' Suc_le_eq not_less_eq)
qed auto

lemma open_shop_ok:
  "shop_ok (open_shop sts)" "i < length sts \<Longrightarrow> builder_shows (open_shop sts) i = start_value (sts ! i)"
  "ws_cycle (open_shop sts) = []"
proof -
  have "shop_ok empty_shop" by (simp add: shop_ok_def empty_shop_def bounded_def apart_def)
  note made = make_builders [OF this, of 0 sts]
  show "shop_ok (open_shop sts)" "i < length sts \<Longrightarrow> builder_shows (open_shop sts) i = start_value (sts ! i)"
    "ws_cycle (open_shop sts) = []"
    using made unfolding open_shop_def by (simp_all add: empty_shop_def)
qed

end
