(* ===== verification/Client.thy ===== *)
theory Client
  imports Remote Engine_Ops
begin

text \<open>
  The interface \<open>Client\<close> of \<open>rift/client.go\<close> and the two implementations of it: \<open>Remote\<close> over the
  admin API (which \<open>Spawn\<close> returns as well) and the embedded \<open>Engine\<close>.  A client acts on a state of
  its own, the exchanges still to come or the engine and its process; the locale \<open>rift_client\<close> is what
  the interface promises on every transport, and the last section relates the two transports when the
  engine behind them gives the same answers.
\<close>

section \<open>The interface\<close>

type_synonym ('w, 'a) act = "'w \<Rightarrow> ((go_error + 'a) \<times> 'w) option"

text \<open>The context of a call is given as its error, if it has one.\<close>

record 'w client =
  cl_create :: "string option \<Rightarrow> imposter \<Rightarrow> ('w, 16 word) act"
  cl_delete :: "string option \<Rightarrow> 16 word \<Rightarrow> ('w, unit) act"
  cl_delete_all :: "string option \<Rightarrow> ('w, unit) act"
  cl_replace_stubs :: "string option \<Rightarrow> 16 word \<Rightarrow> stub list option \<Rightarrow> ('w, unit) act"
  cl_add_stub :: "string option \<Rightarrow> 16 word \<Rightarrow> stub \<Rightarrow> int \<Rightarrow> ('w, unit) act"
  cl_recorded :: "string option \<Rightarrow> 16 word \<Rightarrow> ('w, recorded_request list) act"
  cl_clear_recorded :: "string option \<Rightarrow> 16 word \<Rightarrow> ('w, unit) act"
  cl_verify :: "string option \<Rightarrow> 16 word \<Rightarrow> verify_request \<Rightarrow> ('w, verify_result) act"
  cl_set_scenario_state :: "string option \<Rightarrow> 16 word \<Rightarrow> string \<Rightarrow> string \<Rightarrow> string \<Rightarrow> ('w, unit) act"
  cl_reset_scenarios :: "string option \<Rightarrow> 16 word \<Rightarrow> string \<Rightarrow> ('w, unit) act"
  cl_close :: "'w \<Rightarrow> (string option \<times> 'w) option"

section \<open>Over the admin API\<close>

text \<open>
  The exchanges to come: what each next request, in turn, is answered with.  A context that ends is
  an exchange that fails.
\<close>

type_synonym net = "nat \<Rightarrow> http_request \<Rightarrow> exchange"

definition exchanging :: "((http_request \<Rightarrow> exchange) \<Rightarrow> go_error + 'a) \<Rightarrow> (net, 'a) act" where
  "exchanging f w = Some (f (w 0), \<lambda>n. w (Suc n))"

definition telling :: "remote \<Rightarrow> admin_call \<Rightarrow> (net, unit) act" where
  "telling r c = exchanging (\<lambda>http. discard (remote_do r http c))"

text \<open>
  \<open>Close\<close> of a \<open>Remote\<close> stops the child it owns, when it owns one, and returns what that returned.
  It marks nothing: the client goes on sending afterwards.
\<close>

definition remote_close :: "string option option \<Rightarrow> string option" where
  "remote_close stopped = (case stopped of None \<Rightarrow> None | Some err \<Rightarrow> err)"

definition remote_client :: "remote \<Rightarrow> string option option \<Rightarrow> net client" where
  "remote_client r stopped =
     \<lparr>cl_create = (\<lambda>_ i. exchanging (\<lambda>http. remote_create_imposter r http i)),
      cl_delete = (\<lambda>_ port. telling r (delete_imposter_call port)),
      cl_delete_all = (\<lambda>_. telling r delete_all_call),
      cl_replace_stubs = (\<lambda>_ port stubs. telling r (replace_stubs_call port stubs)),
      cl_add_stub = (\<lambda>_ port st index. telling r (add_stub_call port st index)),
      cl_recorded = (\<lambda>_ port. exchanging (\<lambda>http. remote_recorded r http port)),
      cl_clear_recorded = (\<lambda>_ port. telling r (clear_recorded_call port)),
      cl_verify = (\<lambda>_ port q. exchanging (\<lambda>http. remote_verify r http port q)),
      cl_set_scenario_state = (\<lambda>_ port scenario state flow. telling r (set_scenario_state_call port scenario state flow)),
      cl_reset_scenarios = (\<lambda>_ port flow. telling r (reset_scenarios_call port flow)),
      cl_close = (\<lambda>w. Some (remote_close stopped, w))\<rparr>"

section \<open>In the process\<close>

type_synonym 's embedded = "'s engine \<times> 's process"

definition calling :: "('s engine \<Rightarrow> ('s, go_error + 'a) native) \<Rightarrow> ('s embedded, 'a) act" where
  "calling f s = map_option (\<lambda>(r, w). (r, fst s, w)) (f (fst s) (snd s))"

definition closing :: "'s embedded \<Rightarrow> (string option \<times> 's embedded) option" where
  "closing s = map_option (\<lambda>((err, e), w). (err, e, w)) (close (fst s) (snd s))"

definition embedded_client :: "(string \<Rightarrow> json option) \<Rightarrow> 's embedded client" where
  "embedded_client parse =
     \<lparr>cl_create = (\<lambda>ctx i. calling (\<lambda>e. engine_create_imposter ctx e i)),
      cl_delete = (\<lambda>ctx port. calling (\<lambda>e. engine_delete_imposter ctx e port)),
      cl_delete_all = (\<lambda>ctx. calling (\<lambda>e. engine_delete_all ctx e)),
      cl_replace_stubs = (\<lambda>ctx port stubs. calling (\<lambda>e. engine_replace_stubs ctx e port stubs)),
      cl_add_stub = (\<lambda>ctx port st index. calling (\<lambda>e. engine_add_stub ctx e port st index)),
      cl_recorded = (\<lambda>ctx port. calling (\<lambda>e. engine_recorded parse ctx e port)),
      cl_clear_recorded = (\<lambda>ctx port. calling (\<lambda>e. engine_clear_recorded ctx e port)),
      cl_verify = (\<lambda>ctx port q. calling (\<lambda>e. engine_verify parse ctx e port q)),
      cl_set_scenario_state =
        (\<lambda>ctx port scenario state flow. calling (\<lambda>e. engine_set_scenario_state ctx e port scenario state flow)),
      cl_reset_scenarios = (\<lambda>ctx port flow. calling (\<lambda>e. engine_reset_scenarios ctx e port flow)),
      cl_close = closing\<rparr>"

section \<open>Sessions\<close>

text \<open>A test written against the interface is a list of calls, each made whatever the last returned.\<close>

datatype client_call =
    CallCreate imposter
  | CallDelete "16 word"
  | CallDeleteAll
  | CallReplaceStubs "16 word" "stub list option"
  | CallAddStub "16 word" stub int
  | CallRecorded "16 word"
  | CallClearRecorded "16 word"
  | CallVerify "16 word" verify_request
  | CallSetScenarioState "16 word" string string string
  | CallResetScenarios "16 word" string

datatype client_reply = Ack | Created "16 word" | Journal "recorded_request list" | Counts verify_result

definition replying :: "('a \<Rightarrow> client_reply) \<Rightarrow> ('w, 'a) act \<Rightarrow> ('w, client_reply) act" where
  "replying k run w = map_option (\<lambda>(r, w'). (map_sum id k r, w')) (run w)"

fun perform :: "'w client \<Rightarrow> string option \<Rightarrow> client_call \<Rightarrow> ('w, client_reply) act" where
  "perform cl ctx (CallCreate i) = replying Created (cl_create cl ctx i)"
| "perform cl ctx (CallDelete port) = replying (\<lambda>_. Ack) (cl_delete cl ctx port)"
| "perform cl ctx CallDeleteAll = replying (\<lambda>_. Ack) (cl_delete_all cl ctx)"
| "perform cl ctx (CallReplaceStubs port stubs) = replying (\<lambda>_. Ack) (cl_replace_stubs cl ctx port stubs)"
| "perform cl ctx (CallAddStub port st index) = replying (\<lambda>_. Ack) (cl_add_stub cl ctx port st index)"
| "perform cl ctx (CallRecorded port) = replying Journal (cl_recorded cl ctx port)"
| "perform cl ctx (CallClearRecorded port) = replying (\<lambda>_. Ack) (cl_clear_recorded cl ctx port)"
| "perform cl ctx (CallVerify port q) = replying Counts (cl_verify cl ctx port q)"
| "perform cl ctx (CallSetScenarioState port scenario state flow) =
     replying (\<lambda>_. Ack) (cl_set_scenario_state cl ctx port scenario state flow)"
| "perform cl ctx (CallResetScenarios port flow) = replying (\<lambda>_. Ack) (cl_reset_scenarios cl ctx port flow)"

datatype client_event = Ask "string option" client_call | CloseClient

datatype client_outcome = Answered "go_error + client_reply" | ClosedWith "string option"

fun client_step :: "'w client \<Rightarrow> client_event \<Rightarrow> 'w \<Rightarrow> (client_outcome \<times> 'w) option" where
  "client_step cl (Ask ctx c) w = map_option (\<lambda>(r, w'). (Answered r, w')) (perform cl ctx c w)"
| "client_step cl CloseClient w = map_option (\<lambda>(err, w'). (ClosedWith err, w')) (cl_close cl w)"

fun session :: "'w client \<Rightarrow> client_event list \<Rightarrow> 'w \<Rightarrow> (client_outcome list \<times> 'w) option" where
  "session cl [] w = Some ([], w)"
| "session cl (ev # evs) w =
     (case client_step cl ev w of
        None \<Rightarrow> None
      | Some (out, w') \<Rightarrow> map_option (\<lambda>(outs, w''). (out # outs, w'')) (session cl evs w'))"

section \<open>What every transport promises\<close>

text \<open>An error of a call is one of a given class; a call returns and leaves the client usable.\<close>

definition fails_only :: "(go_error \<Rightarrow> bool) \<Rightarrow> go_error + 'a \<Rightarrow> bool" where
  "fails_only good r = (case r of Inl e \<Rightarrow> good e | Inr _ \<Rightarrow> True)"

definition keeps :: "('w \<Rightarrow> bool) \<Rightarrow> (go_error \<Rightarrow> bool) \<Rightarrow> ('w, 'a) act \<Rightarrow> bool" where
  "keeps ok good run \<longleftrightarrow> (\<forall>w. ok w \<longrightarrow> (\<exists>r w'. run w = Some (r, w') \<and> ok w' \<and> fails_only good r))"

definition sound_outcome :: "(go_error \<Rightarrow> bool) \<Rightarrow> client_outcome \<Rightarrow> bool" where
  "sound_outcome good out =
     (case out of Answered r \<Rightarrow> fails_only good r \<and> r \<noteq> Inr (Created 0) | ClosedWith _ \<Rightarrow> True)"

locale rift_client =
  fixes cl :: "'w client" and ok :: "'w \<Rightarrow> bool" and good :: "go_error \<Rightarrow> bool"
  assumes create: "keeps ok good (cl_create cl ctx i)"
    and delete: "keeps ok good (cl_delete cl ctx port)"
    and delete_all: "keeps ok good (cl_delete_all cl ctx)"
    and replace_stubs: "keeps ok good (cl_replace_stubs cl ctx port stubs)"
    and add_stub: "keeps ok good (cl_add_stub cl ctx port st index)"
    and recorded: "keeps ok good (cl_recorded cl ctx port)"
    and clear_recorded: "keeps ok good (cl_clear_recorded cl ctx port)"
    and verify: "keeps ok good (cl_verify cl ctx port q)"
    and set_scenario_state: "keeps ok good (cl_set_scenario_state cl ctx port scenario state flow)"
    and reset_scenarios: "keeps ok good (cl_reset_scenarios cl ctx port flow)"
    and created_port: "cl_create cl ctx i w = Some (Inr p, w') \<Longrightarrow> ok w \<Longrightarrow> p \<noteq> 0"
    and close: "ok w \<Longrightarrow> \<exists>err w'. cl_close cl w = Some (err, w') \<and> ok w'"
begin

lemma replying_keeps:
  assumes "keeps ok good run" and "ok w"
  shows "\<exists>r w'. replying k run w = Some (map_sum id k r, w') \<and> run w = Some (r, w') \<and> ok w' \<and> fails_only good (map_sum id k r)"
proof -
  obtain r w' where "run w = Some (r, w')" "ok w'" "fails_only good r" using assms unfolding keeps_def by blast
  then show ?thesis by (cases r) (auto simp: replying_def fails_only_def)
qed

lemma perform_sound:
  assumes "ok w"
  shows "\<exists>r w'. perform cl ctx c w = Some (r, w') \<and> ok w' \<and> fails_only good r \<and> r \<noteq> Inr (Created 0)"
proof -
  note go = replying_keeps [OF _ assms]
  have plain: "\<exists>r w'. replying k run w = Some (r, w') \<and> ok w' \<and> fails_only good r \<and> r \<noteq> Inr (Created 0)"
    if "keeps ok good run" "\<And>x. k x \<noteq> Created 0" for k and run :: "('w, 'b) act"
    using go [OF that(1), where k = k] that(2) by (metis map_sum_sel(2) map_sum.simps sum.disc(2) sum.sel(2) old.sum.exhaust sum.distinct(1))
  show ?thesis
  proof (cases c)
    case (CallCreate i)
    obtain r w' where run: "replying Created (cl_create cl ctx i) w = Some (map_sum id Created r, w')"
      "cl_create cl ctx i w = Some (r, w')" "ok w'" "fails_only good (map_sum id Created r)"
      using go [OF create] by blast
    have "map_sum id Created r \<noteq> Inr (Created 0)" using created_port run(2) assms by (cases r) auto
    then show ?thesis using run CallCreate by simp
  qed (auto intro!: plain delete delete_all replace_stubs add_stub recorded clear_recorded verify
      set_scenario_state reset_scenarios)
qed

lemma session_sound:
  "ok w \<Longrightarrow> \<exists>outs w'. session cl evs w = Some (outs, w') \<and> ok w' \<and> length outs = length evs \<and> list_all (sound_outcome good) outs"
proof (induction evs arbitrary: w)
  case (Cons ev evs)
  have "\<exists>out w'. client_step cl ev w = Some (out, w') \<and> ok w' \<and> sound_outcome good out"
    using perform_sound [OF Cons.prems] close [OF Cons.prems]
    by (cases ev) (fastforce simp: sound_outcome_def)+
  then obtain out w' where step: "client_step cl ev w = Some (out, w')" "ok w'" "sound_outcome good out" by blast
  from Cons.IH [OF step(2)] show ?case using step by auto
qed simp

end

section \<open>Both transports keep the promise\<close>

text \<open>An error of the admin API belongs to a sentinel, and never to \<open>ErrClosed\<close>.\<close>

definition admin_error :: "go_error \<Rightarrow> bool" where
  "admin_error e \<longleftrightarrow> kinds e \<noteq> {} \<and> ErrClosed \<notin> kinds e"

lemma fails_only_simps [simp]: "fails_only good (Inl e) = good e" "fails_only good (Inr v)"
  by (simp_all add: fails_only_def)

lemma exchanging_keeps: "(\<And>http. fails_only good (f http)) \<Longrightarrow> keeps (\<lambda>_. True) good (exchanging f)"
  by (simp add: keeps_def exchanging_def)

lemma admin_reply: "fails_only admin_error (remote_do r http c)"
  unfolding remote_do_def
  by (cases "http (build_request r c)")
     (auto simp: read_reply_def Let_def admin_error_def kinds_wrap http_error_kind_def)

lemma admin_discard: "fails_only admin_error (discard (remote_do r http c))"
  using admin_reply [of r http c] by (cases "remote_do r http c") (auto simp: discard_def)

lemma admin_decode:
  assumes "\<And>p. fails_only (\<lambda>e. admin_error (wrap e)) (d p)"
  shows "fails_only admin_error (decode_as wrap d (remote_do r http c))"
proof (cases "remote_do r http c")
  case (Inl e)
  then show ?thesis using admin_reply [of r http c] by (simp add: decode_as_def)
next
  case (Inr p)
  then show ?thesis using assms [of p] by (cases "d p") (simp_all add: decode_as_def)
qed

lemma unmarshal_fails: "fails_only (\<lambda>e. admin_error (wrap_invalid what e)) (json_unmarshal d p)"
  by (auto simp: json_unmarshal_def admin_error_def kinds_wrap split: option.split)

lemma admin_operations:
  "fails_only admin_error (remote_create_imposter r http i)"
  "fails_only admin_error (remote_recorded r http port)"
  "fails_only admin_error (remote_verify r http port q)"
proof -
  have "fails_only admin_error (decode_as (wrap_invalid ''decode created imposter'') (json_unmarshal dec_created)
          (remote_do r http (create_imposter_call i)))"
    by (rule admin_decode) (rule unmarshal_fails)
  then show "fails_only admin_error (remote_create_imposter r http i)"
    by (auto simp: remote_create_imposter_def admin_error_def kinds_wrap split: sum.split)
  show "fails_only admin_error (remote_recorded r http port)"
    unfolding remote_recorded_def
  proof (rule admin_decode)
    show "fails_only admin_error (decode_recorded p)" for p
      using unmarshal_fails [of "''decode recorded requests''" "\<lambda>j. dec_struct wrapped_fields j []" p]
      by (auto simp: decode_recorded_def split: sum.split)
  qed
  show "fails_only admin_error (remote_verify r http port q)"
    unfolding remote_verify_def by (rule admin_decode) (rule unmarshal_fails)
qed

interpretation admin_api: rift_client "remote_client r stopped" "\<lambda>_. True" admin_error for r stopped
proof unfold_locales
  show "p \<noteq> 0" if "cl_create (remote_client r stopped) ctx i net = Some (Inr p, net')" for ctx i net p net'
    using that by (auto simp: remote_client_def exchanging_def dest: create_returns_port)
qed (simp_all add: remote_client_def telling_def exchanging_keeps admin_discard admin_operations)

definition usable :: "'s embedded \<Rightarrow> bool" where
  "usable s \<longleftrightarrow> ready (fst s) (snd s)"

text \<open>An error of the embedded engine belongs to a sentinel.\<close>

definition belongs :: "go_error \<Rightarrow> bool" where
  "belongs e \<longleftrightarrow> kinds e \<noteq> {}"

lemma calling_keeps:
  assumes "\<And>e. engine_call e (f e)"
  shows "keeps usable belongs (calling f)"
  unfolding keeps_def usable_def calling_def belongs_def fails_only_def
  using engine_call.runs [OF assms] by (fastforce simp: classified_def split: sum.split)

lemma add_stub_call_runs: "engine_call e (engine_add_stub ctx e port st index)"
proof (cases "index > 2 ^ 31 - 1 \<or> index < - (2 ^ 31)")
  case True
  then show ?thesis by (unfold_locales) (auto simp: engine_add_stub_def kinds_wrap)
next
  case False
  then show ?thesis using codes.engine_call_axioms by (simp add: engine_add_stub_def)
qed

lemma port_not_zero:
  assumes "ready e w" and "op_port ctx e opn c w = Some (Inr p, w')"
  shows "p \<noteq> 0"
proof (cases "early ctx e")
  case None
  have "fst (pure_port e opn c (pr_native w) (pr_slots w (running_thread w))) = Inr p"
    using with_handle_implements [OF port_implements [of e c opn] assms(1) None] assms(2)
    by (auto simp: op_port_def)
  then show ?thesis by (auto simp: pure_port_def split: prod.splits if_splits)
next
  case (Some err)
  show ?thesis using assms(2) unfolding op_port_def with_handle_early [OF Some] by simp
qed

lemma closing_usable: "usable s \<Longrightarrow> \<exists>err s'. closing s = Some (err, s') \<and> usable s'"
  using close_outcome [of "fst s" "snd s"]
  by (cases "en_closed (fst s)") (auto simp: closing_def close_def usable_def ready_def split: if_splits)

interpretation embedded: rift_client "embedded_client parse" usable belongs for parse
proof unfold_locales
  show "p \<noteq> 0" if "cl_create (embedded_client parse) ctx i s = Some (Inr p, s')" "usable s" for ctx i s p s'
    using that by (auto dest: port_not_zero simp: embedded_client_def calling_def engine_create_imposter_def usable_def)
  show "\<exists>err s'. cl_close (embedded_client parse) s = Some (err, s') \<and> usable s'" if "usable s" for s
    using closing_usable [OF that] by (simp only: embedded_client_def client.simps)
qed (simp_all add: embedded_client_def,
     (rule calling_keeps;
        simp add: engine_create_imposter_def engine_delete_imposter_def engine_delete_all_def engine_replace_stubs_def
          engine_clear_recorded_def engine_set_scenario_state_def engine_reset_scenarios_def add_stub_call_runs
          ports.engine_call_axioms codes.engine_call_axioms recorded.engine_call_axioms verified.engine_call_axioms)+)

section \<open>One test, two transports\<close>

text \<open>What the engine behind a transport answers, whatever the wire.\<close>

datatype answer = Refused | Done | Bound "16 word" | Recordings "recorded_request list" | Counted verify_result

definition fits :: "client_call \<Rightarrow> answer \<Rightarrow> bool" where
  "fits c a \<longleftrightarrow>
     (case c of CallAddStub _ _ index \<Rightarrow> - (2 ^ 31) \<le> index \<and> index \<le> 2 ^ 31 - 1 | _ \<Rightarrow> True) \<and>
     (case a of
        Refused \<Rightarrow> True
      | Bound p \<Rightarrow> p \<noteq> 0 \<and> (case c of CallCreate _ \<Rightarrow> True | _ \<Rightarrow> False)
      | Recordings rs \<Rightarrow> list_all valid_recorded_request rs \<and> (case c of CallRecorded _ \<Rightarrow> True | _ \<Rightarrow> False)
      | Counted v \<Rightarrow> valid_verify_result v \<and> (case c of CallVerify _ _ \<Rightarrow> True | _ \<Rightarrow> False)
      | Done \<Rightarrow> (case c of CallCreate _ \<Rightarrow> False | CallRecorded _ \<Rightarrow> False | CallVerify _ _ \<Rightarrow> False | _ \<Rightarrow> True))"

text \<open>What the test should see.\<close>

definition expected :: "answer \<Rightarrow> client_reply option" where
  "expected a = (case a of Refused \<Rightarrow> None | Done \<Rightarrow> Some Ack | Bound p \<Rightarrow> Some (Created p)
     | Recordings rs \<Rightarrow> Some (Journal rs) | Counted v \<Rightarrow> Some (Counts v))"

definition seen :: "client_outcome \<Rightarrow> client_reply option" where
  "seen out = (case out of Answered (Inr reply) \<Rightarrow> Some reply | _ \<Rightarrow> None)"

text \<open>The answer as a body, on the admin API and from the library; a journal comes in either of two shapes.\<close>

fun carries :: "json \<Rightarrow> answer \<Rightarrow> bool" where
  "carries doc (Bound p) \<longleftrightarrow> dec_created doc = Some p"
| "carries doc (Recordings rs) \<longleftrightarrow> doc = JArr (map enc_recorded_request rs)"
| "carries doc (Counted v) \<longleftrightarrow> doc = enc_verify_result v"
| "carries _ _ \<longleftrightarrow> False"

definition enveloped :: "json \<Rightarrow> answer \<Rightarrow> bool" where
  "enveloped doc a = (case a of Recordings rs \<Rightarrow> doc = JObj [(''requests'', JArr (map enc_recorded_request rs))] | _ \<Rightarrow> False)"

lemma enveloped_simps [simp]:
  "\<not> enveloped doc Refused" "\<not> enveloped doc Done" "\<not> enveloped doc (Bound p)" "\<not> enveloped doc (Counted v)"
  "enveloped doc (Recordings rs) \<longleftrightarrow> doc = JObj [(''requests'', JArr (map enc_recorded_request rs))]"
  by (simp_all add: enveloped_def)

definition http_says :: "answer \<Rightarrow> exchange \<Rightarrow> bool" where
  "http_says a x = (case x of
     Replied code _ body \<Rightarrow>
       if code < 200 \<or> code \<ge> 300 then a = Refused
       else a = Done \<or> (case pl_doc body of None \<Rightarrow> False | Some doc \<Rightarrow> carries doc a \<or> enveloped doc a)
   | _ \<Rightarrow> a = Refused)"

datatype native_result = Code "32 word" | PortOf "16 word" | TextOf "string option"

fun library_result :: "'s engine \<Rightarrow> client_call \<Rightarrow> 's \<Rightarrow> native_result \<times> 's" where
  "library_result e (CallCreate i) s =
     (case nl_port (en_sym e) (en_handle e) (NCreateImposter (enc_imposter i)) s of (p, _, s') \<Rightarrow> (PortOf p, s'))"
| "library_result e (CallRecorded port) s =
     (case nl_text (en_sym e) (en_handle e) (NRecorded port) s of (t, _, s') \<Rightarrow> (TextOf t, s'))"
| "library_result e (CallVerify port q) s =
     (case nl_text (en_sym e) (en_handle e) (NVerify port (enc_verify_request q)) s of (t, _, s') \<Rightarrow> (TextOf t, s'))"
| "library_result e c s =
     (case nl_int (en_sym e) (en_handle e)
        (case c of CallDelete port \<Rightarrow> NDeleteImposter port
         | CallReplaceStubs port stubs \<Rightarrow> NReplaceStubs port (enc_stubs stubs)
         | CallAddStub port st index \<Rightarrow> NAddStub port (enc_stub st) (word_of_int index)
         | CallClearRecorded port \<Rightarrow> NClearRecorded port
         | CallSetScenarioState port scenario state flow \<Rightarrow> NSetScenarioState port scenario state flow
         | CallResetScenarios port flow \<Rightarrow> NResetScenarios port flow
         | _ \<Rightarrow> NDeleteAll) s of (rc, _, s') \<Rightarrow> (Code rc, s'))"

fun library_says :: "(string \<Rightarrow> json option) \<Rightarrow> answer \<Rightarrow> native_result \<Rightarrow> bool" where
  "library_says parse a (Code rc) \<longleftrightarrow> (if rc = 0 then a = Done else a = Refused)"
| "library_says parse a (PortOf p) \<longleftrightarrow> (if p = 0 then a = Refused else a = Bound p)"
| "library_says parse a (TextOf None) \<longleftrightarrow> a = Refused"
| "library_says parse a (TextOf (Some t)) \<longleftrightarrow> (case parse (c_text t) of None \<Rightarrow> False | Some doc \<Rightarrow> carries doc a)"

text \<open>The request a call sends.\<close>

fun admin_request :: "client_call \<Rightarrow> admin_call" where
  "admin_request (CallCreate i) = create_imposter_call i"
| "admin_request (CallDelete port) = delete_imposter_call port"
| "admin_request CallDeleteAll = delete_all_call"
| "admin_request (CallReplaceStubs port stubs) = replace_stubs_call port stubs"
| "admin_request (CallAddStub port st index) = add_stub_call port st index"
| "admin_request (CallRecorded port) = recorded_call port"
| "admin_request (CallClearRecorded port) = clear_recorded_call port"
| "admin_request (CallVerify port q) = verify_call port q"
| "admin_request (CallSetScenarioState port scenario state flow) = set_scenario_state_call port scenario state flow"
| "admin_request (CallResetScenarios port flow) = reset_scenarios_call port flow"

fun http_agrees :: "remote \<Rightarrow> (client_call \<times> answer) list \<Rightarrow> net \<Rightarrow> bool" where
  "http_agrees r [] net = True"
| "http_agrees r ((c, a) # cas) net =
     (http_says a (net 0 (build_request r (admin_request c))) \<and> http_agrees r cas (\<lambda>n. net (Suc n)))"

fun library_agrees :: "(string \<Rightarrow> json option) \<Rightarrow> 's engine \<Rightarrow> (client_call \<times> answer) list \<Rightarrow> 's \<Rightarrow> bool" where
  "library_agrees parse e [] s = True"
| "library_agrees parse e ((c, a) # cas) s =
     (case library_result e c s of (r, s') \<Rightarrow> library_says parse a r \<and> library_agrees parse e cas s')"

lemma remote_reply:
  "http_says a x \<Longrightarrow>
     (if a = Refused then \<exists>err. read_reply c x = Inl err
      else \<exists>body. read_reply c x = Inr body \<and>
        (a \<noteq> Done \<longrightarrow> (\<exists>doc. pl_doc body = Some doc \<and> (carries doc a \<or> enveloped doc a))))"
  by (cases x) (auto simp: http_says_def read_reply_def Let_def split: if_splits option.splits)

lemma telling_agrees:
  assumes "http_says a (net 0 (build_request r c))" and "a = Refused \<or> a = Done"
  shows "\<exists>res. replying (\<lambda>_. Ack) (telling r c) net = Some (res, \<lambda>n. net (Suc n)) \<and> seen (Answered res) = expected a"
  using remote_reply [OF assms(1), of c] assms(2)
  by (auto simp: replying_def telling_def exchanging_def remote_do_def discard_def seen_def expected_def)

lemma create_agrees:
  assumes "http_says a (net 0 (build_request r (create_imposter_call i)))" and "fits (CallCreate i) a"
  shows "\<exists>res. replying Created (exchanging (\<lambda>http. remote_create_imposter r http i)) net = Some (res, \<lambda>n. net (Suc n)) \<and>
    seen (Answered res) = expected a"
  using remote_reply [OF assms(1), of "create_imposter_call i"] assms(2)
  by (cases a)
     (auto simp: replying_def exchanging_def remote_create_imposter_def remote_do_def decode_as_def json_unmarshal_def
       seen_def expected_def fits_def)

lemma recorded_agrees:
  assumes "http_says a (net 0 (build_request r (recorded_call port)))" and "fits (CallRecorded port) a"
  shows "\<exists>res. replying Journal (exchanging (\<lambda>http. remote_recorded r http port)) net = Some (res, \<lambda>n. net (Suc n)) \<and>
    seen (Answered res) = expected a"
  using remote_reply [OF assms(1), of "recorded_call port"] assms(2)
  by (cases a)
     (auto simp: replying_def exchanging_def remote_recorded_def remote_do_def decode_as_def
       decode_recorded_array decode_recorded_envelope seen_def expected_def fits_def)

lemma verify_result_returns: "valid_verify_result v \<Longrightarrow> dec_verify_result (enc_verify_result v) = Some v"
  using verify_result.dec_enc_struct by (simp add: dec_verify_result_def enc_verify_result_def)

lemma verify_agrees:
  assumes "http_says a (net 0 (build_request r (verify_call port q)))" and "fits (CallVerify port q) a"
  shows "\<exists>res. replying Counts (exchanging (\<lambda>http. remote_verify r http port q)) net = Some (res, \<lambda>n. net (Suc n)) \<and>
    seen (Answered res) = expected a"
  using remote_reply [OF assms(1), of "verify_call port q"] assms(2)
  by (cases a)
     (auto simp: replying_def exchanging_def remote_verify_def remote_do_def decode_as_def json_unmarshal_def
       verify_result_returns seen_def expected_def fits_def)

lemma remote_call_agrees:
  assumes "http_says a (net 0 (build_request r (admin_request c)))" and "fits c a"
  shows "\<exists>res. perform (remote_client r stopped) ctx c net = Some (res, \<lambda>n. net (Suc n)) \<and> seen (Answered res) = expected a"
proof -
  have plain: "a = Refused \<or> a = Done" if "\<And>i. c \<noteq> CallCreate i" "\<And>p. c \<noteq> CallRecorded p" "\<And>p q. c \<noteq> CallVerify p q"
    using assms(2) that by (cases c; cases a) (auto simp: fits_def)
  show ?thesis
    using assms plain
    by (cases c) (auto simp: remote_client_def intro!: telling_agrees create_agrees recorded_agrees verify_agrees)
qed

section \<open>The embedded side\<close>

text \<open>A call of the embedded client that returned and did what the library's answer says.\<close>

definition did :: "'s embedded \<Rightarrow> ('s embedded, client_reply) act \<Rightarrow> answer \<Rightarrow> 's \<Rightarrow> bool" where
  "did st run a s' \<longleftrightarrow>
     (\<exists>res w'. run st = Some (res, fst st, w') \<and> ready (fst st) w' \<and> pr_native w' = s' \<and> seen (Answered res) = expected a)"

lemma code_did:
  assumes "ready e w" and "\<not> en_closed e" and "a = Refused \<or> a = Done"
    and "nl_int (en_sym e) (en_handle e) nc (pr_native w) = (rc, d, s')" and "library_says parse a (Code rc)"
  shows "did (e, w) (replying (\<lambda>_. Ack) (calling (\<lambda>e. op_rc None e opn nc))) a s'"
  using op_outcome(1) [OF assms(1,2), of opn nc] assms(3-)
  by (auto simp: did_def replying_def calling_def pure_rc_def seen_def expected_def split: if_splits)

lemma port_did:
  assumes "ready e w" and "\<not> en_closed e" and "fits (CallCreate i) a"
    and "nl_port (en_sym e) (en_handle e) nc (pr_native w) = (p, d, s')" and "library_says parse a (PortOf p)"
  shows "did (e, w) (replying Created (calling (\<lambda>e. op_port None e opn nc))) a s'"
  using op_outcome(2) [OF assms(1,2), of opn nc] assms(3-)
  by (auto simp: did_def replying_def calling_def pure_port_def seen_def expected_def fits_def split: if_splits)

lemma recorded_did:
  assumes "ready e w" and "\<not> en_closed e" and "fits (CallRecorded port) a"
    and "nl_text (en_sym e) (en_handle e) (NRecorded port) (pr_native w) = (t, d, s')" and "library_says parse a (TextOf t)"
  shows "did (e, w) (replying Journal (calling (\<lambda>e. engine_recorded parse None e port))) a s'"
proof -
  obtain w' where op: "op_text parse None e ''recorded requests'' (NRecorded port) w =
      Some (fst (pure_text parse e ''recorded requests'' (NRecorded port) (pr_native w) (pr_slots w (running_thread w))), w')"
    "pr_native w' = s'" "ready e w'"
    using op_outcome(3) [OF assms(1,2), of parse "''recorded requests''" "NRecorded port"] assms(4)
    by (auto simp: pure_text_def)
  show ?thesis
    using op assms(3-) recorded_request_doc.traverse_enc
    by (cases t; cases a)
       (auto simp: did_def replying_def calling_def engine_recorded_def decode_reply_def pure_text_def decode_as_def json_unmarshal_def
         dec_slice_def seen_def expected_def fits_def split: option.splits)
qed

lemma verify_did:
  assumes "ready e w" and "\<not> en_closed e" and "fits (CallVerify port q) a"
    and "nl_text (en_sym e) (en_handle e) (NVerify port (enc_verify_request q)) (pr_native w) = (t, d, s')"
    and "library_says parse a (TextOf t)"
  shows "did (e, w) (replying Counts (calling (\<lambda>e. engine_verify parse None e port q))) a s'"
proof -
  let ?c = "NVerify port (enc_verify_request q)"
  obtain w' where op: "op_text parse None e ''verify'' ?c w =
      Some (fst (pure_text parse e ''verify'' ?c (pr_native w) (pr_slots w (running_thread w))), w')"
    "pr_native w' = s'" "ready e w'"
    using op_outcome(3) [OF assms(1,2), of parse "''verify''" ?c] assms(4) by (auto simp: pure_text_def)
  show ?thesis
    using op assms(3-)
    by (cases t; cases a)
       (auto simp: did_def replying_def calling_def engine_verify_def decode_reply_def pure_text_def decode_as_def json_unmarshal_def
         verify_result_returns seen_def expected_def fits_def split: option.splits)
qed

lemma embedded_call_agrees:
  assumes ok: "ready e w" "\<not> en_closed e" and fits: "fits c a"
    and lib: "library_result e c (pr_native w) = (x, s')" "library_says parse a x"
  shows "did (e, w) (perform (embedded_client parse) None c) a s'"
proof -
  have plain: "a = Refused \<or> a = Done" if "\<And>i. c \<noteq> CallCreate i" "\<And>p. c \<noteq> CallRecorded p" "\<And>p q. c \<noteq> CallVerify p q"
    using fits that by (cases c; cases a) (auto simp: fits_def)
  show ?thesis
  proof (cases c)
    case (CallAddStub port st index)
    with fits have "\<not> (index > 2 ^ 31 - 1 \<or> index < - (2 ^ 31))" by (auto simp: fits_def)
    then have "engine_add_stub None e port st index = op_rc None e ''add stub'' (NAddStub port (enc_stub st) (word_of_int index))"
      for e :: "'a engine" by (simp add: engine_add_stub_def)
    then show ?thesis using code_did [OF ok plain] lib CallAddStub
      by (auto simp: embedded_client_def split: prod.splits)
  qed (use lib fits plain in \<open>auto simp: embedded_client_def engine_create_imposter_def engine_delete_imposter_def
         engine_delete_all_def engine_replace_stubs_def engine_clear_recorded_def engine_set_scenario_state_def
         engine_reset_scenarios_def split: prod.splits
       intro!: code_did [OF ok] port_did [OF ok] recorded_did [OF ok] verify_did [OF ok]\<close>)
qed

definition asks :: "(client_call \<times> answer) list \<Rightarrow> client_event list" where
  "asks cas = map (\<lambda>(c, _). Ask None c) cas"

lemma remote_session_agrees:
  "http_agrees r cas net \<Longrightarrow> list_all (\<lambda>(c, a). fits c a) cas \<Longrightarrow>
     \<exists>outs net'. session (remote_client r stopped) (asks cas) net = Some (outs, net') \<and>
       map seen outs = map (\<lambda>(_, a). expected a) cas"
proof (induction cas arbitrary: net)
  case (Cons ca cas)
  obtain c a where ca: "ca = (c, a)" by force
  obtain res where res: "perform (remote_client r stopped) None c net = Some (res, \<lambda>n. net (Suc n))"
    "seen (Answered res) = expected a"
    using remote_call_agrees Cons.prems unfolding ca by fastforce
  from Cons.IH [of "\<lambda>n. net (Suc n)"] Cons.prems res show ?case by (auto simp: asks_def ca)
qed (simp add: asks_def)

lemma embedded_session_agrees:
  assumes open_engine: "\<not> en_closed e"
  shows "ready e w \<Longrightarrow> library_agrees parse e cas (pr_native w) \<Longrightarrow> list_all (\<lambda>(c, a). fits c a) cas \<Longrightarrow>
     \<exists>outs w'. session (embedded_client parse) (asks cas) (e, w) = Some (outs, e, w') \<and> ready e w' \<and>
       map seen outs = map (\<lambda>(_, a). expected a) cas"
proof (induction cas arbitrary: w)
  case (Cons ca cas)
  obtain c a where ca: "ca = (c, a)" by force
  obtain x s' where lib: "library_result e c (pr_native w) = (x, s')" by force
  have "did (e, w) (perform (embedded_client parse) None c) a s'"
    using embedded_call_agrees [OF Cons.prems(1) open_engine _ lib] Cons.prems(2,3) lib by (simp add: ca)
  then obtain res w' where res: "perform (embedded_client parse) None c (e, w) = Some (res, e, w')" "ready e w'"
    "pr_native w' = s'" "seen (Answered res) = expected a"
    by (auto simp: did_def)
  from Cons.IH [OF res(2)] Cons.prems(2,3) res lib show ?case by (auto simp: asks_def ca)
qed (simp add: asks_def)

end
