(* ===== verification/Spec2Isabelle.thy ===== *)
theory Spec2Isabelle
  imports Remote Fetch Engine_Ops Engine_Lock Shutdown Intercept Testkit Conformance Decoding Sharing Client
begin

text \<open>
  The Go client of the Rift service-virtualisation engine, modelled from its sources.

  THE PROGRAM.  A test describes imposters (mock servers) with the builders of package \<open>rift\<close>, hands
  them to an engine as JSON, and asks the engine what arrived.  The engine is reached over one of
  three transports with the same interface \<open>rift.Client\<close>: the HTTP admin API (\<open>Connect\<close>), a child
  process serving that API (\<open>Spawn\<close>), or a native library loaded into the process (package
  \<open>riftembed\<close>), which the command \<open>rift-fetch\<close> installs (package \<open>riftfetch\<close>).  Package \<open>rifttest\<close>
  ties an engine to the tests of a binary, and package \<open>conformance\<close> loads the fixtures that are
  replayed against it.

  THEORIES, from the bottom up.
  Prelude: association lists as Go maps (locale \<open>string_map\<close>), traversals, decimal numerals.
  Machines: runs of step relations, with locales for an invariant (\<open>invariant\<close>) and for a rank that
  bounds a waiting time (\<open>ranked\<close>).  Strings, Urls, Paths: what the sources use of Go's \<open>strings\<close>,
  \<open>net/url\<close> and, for Unix, \<open>path/filepath\<close>.
  Json: documents as trees, \<open>any\<close> values and float64 rounding.  Codec and CodecLaws: encoding/json on
  tagged structs as tables of fields, and the escape hatch of \<open>rift/json.go\<close>
  (\<open>marshal_with_extra\<close> for \<open>marshalWithExtra\<close>, \<open>unmarshal_with_extra\<close>); the locales \<open>value_codec\<close>,
  \<open>doc_codec\<close>, \<open>struct_codec\<close>, \<open>open_struct\<close>, \<open>closed_struct\<close> state what a field, a document and a
  struct promise, and every struct is an interpretation.
  Model and ModelLaws: the structs of \<open>rift/model.go\<close> (\<open>imposter\<close>, \<open>stub\<close>, \<open>predicate\<close> and the rest),
  their field tables, encoders and decoders.
  Decoding: what decoding produces, for documents that spell the declared keys exactly (locales
  \<open>typed_value\<close>, \<open>typed_doc\<close>, \<open>field_typed\<close>).
  Matchers, StubBuilder, Responses, Imposters: \<open>rift/predicate.go\<close>, \<open>rift/stub.go\<close>,
  \<open>rift/response.go\<close> with \<open>rift/behaviors.go\<close> (locale \<open>behaving\<close> for the two builders that carry
  behaviours), \<open>rift/imposter.go\<close>.  A builder's chain of calls is a list of calls folded by a step.
  Sharing: the response builders again, on a heap with the pointers \<open>BuildResponse\<close> copies (locale
  \<open>region\<close>), and tests that use several builders and return what they build at any moment.
  Verify: \<open>rift/verify.go\<close>.  Errors: \<open>rift/errors.go\<close> with error values as trees that
  \<open>errors.Is\<close> walks; \<open>kinds\<close> is the set of sentinels an error matches.
  WireApi and Remote: \<open>rift/remote.go\<close>; a request as a value, the exchange as a parameter, the
  replies in the locale \<open>lane\<close>.
  Spawn: finding the binary, starting it and waiting for it (\<open>rift/spawn.go\<close>).  Shutdown: \<open>stop\<close> of
  the same file, as a step relation of its callers, the goroutine that waits and the child.
  Loader: \<open>riftembed/loader.go\<close> on a host given by its environment and files.  Fetch:
  \<open>riftfetch/fetch.go\<close> and \<open>cmd/rift-fetch/main.go\<close>.
  Native: \<open>riftembed/ffi.go\<close>; the library is a record of functions on its own state, a downcall
  steps a record \<open>process\<close> (library state, strings it gave out, loads and unloads, locks of the
  thread, error slot of each thread), and None is a crash.  Engine: \<open>riftembed/engine.go\<close>, with the locale \<open>engine_call\<close>
  for what every operation promises.  ServeOptions and Engine_Ops: \<open>riftembed/buildinfo.go\<close> and
  \<open>riftembed/ops.go\<close>.  Engine_Lock: the read-write lock of the engine among goroutines, as a step
  relation.  Intercept: \<open>riftembed/intercept.go\<close>.
  Client: the interface \<open>rift.Client\<close> as a record of operations, its implementations over the admin
  API and in the process, and sessions of calls; the locale \<open>rift_client\<close> is what every transport
  promises.
  Testkit: \<open>rifttest/rifttest.go\<close>.  Conformance: \<open>conformance/corpus.go\<close>.

  WHAT THE LEMMAS SHOW, in the order of this file.
  The wire model: what is built, or written by hand with the values Go can hold, comes back from the
  wire as it was; keys the structs do not declare survive, and which ones lose.
  What is decoded is well-formed.
  Builders: a response that was returned follows its builder, and builders do not disturb each
  other; the predicates of a stub are those of a reference that groups its matchers by operator
  and parameters; the order of behaviours, durations, certificate policies.
  Verification and errors: the counts a matcher accepts, and the sentinel each failure matches.
  The admin-API client: the errors and the shapes of replies that are accepted, and the path sent.
  The native library: nothing unverified is ever at the destination, in any state the file system
  goes through, and the loader then finds what was installed.
  The embedded engine: every operation refines a call of the library, returns the strings it was
  given and leaves the thread as it was; a start is balanced whatever fails; nothing is called after
  a close; sessions of the interface run to their end with classified errors and see the same on both
  transports when the engine behind them answers alike; among goroutines, no call overlaps the stopping of the engine, and a close gets through.
  The spawned engine: no failure leaves a child; waiting ends; the shutdown runs once and can always
  be completed.
  The intercept listener, the test kit and the corpus: validation, secrets, the shared engine, the
  report of an assertion, and the paths of fixtures.

  BOUNDS AND FUEL.  Numbers of the wire are \<open>int\<close> bounded by \<open>go_int\<close>, ports 16-bit words, durations
  nanosecond counts.  Decoding a predicate recurses on the size of the document
  (\<open>dec_predicate_fuel\<close>, which the decoder starts with enough of).  The readiness loop is a
  \<open>partial_function\<close> on the sequence of probes: with a clock that advances by the time a probe and
  a pause take it ends after at most \<open>(timeout + 1290 ms) / 320 ms + 2\<close> pings, whose pauses double from 10 to
  320 ms.  The grace period of a shutdown is 5000 ticks of a millisecond.  A rank
  bounds what a close still waits for in \<open>Engine_Lock\<close>.

  NOT MODELLED.  JSON is a tree: the text, invalid UTF-8, numbers that are not integers, the nesting
  limit of the decoder and duplicate members that refill one slice are left out, and so are the
  texts of the decoder's own errors.  HTTP, TLS, X.509 and SHA-256, the parsing of URLs, the
  outcome of system calls, the contents of the engine and of its library, and Go's printing of
  untyped values are parameters.  Raw paths of URLs, the cancellation of a context in the middle of
  a call, file paths on Windows and the loading of DLLs, process groups and the forwarding of a
  child's output, the machinery of purego, and the texts of progress lines are not modelled.  The
  generated documents, the examples and the test files of the repository are outside.
\<close>

section \<open>The wire model\<close>






text \<open>C2. A whole configuration whose free-form values are Go values and whose extra keys match no
  field, recursive predicates at any depth included, decodes from its own document to itself.\<close>

theorem config_roundtrip:
  assumes "valid_imposters_config c"
  shows "dec_imposters_config (enc_imposters_config c) = Some c"
  by (rule imposters_config_doc.roundtrip [OF assms])

abbreviation example_config :: imposters_config where
  "example_config \<equiv>
     \<lparr>ic_imposters = Some [imposter_zero
        \<lparr>imp_port := 4545,
         imp_stubs := [stub_zero\<lparr>st_predicates := [pred_not (pred_and [predicate_on ''path'' (m_equals (JStr ''/a''))])]\<rparr>]\<rparr>],
      ic_extra = [(''futureKey'', JArr [JNum 7, JNull])]\<rparr>"

theorem config_roundtrip_witness:
  "dec_imposters_config (enc_imposters_config example_config) = Some example_config"
proof (rule config_roundtrip)
  have "fold_name ''imposters'' \<noteq> fold_name ''futureKey''" by code_simp
  then show "valid_imposters_config example_config"
    by (simp add: valid_imposters_config_def valid_imposter_def imposter_zero_def valid_stub_def stub_zero_def
        dsl_valid m_equals_def mk_matcher_def extra_ok_def imposters_config_fields_def find_field_def
        f64_of_int_exact)
qed






text \<open>C4. Whatever imposter document decodes, a key the model does not declare comes out of
  re-encoding with the untyped value it decoded to (the last one, when the document repeats
  it), and stays absent when it was absent.\<close>

theorem imposter_keeps_unknown_keys:
  assumes "dec_imposter (JObj kvs) = Some i" and "k \<notin> set (known_keys imposter_fields)"
  shows "obj_get (enc_imposter i) k = Option.bind (obj_get (JObj kvs) k) go_any"
  using imposter.unknown_key_survives [of kvs i k] assms by (simp add: dec_imposter_def enc_imposter_def)

theorem imposter_keeps_unknown_keys_witness:
  "\<exists>i. dec_imposter (JObj [(''port'', JNum 1), (''newKey'', JBool True)]) = Some i \<and>
     obj_get (enc_imposter i) ''newKey'' = Some (JBool True)"
proof -
  have "find_field imposter_fields ''newKey'' = None"
    unfolding find_field_None_iff imposter_keys by code_simp
  then have dec: "dec_imposter (JObj [(''port'', JNum 1), (''newKey'', JBool True)])
      = Some (imposter_zero\<lparr>imp_port := 1, imp_extra := [(''newKey'', JBool True)]\<rparr>)"
    by (simp add: dec_imposter_simps f64_of_int_exact)
  have "''newKey'' \<notin> set (known_keys imposter_fields)" unfolding imposter_keys by simp
  from imposter_keeps_unknown_keys [OF dec this] dec show ?thesis by (simp add: obj_get_def)
qed

text \<open>C5. Under a declared key an imposter's document holds the field's value whenever the field is
  written, whatever Extra holds; when omitempty drops the field, an Extra entry of that key is
  written in its place.\<close>

theorem declared_key_precedence:
  assumes "f \<in> set imposter_fields"
  shows "obj_get (enc_imposter i) (fname f) =
    (case fenc f i of Some j \<Rightarrow> Some j | None \<Rightarrow> gm_get (imp_extra i) (fname f))"
  using imposter.marshal_declared [OF assms, of i] imposter.marshal_omitted [OF assms, of i]
  by (simp add: enc_imposter_def split: option.split)

theorem declared_key_precedence_witness:
  "obj_get (enc_imposter (ib_with_extra ''port'' (JNum 9) (ib_port 0 (new_imposter [])))) ''port'' = Some (JNum 9) \<and>
   obj_get (enc_imposter (ib_with_extra ''port'' (JNum 9) (ib_port 5 (new_imposter [])))) ''port'' = Some (JNum 5)"
proof -
  let ?f = "mk_field ''port'' omit_u16 imp_port imp_port_update"
  have "?f \<in> set imposter_fields" by (simp add: imposter_fields_def)
  from declared_key_precedence [OF this, of "ib_with_extra ''port'' (JNum 9) (ib_port 0 (new_imposter []))"]
    declared_key_precedence [OF this, of "ib_with_extra ''port'' (JNum 9) (ib_port 5 (new_imposter []))"]
  show ?thesis
    by (simp add: ib_with_extra_def ib_port_def new_imposter_def imposter_zero_def omit_u16_def gm_get_def)
qed

text \<open>C6. A port under any other casing of its key is decoded into the field and also kept as an
  unknown key, so re-encoding writes it twice, under both spellings.\<close>

theorem case_variant_kept_twice:
  assumes "k \<noteq> ''port''" and "fold_name k = fold_name ''port''" and "0 < n" and "n < 2 ^ 16"
  shows "\<exists>i. dec_imposter (JObj [(k, JNum n)]) = Some i \<and> imp_port i = word_of_int n \<and>
    obj_get (enc_imposter i) k = Some (JNum n) \<and> obj_get (enc_imposter i) ''port'' = Some (JNum n)"
proof -
  have "list_all (\<lambda>k'. k' = ''port'' \<or> fold_name k' \<noteq> fold_name ''port'') (known_keys imposter_fields)"
    unfolding imposter_keys by code_simp
  then have unknown: "k \<notin> set (known_keys imposter_fields)" using assms(1,2) by (auto simp: list_all_iff)
  then have found: "find_field imposter_fields k = Some (mk_field ''port'' omit_u16 imp_port imp_port_update)"
    by (simp add: find_field_folded assms(2)) (simp add: imposter_fields_def)
  define i where "i = imposter_zero\<lparr>imp_port := word_of_int n, imp_extra := [(k, JNum n)]\<rparr>"
  have "f64_of_int n = Some n" using assms(3,4) by (intro f64_of_int_exact) simp
  then have dec: "dec_imposter (JObj [(k, JNum n)]) = Some i"
    using assms(3,4) unknown [unfolded imposter_keys] by (simp add: dec_imposter_simps found i_def)
  have port: "uint (word_of_int n :: 16 word) = n" using assms(3,4) by (simp add: uint_word_of_int)
  then have "(word_of_int n :: 16 word) \<noteq> 0" using assms(3) by fastforce
  moreover have "mk_field ''port'' omit_u16 imp_port imp_port_update \<in> set imposter_fields"
    by (simp add: imposter_fields_def)
  note imposter.marshal_declared [OF this, of i "JNum n"]
  ultimately have "obj_get (enc_imposter i) ''port'' = Some (JNum n)"
    using port by (simp add: enc_imposter_def i_def omit_u16_def)
  moreover have "obj_get (enc_imposter i) k = Some (JNum n)"
    using imposter.unknown_key_survives [of "[(k, JNum n)]" i k] dec unknown \<open>f64_of_int n = Some n\<close>
    by (simp add: dec_imposter_def enc_imposter_def obj_get_def)
  ultimately show ?thesis using dec by (auto simp: i_def)
qed

theorem case_variant_kept_twice_witness:
  "\<exists>i. dec_imposter (JObj [(''Port'', JNum 4545)]) = Some i \<and> imp_port i = word_of_int 4545 \<and>
    obj_get (enc_imposter i) ''Port'' = Some (JNum 4545) \<and> obj_get (enc_imposter i) ''port'' = Some (JNum 4545)"
proof (rule case_variant_kept_twice)
  show "fold_name ''Port'' = fold_name ''port''" by code_simp
qed simp_all



section \<open>Stubs, responses and imposters\<close>

text \<open>C8. Build's one-pass grouping computes the reference: one predicate per distinct operator and
  parameter set, in first-seen order, each merged from exactly the matchers that share them,
  followed by the raw predicates; a builder with neither keeps the stub's predicates.\<close>

theorem build_groups_by_key:
  "build_stub b =
     (let preds = map (\<lambda>k. fold merge_fm (filter (\<lambda>fm. group_key_of fm = k) (sb_fields b))
                        (apply_params (snd k) predicate_zero))
                    (first_keys (sb_fields b)) @ sb_raw b
      in if preds = [] then sb_stub b else (sb_stub b)\<lparr>st_predicates := preds\<rparr>)"
  using build_stub_predicates [of b]
  by (auto simp: build_reference_def group_predicate_def Let_def)

text \<open>C9. However a stub builder was used before, after a chain of WithHeader calls on distinct names
  every one of these headers is constrained by a predicate of the built stub: under the
  matcher's operator, with its value and with exactly its parameters.\<close>

theorem every_header_is_constrained:
  assumes "distinct (map fst hs)" and "(n, m) \<in> set hs" and "m_op m \<in> set operators"
  shows "\<exists>p \<in> set (st_predicates (build_stub (fold (\<lambda>(n, m). with_header n m) hs b))).
    (\<exists>hdrs. existing_field p (m_op m) ''headers'' = JObj hdrs \<and> gm_get hdrs n = Some (m_value m)) \<and>
    pf_caseSensitive (p_flat p) = m_caseSensitive m \<and>
    pf_keyCaseSensitive (p_flat p) = m_keyCaseSensitive m \<and> pf_except (p_flat p) = m_except m"
proof -
  obtain xs ys where hs: "hs = xs @ (n, m) # ys" using split_list [OF assms(2)] by blast
  define k where "k = group_key_of (header_fm n m)"
  let ?b = "fold (\<lambda>(n, m). with_header n m) hs b" and ?fm = "\<lambda>(n, m). header_fm n m"
  have fields: "sb_fields ?b = (sb_fields b @ map ?fm xs) @ header_fm n m # map ?fm ys"
    unfolding with_headers_fields hs by simp
  have "\<exists>n' m'. fm = header_fm n' m' \<and> n' \<noteq> n" if "fm \<in> set (map ?fm ys)" for fm
  proof -
    note fm = that
    obtain h where h: "h \<in> set ys" "fm = header_fm (fst h) (snd h)"
      using fm by (auto simp: case_prod_unfold)
    moreover have "fst h \<noteq> n" using assms(1) h(1) unfolding hs by auto
    ultimately show ?thesis by blast
  qed
  then have "\<exists>hdrs. existing_field (group_predicate k (sharing k (sb_fields ?b))) (m_op m) ''headers''
      = JObj hdrs \<and> gm_get hdrs n = Some (m_value m)"
    unfolding fields by (intro header_in_group [OF assms(3) k_def]) blast
  moreover have "group_predicate k (sharing k (sb_fields ?b)) \<in> set (st_predicates (build_stub ?b))"
    by (rule in_build_stub [of "header_fm n m"]) (simp_all add: fields k_def)
  ultimately show ?thesis
    using params_group_predicate [of "m_op m" m] unfolding k_def group_key_of_def
    by (intro bexI) auto
qed

theorem every_header_is_constrained_witness:
  "\<exists>p \<in> set (st_predicates (build_stub
      (with_header ''X-Id'' (m_contains (JStr ''7'')) (with_header ''Accept'' (m_contains (JStr ''json'')) (on_get ''/x''))))).
    (\<exists>hdrs. existing_field p ''contains'' ''headers'' = JObj hdrs \<and> gm_get hdrs ''Accept'' = Some (JStr ''json''))"
  using every_header_is_constrained [of "[(''Accept'', m_contains (JStr ''json'')), (''X-Id'', m_contains (JStr ''7''))]"
      "''Accept''" "m_contains (JStr ''json'')" "on_get ''/x''"]
  by (auto simp: m_contains_def mk_matcher_def operators_def)

text \<open>C10. A second matcher on the same field with the same operator and parameters, and a value that
  is not an object, replaces the first one: the stub built is the one built without the first
  call, so the earlier constraint is not part of it.\<close>

theorem later_matcher_replaces:
  assumes "m_op m = m_op m'" and "matcher_params_of m = matcher_params_of m'"
    and "\<And>kvs. m_value m' \<noteq> JObj kvs"
  shows "build_stub (with_field fld m' (with_field fld m b)) = build_stub (with_field fld m' b)"
  using build_stub_overwrites [of "\<lparr>fm_field = fld, fm_matcher = m\<rparr>" "\<lparr>fm_field = fld, fm_matcher = m'\<rparr>" "sb_fields b" b]
    assms
  by (simp add: with_field_def group_key_of_def)

theorem later_matcher_replaces_witness:
  "build_stub (with_body (m_contains (JStr ''b'')) (with_body (m_contains (JStr ''a'')) (on_post ''/x''))) =
   build_stub (with_body (m_contains (JStr ''b'')) (on_post ''/x''))"
  unfolding with_body_def
  by (rule later_matcher_replaces) (simp_all add: m_contains_def mk_matcher_def matcher_params_of_def)

text \<open>C11. Behavior methods that write different keys can be called in any order: every permutation of
  the chain gives the same response, hence the same document.\<close>

theorem behavior_order_irrelevant:
  assumes "mset cs = mset cs'" and "distinct (map call_slot cs)"
  shows "fold response_behave cs b = fold response_behave cs' b"
proof -
  have "sr_behaviors (fold response_behave cs b) = sr_behaviors (fold response_behave cs' b)"
  proof (cases "cs = []")
    case True
    then show ?thesis using assms(1) by simp
  next
    case False
    moreover from this have "cs' \<noteq> []" using assms(1) by auto
    ultimately show ?thesis
      using setters_any_order [OF assms] by (simp add: response.block_chain fold_behave)
  qed
  moreover have "(fold response_behave cs b)\<lparr>sr_behaviors := None\<rparr> = (fold response_behave cs' b)\<lparr>sr_behaviors := None\<rparr>"
    by (simp add: response.rest_chain)
  ultimately show ?thesis by (rule response_eqI)
qed

theorem behavior_order_irrelevant_witness:
  "fold response_behave [Decorate ''d'', Repeat 3, After 2000000] ok_response =
   fold response_behave [After 2000000, Decorate ''d'', Repeat 3] ok_response"
  by (rule behavior_order_irrelevant) simp_all

text \<open>C12. A builder of responses keeps its pointers when a stub is returned what it builds. Whatever
  the order in which a test calls several builders and returns what they build, a response
  that was returned is served with the status, headers, body, mode, behaviours and templating
  its builder has at the end, in every block that was already there when it was returned;
  builders never disturb each other, and each ends as the calls made on it alone say.\<close>

theorem returned_response_follows_builder:
  assumes "i < length starts" and "w = fold build_step (es @ Return i # es') (open_shop starts)"
  shows "load_response (ws_heap w) (ws_cycle w ! length (ws_cycle (fold build_step es (open_shop starts))))
      = follow (fold response_step (calls_of i es) (start_value (starts ! i)))
          (fold response_step (calls_of i (es @ es')) (start_value (starts ! i))) \<and>
    load_response (ws_heap w) (ws_builders w i) = fold response_step (calls_of i (es @ es')) (start_value (starts ! i))"
proof
  note opened = open_shop_ok(1) [of starts] open_shop_ok(2) [OF assms(1)]
  show "load_response (ws_heap w) (ws_cycle w ! length (ws_cycle (fold build_step es (open_shop starts))))
      = follow (fold response_step (calls_of i es) (start_value (starts ! i)))
          (fold response_step (calls_of i (es @ es')) (start_value (starts ! i)))"
    using returned_load [OF opened(1) assms(2)] unfolding opened(2) .
  have "calls_of i (es @ Return i # es') = calls_of i (es @ es')" by (simp add: calls_of_def List.map_filter_def)
  then show "load_response (ws_heap w) (ws_builders w i)
      = fold response_step (calls_of i (es @ es')) (start_value (starts ! i))"
    using run_builders [OF opened(1), of "es @ Return i # es'" i] opened(2)
    unfolding assms(2) [symmetric] builder_shows_def by simp
qed

theorem returned_response_follows_builder_witness:
  "\<exists>w. w = fold build_step ([Call 0 (RHeader ''X'' ''1'')] @ Return 0 # [Call 0 (RHeader ''X'' ''2''), Return 0])
      (open_shop [SStatus 200]) \<and>
     map_option ir_headers (sr_is (load_response (ws_heap w) (ws_cycle w ! 0))) = Some [(''X'', JStr ''2'')]"
proof -
  define w where "w = fold build_step ([Call 0 (RHeader ''X'' ''1'')] @ Return 0 # [Call 0 (RHeader ''X'' ''2''), Return 0])
      (open_shop [SStatus 200])"
  have "ws_cycle (fold build_step [Call 0 (RHeader ''X'' ''1'')] (open_shop [SStatus 200])) = []"
    by (simp add: open_shop_ok(3) Let_def split_beta)
  moreover note returned_response_follows_builder [OF _ w_def]
  ultimately have "load_response (ws_heap w) (ws_cycle w ! 0)
      = follow (response_step (RHeader ''X'' ''1'') (start_value (SStatus 200)))
          (fold response_step [RHeader ''X'' ''1'', RHeader ''X'' ''2''] (start_value (SStatus 200)))"
    by (simp only: calls_of_def List.map_filter_def) simp
  then have "map_option ir_headers (sr_is (load_response (ws_heap w) (ws_cycle w ! 0))) = Some [(''X'', JStr ''2'')]"
    by (simp add: follow_def status_def status_of_def rb_with_header_def on_is_def ensure_is_def Let_def is_response_zero_def)
  then show ?thesis using w_def by blast
qed


text \<open>C14. The delay of any 64-bit duration comes back from the wire exactly; a non-negative duration
  is rounded down to whole milliseconds, by less than one millisecond.\<close>

theorem wait_survives_wire:
  assumes "- (2 ^ 63) \<le> d" and "d < 2 ^ 63"
  shows "map_option bh_wait (dec_behaviors (enc_behaviors (wait_for d behaviors_zero)))
      = Some (JNum (milliseconds d)) \<and>
    (0 \<le> d \<longrightarrow> milliseconds d * 1000000 \<le> d \<and> d - milliseconds d * 1000000 < 1000000)"
proof -
  have "valid_behaviors (behavior_setter (After d) behaviors_zero)"
    using assms by (intro valid_behavior_setter) simp_all
  then have "map_option bh_wait (dec_behaviors (enc_behaviors (wait_for d behaviors_zero)))
      = Some (JNum (milliseconds d))"
    by (simp add: behaviors_doc.roundtrip) (simp add: wait_for_def)
  then show ?thesis using milliseconds_truncates [of d] by auto
qed

theorem wait_survives_wire_witness:
  "map_option bh_wait (dec_behaviors (enc_behaviors (wait_for 1999999 behaviors_zero))) = Some (JNum 1)"
  using wait_survives_wire [of 1999999] by (simp add: milliseconds_def)

section \<open>Verification and errors\<close>

text \<open>C15. Each count matcher accepts exactly its interval when its bounds are not negative; a negative
  upper bound means no upper bound, so AtMost, Times and Between accept every large enough
  count then.\<close>

theorem count_matchers_accept:
  "(satisfied (at_least n) k \<longleftrightarrow> n \<le> k) \<and>
   (satisfied once k \<longleftrightarrow> k = 1) \<and>
   (satisfied never k \<longleftrightarrow> k = 0) \<and>
   (satisfied (times n) k \<longleftrightarrow> (if n < 0 then n \<le> k else k = n)) \<and>
   (satisfied (at_most n) k \<longleftrightarrow> 0 \<le> k \<and> (n < 0 \<or> k \<le> n)) \<and>
   (satisfied (between lo hi) k \<longleftrightarrow> lo \<le> k \<and> (hi < 0 \<or> k \<le> hi))"
  by (auto simp: satisfied_def at_least_def once_def never_def times_def at_most_def between_def)

text \<open>C16. errors.Is on the errors the SDK builds: wrapping adds its sentinel and keeps every sentinel
  of the wrapped error, and nothing else; an HTTP status is a missing imposter exactly for 404
  and an unavailable engine exactly for 502, 503 and 504; a verification error is a failed
  verification.\<close>

theorem error_classification:
  "(errors_is (wrap_invalid op e) s \<longleftrightarrow> s = ErrInvalidDefinition \<or> errors_is e s) \<and>
   (errors_is (wrap_unavailable op e) s \<longleftrightarrow> s = ErrEngineUnavailable \<or> errors_is e s) \<and>
   (errors_is (new_http_error op code msg) ErrImposterNotFound \<longleftrightarrow> code = 404) \<and>
   (errors_is (new_http_error op code msg) ErrEngineUnavailable \<longleftrightarrow> code \<in> {502, 503, 504}) \<and>
   (errors_is (new_http_error op code msg) ErrInvalidDefinition \<longleftrightarrow> code \<notin> {404, 502, 503, 504}) \<and>
   (errors_is (VerificationErr v) s \<longleftrightarrow> s = ErrVerificationFailed)"
  by (auto simp: errors_is_kinds kinds_wrap http_error_kind_def)

text \<open>C17. A message of the embedded engine is a missing imposter exactly when its lower-cased text
  contains "not found" or "no imposter"; every other message is an invalid definition.\<close>

theorem embedded_error_classification:
  "(errors_is (new_embedded_error op msg) ErrImposterNotFound \<longleftrightarrow>
     (\<exists>l r. to_lower msg = l @ ''not found'' @ r) \<or> (\<exists>l r. to_lower msg = l @ ''no imposter'' @ r)) \<and>
   (errors_is (new_embedded_error op msg) ErrInvalidDefinition \<longleftrightarrow>
     \<not> errors_is (new_embedded_error op msg) ErrImposterNotFound) \<and>
   (\<not> errors_is (new_embedded_error op msg) ErrEngineUnavailable)"
  unfolding errors_is_kinds kinds_embedded contains_sub_iff by auto

section \<open>The admin-API client\<close>



text \<open>C19. The path of a SetScenarioState request, decoded once as a server does, is the base path, the
  port and the escaped scenario name; the name itself arrives exactly when every byte of it
  may stand unescaped in a segment, because the URL is escaped a second time.\<close>

theorem scenario_path_decoded:
  assumes "pu_userinfo (rm_base r) = []"
  shows "(\<exists>path. hq_url (build_request r (set_scenario_state_call port scenario state flow)) =
      pu_scheme (rm_base r) @ ''://'' @ pu_host (rm_base r) @ path \<and>
      unescape path = Some (trim_slashes (pu_path (rm_base r)) @ ''/imposters/'' @ itoa port @
        ''/scenarios/'' @ path_escape scenario @ ''/state'')) \<and>
    (path_escape scenario = scenario \<longleftrightarrow> list_all segment_char scenario)"
proof -
  have "CHR ''?'' \<notin> set (ac_path (set_scenario_state_call port scenario state flow))"
    using path_escape_no_slash(2) [of scenario]
    by (simp add: set_scenario_state_call_def call_with_body_def)
  from build_request_url [OF this, of r] assms
  have "\<exists>path. hq_url (build_request r (set_scenario_state_call port scenario state flow)) =
      pu_scheme (rm_base r) @ ''://'' @ pu_host (rm_base r) @ path \<and>
      unescape path = Some (trim_slashes (pu_path (rm_base r)) @ ''/imposters/'' @ itoa port @
        ''/scenarios/'' @ path_escape scenario @ ''/state'')"
    by (intro exI [of _ "escape_path (trim_slashes (pu_path (rm_base r)) @
          ac_path (set_scenario_state_call port scenario state flow))"] conjI)
       (simp_all add: url_string_def unescape_path,
        simp add: set_scenario_state_call_def call_with_body_def imposter_path_def)
  moreover have "path_escape scenario = scenario \<longleftrightarrow> list_all segment_char scenario"
    by (simp add: path_escape_def escape_id_iff)
  ultimately show ?thesis by blast
qed

theorem scenario_path_decoded_witness:
  "path_escape ''a b'' = ''a%20b'' \<and>
   (\<exists>path. hq_url (build_request
        \<lparr>rm_base = \<lparr>pu_scheme = ''http'', pu_userinfo = [], pu_host = ''h:1'', pu_path = []\<rparr>, rm_apiKey = [], rm_host = ''h''\<rparr>
        (set_scenario_state_call 7 ''a b'' ''s'' [])) = ''http://h:1'' @ path \<and>
      unescape path = Some (''/imposters/'' @ itoa 7 @ ''/scenarios/a%20b/state''))"
proof -
  have "path_escape ''a b'' = ''a%20b''" by code_simp
  then show ?thesis
    using scenario_path_decoded [of "\<lparr>rm_base = \<lparr>pu_scheme = ''http'', pu_userinfo = [], pu_host = ''h:1'', pu_path = []\<rparr>, rm_apiKey = [], rm_host = ''h''\<rparr>"
        7 "''a b''" "''s''" "[]"]
    by (simp add: trim_slashes_def)
qed

section \<open>The native library\<close>


abbreviation linux_host :: host where
  "linux_host \<equiv> \<lparr>h_goos = ''linux'', h_goarch = ''amd64'', h_getenv = (\<lambda>_. []),
     h_userCacheDir = Some ''/home/u/.cache'', h_tempDir = ''/tmp'', h_is_file = (\<lambda>_. False), h_is_dir = (\<lambda>_. False)\<rparr>"

abbreviation all_fine :: io_plan where
  "all_fine \<equiv> \<lparr>io_mkdir = True, io_temp = Some ''/lib/.rift-ffi-1.part'', io_write = True, io_written = 0,
     io_close = True, io_chmod = True, io_rename = True\<rparr>"



text \<open>C21. A library fetched into the default place is the one the loader then finds, unless
  RIFT_FFI_LIB names a file that exists: fetcher and loader compute the same path.\<close>

theorem fetched_library_is_found:
  assumes "fetch sha parse http io h fs opts = (states, Inr res)" and "fo_dir opts = []"
    and "fresh_temp io fs (cache_path h)"
    and "\<And>p. h_is_file h' p \<longleftrightarrow> last states p \<noteq> None"
    and "h_goos h' = h_goos h" "h_goarch h' = h_goarch h" "h_getenv h' = h_getenv h"
      "h_userCacheDir h' = h_userCacheDir h" "h_tempDir h' = h_tempDir h"
  shows "library_path h' = Inr (fr_path res) \<or>
    (h_getenv h ''RIFT_FFI_LIB'' \<noteq> [] \<and> last states (h_getenv h ''RIFT_FFI_LIB'') \<noteq> None \<and>
     library_path h' = Inr (h_getenv h ''RIFT_FFI_LIB''))"
proof -
  have dest: "destination h (fo_dir opts) = cache_path h" by (simp add: destination_def assms(2))
  have same: "cache_path h' = cache_path h"
    by (simp only: cache_path_def cache_dir_def platform_tag_def platform_lib_names_def assms(5-))
  have "fr_path res = cache_path h \<and> last states (cache_path h) \<noteq> None"
    using assms(1)
  proof (cases rule: fetch_cases)
    case cached
    then show ?thesis by (auto simp: dest already_verified_def split: option.splits)
  next
    case (downloaded art url err)
    have "\<And>tmp. io_temp io = Some tmp \<Longrightarrow> tmp \<noteq> destination h (fo_dir opts) \<and> fs tmp = None"
      using assms(3) by (simp add: fresh_temp_def dest)
    from download_states(4) [OF downloaded(1) this] downloaded(3) dest show ?thesis
      by (cases err) auto
  qed simp
  moreover obtain ps where "search_paths h' = cache_path h' # ps" using search_starts_in_cache by blast
  ultimately show ?thesis
    using assms(4,7) by (auto simp: library_path_def resolve_library_def check_file_def same)
qed

abbreviation cached_fs :: file_system where
  "cached_fs \<equiv> Map.empty(cache_path linux_host \<mapsto> ''abc'')"

theorem fetched_library_is_found_witness:
  "library_path (linux_host\<lparr>h_is_file := (\<lambda>p. cached_fs p \<noteq> None)\<rparr>) = Inr (cache_path linux_host)"
proof -
  define parsed where "parsed = JObj [(''artifacts'', JArr [JObj [(''platform'', JStr ''p''), (''sha256'', JStr ''abc'')]])]"
  define opts where "opts = \<lparr>fo_version = ''v1'', fo_platform = ''p'', fo_dir = [], fo_force = False\<rparr>"
  have art: "dec_artifact (JObj [(''platform'', JStr ''p''), (''sha256'', JStr ''abc'')])
      = Some \<lparr>af_platform = ''p'', af_file = [], af_sha256 = ''abc'', af_url = []\<rparr>"
    by (simp add: dec_artifact_def dec_struct_def artifact_fields_def find_field_def artifact_zero_def codec_simps)
  have "dec_manifest parsed = Some \<lparr>mf_version = [], mf_abi = [],
      mf_artifacts = Some [\<lparr>af_platform = ''p'', af_file = [], af_sha256 = ''abc'', af_url = []\<rparr>]\<rparr>"
    by (simp add: dec_manifest_def parsed_def dec_struct_def manifest_fields_def find_field_def manifest_zero_def req_slice_def
        codec_simps art)
  then have "fetch (\<lambda>s. s) (\<lambda>_. Some parsed) (\<lambda>_. GetReplied 200 [] True) all_fine linux_host cached_fs opts
      = ([cached_fs], Inr \<lparr>fr_path = cache_path linux_host,
           fr_artifact = \<lparr>af_platform = ''p'', af_file = [], af_sha256 = ''abc'', af_url = []\<rparr>,
           fr_version = [], fr_cached = True\<rparr>)"
    by (simp add: fetch_def fetch_manifest_def find_artifact_def artifacts_def opts_def destination_def
        already_verified_def equal_fold_def Let_def)
  moreover have "''/lib/.rift-ffi-1.part'' \<noteq> cache_path linux_host" by code_simp
  ultimately show ?thesis
    using fetched_library_is_found [of "\<lambda>s. s" "\<lambda>_. Some parsed" "\<lambda>_. GetReplied 200 [] True" all_fine linux_host
        cached_fs opts "[cached_fs]" _ "linux_host\<lparr>h_is_file := (\<lambda>p. cached_fs p \<noteq> None)\<rparr>"]
    by (simp add: opts_def fresh_temp_def)
qed



section \<open>The embedded engine\<close>

text \<open>C23. Whatever the scheduler and other goroutines do, an operation of an open engine amounts to
  one call of the library: its result is the status, port or text the call returned, or the
  error made of the detail that very call left, and every string is freed once, no handle is
  touched, no lock is kept and nothing undefined happens.\<close>

theorem engine_refines_calls:
  assumes "ready e w" and "\<not> en_closed e"
  shows "(\<exists>w'. op_rc None e opn c w = Some (fst (pure_rc e opn c (pr_native w) (pr_slots w (running_thread w))), w') \<and>
      pr_native w' = snd (pure_rc e opn c (pr_native w) (pr_slots w (running_thread w))) \<and>
      same_resources w w' \<and> ready e w') \<and>
    (\<exists>w'. op_port None e opn c w = Some (fst (pure_port e opn c (pr_native w) (pr_slots w (running_thread w))), w') \<and>
      pr_native w' = snd (pure_port e opn c (pr_native w) (pr_slots w (running_thread w))) \<and>
      same_resources w w' \<and> ready e w') \<and>
    (\<exists>w'. op_text parse None e opn c w =
        Some (fst (pure_text parse e opn c (pr_native w) (pr_slots w (running_thread w))), w') \<and>
      pr_native w' = snd (pure_text parse e opn c (pr_native w) (pr_slots w (running_thread w))) \<and>
      same_resources w w' \<and> ready e w')"
  by (intro conjI op_outcome [OF assms])

abbreviation demo_library :: "nat native_library" where
  "demo_library \<equiv> \<lparr>nl_missing = (\<lambda>_. None), nl_abi_version = 2, nl_build_info = Some ''{}'',
     nl_start = (\<lambda>s. (7, s)), nl_stop = (\<lambda>h s. s), nl_int = (\<lambda>h c s. (-1, Some ''no imposter'', Suc s)),
     nl_port = (\<lambda>h c s. (0, Some ''port in use'', Suc s)), nl_text = (\<lambda>h c s. (Some ''[]'', None, Suc s)),
     nl_close = None\<rparr>"

abbreviation demo_engine :: "nat engine" where
  "demo_engine \<equiv> \<lparr>en_sym = demo_library, en_handle = 7, en_closed = False\<rparr>"

text \<open>A process in which every call runs on another thread and other goroutines fill every slot.\<close>

abbreviation demo_process :: "nat process" where
  "demo_process \<equiv> \<lparr>pr_native = 0, pr_refs = 1, pr_live = {7}, pr_slots = (\<lambda>_. Some ''stale''),
     pr_blocks = [static_addr \<mapsto> (False, ''{}'' @ [nul])], pr_next = 2, pr_sched = (\<lambda>n. n),
     pr_noise = (\<lambda>n s t. Some ''noise''), pr_calls = 0, pr_thread = 0, pr_locks = 0\<rparr>"

theorem engine_refines_calls_witness:
  "\<exists>w'. op_rc None demo_engine ''delete imposter'' (NDeleteImposter 1) demo_process =
      Some (Inl (new_embedded_error ''delete imposter'' ''no imposter''), w') \<and> pr_native w' = 1"
proof -
  have "ready demo_engine demo_process"
    by (simp add: ready_def process_ok_def static_addr_def)
  moreover have "c_text ''no imposter'' = ''no imposter''" by (rule c_text_no_nul) (simp add: nul_def)
  ultimately show ?thesis
    using engine_refines_calls [of demo_engine demo_process "''delete imposter''" "NDeleteImposter 1"]
    by (auto simp: pure_rc_def detail_text_def)
qed








text \<open>C26. Starting an engine either fails with a classified error and leaves the process as it was,
  the library unloaded again, or gives an open engine; closing that engine after any
  operations gives the process back its resources.\<close>

theorem start_and_close_balance:
  assumes "process_ok w" and "\<And>path lib. dlopen path = Inr lib \<Longrightarrow> library_state lib w"
  shows "\<exists>r w1. start h dlopen opts w = Some (r, w1) \<and>
    (case r of
       Inl err \<Rightarrow> same_resources w w1 \<and> kinds err \<noteq> {}
     | Inr e \<Rightarrow> ready e w1 \<and> \<not> en_closed e \<and>
         (\<forall>w2. same_resources w1 w2 \<and> process_ok w2 \<and> en_handle e \<notin> pr_live w \<and> library_state (en_sym e) w \<longrightarrow>
            (\<exists>err e' w3. close e w2 = Some ((err, e'), w3) \<and> en_closed e' \<and> same_resources w w3)))"
proof -
  obtain r w1 where start: "start h dlopen opts w = Some (r, w1)" "started w (r, w1)"
    using start_outcome [OF assms(2) assms(1), where h = h and opts = opts] by fastforce
  show ?thesis
  proof (cases r)
    case (Inl err)
    then show ?thesis using start by (simp add: started_def)
  next
    case (Inr e)
    note e = start(2) [unfolded started_def Inr, simplified]
    have "\<exists>err e' w3. close e w2 = Some ((err, e'), w3) \<and> en_closed e' \<and> same_resources w w3"
      if w2: "same_resources w1 w2" "process_ok w2" "en_handle e \<notin> pr_live w" "library_state (en_sym e) w" for w2
    proof -
      have "ready e w2" using ready_same [OF _ w2(1,2)] e by blast
      from close_outcome [OF this] obtain w3 where w3:
        "close e w2 = Some ((nl_close (en_sym e), e\<lparr>en_closed := True, en_handle := 0\<rparr>), w3)"
        "pr_refs w3 = pr_refs w2 - 1" "pr_live w3 = pr_live w2 - {en_handle e}" "pr_locks w3 = pr_locks w2"
        "pr_blocks w3 = (if pr_refs w2 = 1 then (pr_blocks w2)(static_addr := None) else pr_blocks w2)"
        using e by blast
      have "(pr_blocks w)(static_addr := pr_blocks w static_addr) = pr_blocks w" by simp
      then have "same_resources w w3"
        using w3(2-5) w2 e by (auto simp: same_resources_def one_more_def library_state_def)
      then show ?thesis using w3(1) by auto
    qed
    then show ?thesis using start(1) e Inr by auto
  qed
qed

abbreviation idle_process :: "nat process" where
  "idle_process \<equiv> \<lparr>pr_native = 0, pr_refs = 0, pr_live = {}, pr_slots = (\<lambda>_. None), pr_blocks = Map.empty,
     pr_next = 2, pr_sched = (\<lambda>n. n), pr_noise = (\<lambda>n s. s), pr_calls = 0, pr_thread = 0, pr_locks = 0\<rparr>"

theorem start_and_close_balance_witness:
  "\<exists>e w1 err e' w3. start (linux_host\<lparr>h_is_file := (\<lambda>p. p = ''/lib/r.so'')\<rparr>) (\<lambda>_. Inr demo_library)
      \<lparr>op_libraryPath = ''/lib/r.so'', op_skipVersionCheck = False\<rparr> idle_process = Some (Inr e, w1) \<and>
    close e w1 = Some ((err, e'), w3) \<and> pr_refs w3 = 0 \<and> pr_live w3 = {}"
proof -
  let ?h = "linux_host\<lparr>h_is_file := (\<lambda>p. p = ''/lib/r.so'')\<rparr>"
  let ?opts = "\<lparr>op_libraryPath = ''/lib/r.so'', op_skipVersionCheck = False\<rparr>"
  have ok: "process_ok idle_process" "library_state demo_library idle_process"
    by (simp_all add: process_ok_def library_state_def static_addr_def)
  have bound: "first_error (register_one demo_library) ns = None" for ns
    by (induction ns) (simp_all add: register_one_def)
  have "\<exists>e w1. start ?h (\<lambda>_. Inr demo_library) ?opts idle_process = Some (Inr e, w1) \<and>
      en_handle e = 7 \<and> en_sym e = demo_library \<and> process_ok w1"
    by (simp add: start_def platform_supported_def resolve_library_def check_file_def dlopen_library_def
        start_library_def open_library_eq opened_def bind_symbols_def bound abi_of_def abi_version_def
        start_runtime_def locked_def start_handle_def enter_def process_ok_def static_addr_def Let_def)
  then obtain e w1 where e: "start ?h (\<lambda>_. Inr demo_library) ?opts idle_process = Some (Inr e, w1)"
    "en_handle e = 7" "en_sym e = demo_library" "process_ok w1" by blast
  then have "\<forall>w2. same_resources w1 w2 \<and> process_ok w2 \<and> en_handle e \<notin> pr_live idle_process \<and>
        library_state (en_sym e) idle_process \<longrightarrow>
      (\<exists>err e' w3. close e w2 = Some ((err, e'), w3) \<and> en_closed e' \<and> same_resources idle_process w3)"
    using start_and_close_balance [OF ok(1), where dlopen = "\<lambda>_. Inr demo_library" and h = ?h and opts = ?opts] ok(2) by auto
  then show ?thesis using e ok(2) by (fastforce simp: same_resources_def)
qed





text \<open>C29. The index of a stub reaches the library exactly when it fits 32 bits, and then as the same
  signed number; any other index is refused as an invalid definition before the library is
  called.\<close>

theorem add_stub_index_bounds:
  "if - (2 ^ 31) \<le> index \<and> index < 2 ^ 31
   then \<exists>i32. sint i32 = index \<and>
     engine_add_stub ctx e port st index = op_rc ctx e ''add stub'' (NAddStub port (enc_stub st) i32)
   else \<exists>err. kinds err = {ErrInvalidDefinition} \<and> engine_add_stub ctx e port st index w = Some (Inl err, w)"
proof (cases "- (2 ^ 31) \<le> index \<and> index < 2 ^ 31")
  case True
  then have "sint (word_of_int index :: 32 word) = index"
    by (simp add: signed_take_bit_int_eq_self sint_sbintrunc')
  moreover have "engine_add_stub ctx e port st index =
      op_rc ctx e ''add stub'' (NAddStub port (enc_stub st) (word_of_int index))"
    using True by (auto simp: engine_add_stub_def)
  ultimately show ?thesis using True by auto
next
  case False
  then show ?thesis by (auto simp: engine_add_stub_def kinds_wrap)
qed

text \<open>C30. Among goroutines that share an engine, in every reachable configuration a call runs only on
  the live handle of the loaded library, the handle is stopped at most once and only with no
  call under way, and once an engine is closed no call begins.\<close>

theorem shared_engine_safe:
  assumes "reach fresh lock_step c"
  shows "(\<forall>i h. sh_pc c i = Calling h \<longrightarrow> h \<in> sh_live c \<and> sh_loaded c \<and> \<not> sh_closed c) \<and>
    (\<forall>i h. sh_pc c i = Stopping h \<longrightarrow> h \<in> sh_live c \<and> sh_loaded c \<and> (\<forall>j. j \<noteq> i \<longrightarrow> sh_pc c j = Idle)) \<and>
    sh_stops c \<le> 1 \<and>
    (sh_closed c \<longrightarrow> (\<forall>i c'. \<not> lock_step c (i, Downcall) c'))"
proof -
  have inv: "lock_inv c" "handle_inv c"
    using shared.inv_reach [OF assms] by (simp_all add: engine_inv_def)
  have at: "handle_ok c (sh_pc c i)" for i using inv(2) by (simp add: handle_inv_def)
  have "h \<in> sh_live c \<and> sh_loaded c \<and> \<not> sh_closed c" if "sh_pc c i = Calling h" for i h
    using at [of i] that inv(2) by (simp add: handle_inv_def)
  moreover have "h \<in> sh_live c \<and> sh_loaded c \<and> (\<forall>j. j \<noteq> i \<longrightarrow> sh_pc c j = Idle)" if "sh_pc c i = Stopping h" for i h
    using at [of i] alone [OF inv(1), of i] that by simp
  moreover have "sh_stops c \<le> 1" using inv(2) by (auto simp: handle_inv_def)
  ultimately show ?thesis by (auto elim: lock_stepE)
qed

theorem shared_engine_safe_witness:
  "\<forall>c'. \<not> lock_step (at 0 Unloading (fresh_engine 5\<lparr>sh_closed := True, sh_handle := 0, sh_writer := Some 0,
      sh_live := {}, sh_stops := 1\<rparr>)) (1, Downcall) c'"
proof -
  let ?c = "fresh_engine 5"
  let ?c1 = "?c\<lparr>sh_writer := Some 0\<rparr>"
  let ?c2 = "?c1\<lparr>sh_closed := True, sh_handle := 0\<rparr>"
  let ?c3 = "?c\<lparr>sh_closed := True, sh_handle := 0, sh_writer := Some 0, sh_live := {}, sh_stops := 1\<rparr>"
  have "fresh ?c" unfolding fresh_def by (intro exI [of _ 5]) simp
  then have r0: "reach fresh lock_step ?c" by (rule reach_start)
  have "lock_step ?c (0, Lock) (at 0 Closing ?c1)"
    by (rule lock_step.lock) (simp_all add: fresh_engine_def)
  note r1 = reach_step [OF r0 this]
  have "lock_step (at 0 Closing ?c1) (0, Acquire) (at 0 Writing ?c1)"
    using acquire [of "at 0 Closing ?c1" 0] by (simp add: fresh_engine_def at_def)
  note r2 = reach_step [OF r1 this]
  have "lock_step (at 0 Writing ?c1) (0, Mark) (at 0 (Stopping 5) ?c2)"
    using mark [of "at 0 Writing ?c1" 0] by (simp add: fresh_engine_def at_def)
  note r3 = reach_step [OF r2 this]
  have "lock_step (at 0 (Stopping 5) ?c2) (0, Stop) (at 0 Unloading ?c3)"
    using stop [of "at 0 (Stopping 5) ?c2" 0 5] by (simp add: fresh_engine_def at_def)
  note r4 = reach_step [OF r3 this]
  show ?thesis using shared_engine_safe [OF r4] by simp
qed

text \<open>C31. From the moment a close waits for the lock, no new operation gets in: whatever the
  goroutines do, at most four steps of its own and two of each operation under way are left,
  and until it is through one of them can always go on.\<close>

theorem close_gets_through:
  assumes "reach fresh lock_step c" and "busy_run writer_waiting lock_step c es c'"
  shows "length es \<le> 2 * card (sh_readers c) + 4 \<and> (writer_waiting c' \<longrightarrow> (\<exists>i ev c''. i \<in> active c' \<and> lock_step c' (i, ev) c''))"
proof -
  have inv: "engine_inv c" by (rule shared.inv_reach [OF assms(1)])
  then have lock: "lock_inv c" by (simp add: engine_inv_def)
  have "writer_rank c \<le> (\<Sum>i \<in> sh_readers c. pc_rank (sh_pc c i)) + (\<Sum>i \<in> set_option (sh_writer c). pc_rank (sh_pc c i))"
    unfolding writer_rank_def active_eq [OF lock]
    by (subst sum_Un_nat) (simp_all add: lock_invD(1) [OF lock])
  also have "(\<Sum>i \<in> sh_readers c. pc_rank (sh_pc c i)) \<le> (\<Sum>i \<in> sh_readers c. 2)"
  proof (rule sum_mono)
    fix i assume "i \<in> sh_readers c"
    then have "is_reader (sh_pc c i)" using lock_invD(2) [OF lock] by simp
    then show "pc_rank (sh_pc c i) \<le> 2" by (cases "sh_pc c i") simp_all
  qed
  also have "(\<Sum>i \<in> set_option (sh_writer c). pc_rank (sh_pc c i)) \<le> 4"
  proof (cases "sh_writer c")
    case (Some i)
    then show ?thesis by (cases "sh_pc c i") simp_all
  qed simp
  finally have "writer_rank c \<le> 2 * card (sh_readers c) + 4" by simp
  moreover have "length es + writer_rank c' \<le> writer_rank c" by (rule shared.busy_run_bounded [OF assms(2) inv])
  moreover have "lock_inv c'"
    using shared.busy_run_inv [OF assms(2) inv] by (simp add: engine_inv_def)
  moreover have "active c' \<noteq> {}" if "writer_waiting c'"
    using that \<open>lock_inv c'\<close> by (auto simp: active_eq writer_waiting_def)
  ultimately show ?thesis using active_steps [of c'] by auto
qed

theorem close_gets_through_witness:
  "\<exists>i ev c''. i \<in> active (at 0 Closing (fresh_engine 5\<lparr>sh_writer := Some 0\<rparr>)) \<and>
     lock_step (at 0 Closing (fresh_engine 5\<lparr>sh_writer := Some 0\<rparr>)) (i, ev) c''"
proof -
  let ?c = "at 0 Closing (fresh_engine 5\<lparr>sh_writer := Some 0\<rparr>)"
  have "lock_step (fresh_engine 5) (0, Lock) ?c"
    by (rule lock_step.lock) (simp_all add: fresh_engine_def)
  moreover have "fresh (fresh_engine 5)" unfolding fresh_def by (intro exI [of _ 5]) simp
  ultimately have "reach fresh lock_step ?c" by (blast intro: reach.intros)
  moreover have waiting: "writer_waiting ?c" by (simp add: writer_waiting_def)
  moreover have "busy_run writer_waiting lock_step ?c [] ?c" by (rule busy_Nil) (rule waiting)
  ultimately show ?thesis using close_gets_through by blast
qed

section \<open>The spawned engine\<close>


text \<open>C33. Whatever the context, the child and the pings do, the wait for readiness ends: after at most
  (timeout + 1290 ms) / 320 ms + 2 pings, 68 for the default of 20 s, with readiness only on
  the word of the last ping and else with a classified error.\<close>

theorem wait_ready_terminates:
  assumes "0 \<le> timeout"
  shows "\<exists>r k. wait_ready env now shown timeout = Some (r, k) \<and>
    int k \<le> (timeout + ms 1290) div ms 320 + 2 \<and>
    (case r of
       Inl e \<Rightarrow> kinds e \<noteq> {}
     | Inr _ \<Rightarrow> 0 < k \<and> pb_exited (env (k - 1)) = None \<and> pb_ping (env (k - 1)) = None)"
proof -
  obtain r k where r: "wait_ready env now shown timeout = Some (r, k)"
    "k \<le> nat ((timeout + ms 1290) div ms 320) + 2" "verdict env r k"
    using wait_ready_bounded [OF assms] by blast
  have "0 \<le> (timeout + ms 1290) div ms 320" using assms by (simp add: ms_def pos_imp_zdiv_nonneg_iff)
  then have "int k \<le> (timeout + ms 1290) div ms 320 + 2" using r(2) by simp
  then show ?thesis using r(1,3) by (auto simp: verdict_def split: sum.split)
qed

theorem wait_ready_terminates_witness:
  "\<exists>r k. wait_ready (\<lambda>i. \<lparr>pb_ctx = None, pb_exited = None, pb_ping = Some json_error, pb_ping_time = 0, pb_oversleep = 0\<rparr>)
      0 ''20s'' (ms 20000) = Some (r, k) \<and> int k \<le> 68"
  using wait_ready_terminates [of "ms 20000"
      "\<lambda>i. \<lparr>pb_ctx = None, pb_exited = None, pb_ping = Some json_error, pb_ping_time = 0, pb_oversleep = 0\<rparr>" 0 "''20s''"]
  by (auto simp: ms_def)

text \<open>C34. However many goroutines close a spawned engine and whenever its child exits, the shutdown
  runs once: the child is asked to terminate at most once (killed, on Windows) and then killed
  at most once, only after five seconds of grace, and a close returns only when the child is
  gone and waited for, all with the same error, none for an exit the shutdown caused.\<close>

theorem stop_runs_once:
  assumes "reach new_process stop_step s"
  shows "(\<forall>i j. in_body (sd_pc s i) \<and> in_body (sd_pc s j) \<longrightarrow> i = j) \<and>
    sd_signals s \<in> {[], [terminate_signal (sd_windows s)], [terminate_signal (sd_windows s), SigKill]} \<and>
    (1 < length (sd_signals s) \<longrightarrow> grace \<le> sd_clock s) \<and>
    (\<forall>i. sd_pc s i = Returned \<and> sd_started s \<longrightarrow>
       \<not> sd_alive s \<and> sd_done s \<and> sd_stopErr s = ignore_expected_exit (sd_waitErr s) \<and>
       (\<forall>status. sd_waitErr s = Some (ExitError status) \<longrightarrow> sd_stopErr s = None))"
proof -
  have inv: "stop_inv s" by (rule stopping.inv_reach [OF assms])
  note at = stop_invD [OF inv]
  have "i = j" if "in_body (sd_pc s i)" "in_body (sd_pc s j)" for i j
    using at(1) [of i] at(1) [of j] that by simp
  moreover have "sd_signals s \<in> {[], [terminate_signal (sd_windows s)], [terminate_signal (sd_windows s), SigKill]} \<and>
      (1 < length (sd_signals s) \<longrightarrow> grace \<le> sd_clock s)"
  proof (cases "sd_once s")
    case (Busy i)
    then have "in_body (sd_pc s i)" using at(1) [of i] by simp
    then show ?thesis using at(2) [of i] by (cases "sd_pc s i") auto
  qed (use at(3) in \<open>auto simp: once_ok_def\<close>)
  moreover have "\<not> sd_alive s \<and> sd_done s \<and> sd_stopErr s = ignore_expected_exit (sd_waitErr s)"
    if "sd_pc s i = Returned" "sd_started s" for i
    using at(2) [of i] at(3,4) that by (auto simp: once_ok_def)
  ultimately show ?thesis by (auto simp: ignore_expected_exit_def)
qed

abbreviation running_child :: shutdown where
  "running_child \<equiv> \<lparr>sd_windows = False, sd_started = True, sd_alive = True, sd_done = False, sd_waitErr = None, sd_stopErr = None,
     sd_clock = 0, sd_signals = [], sd_once = Unused, sd_pc = (\<lambda>_. Outside)\<rparr>"

theorem stop_runs_once_witness:
  "sd_signals (caller 0 Waiting (caller 0 Entered (running_child\<lparr>sd_once := Busy 0\<rparr>)\<lparr>sd_signals := [SigTerm]\<rparr>))
     \<in> {[], [SigTerm], [SigTerm, SigKill]}"
proof -
  have "new_process running_child" by (simp add: new_process_def)
  then have r0: "reach new_process stop_step running_child" by (rule reach_start)
  have "stop_step running_child (0, Enter) (caller 0 Entered (running_child\<lparr>sd_once := Busy 0\<rparr>))"
    by (rule enter) simp_all
  note r1 = reach_step [OF r0 this]
  have "stop_step (caller 0 Entered (running_child\<lparr>sd_once := Busy 0\<rparr>)) (0, Terminate)
      (caller 0 Waiting (caller 0 Entered (running_child\<lparr>sd_once := Busy 0\<rparr>)\<lparr>sd_signals := [SigTerm]\<rparr>))"
    using terminate [of "caller 0 Entered (running_child\<lparr>sd_once := Busy 0\<rparr>)" 0] by (simp add: caller_def terminate_signal_def)
  note r2 = reach_step [OF r1 this]
  show ?thesis using stop_runs_once [OF r2] by (simp add: terminate_signal_def caller_def)
qed



section \<open>The intercept listener\<close>

text \<open>C36. The library is asked for a listener only when the CA comes from at most one complete source,
  a returned key only with a minted CA, and the credentials, if any, are not blank; otherwise
  the options are refused as an invalid definition. A listener that is returned has a port,
  the credentials it was asked for, and CA material only as a complete pair.\<close>

theorem intercept_start_validated:
  assumes "ready e w"
  shows "\<exists>r w'. start_intercept parse ctx e opts w = Some (r, w') \<and> same_resources w w' \<and> ready e w' \<and>
    (case r of Inl err \<Rightarrow> kinds err \<noteq> {}
     | Inr i \<Rightarrow> ii_port (in_info i) \<noteq> 0 \<and> in_engine i = e \<and> in_auth i = ic_auth opts \<and>
         (in_ca i = None \<or> (\<exists>c k. in_ca i = Some \<lparr>ca_certPEM = c, ca_keyPEM = k\<rparr> \<and> c \<noteq> [] \<and> k \<noteq> []))) \<and>
    ((ic_caCertPEM opts = [] \<longleftrightarrow> ic_caKeyPEM opts = []) \<and> (ic_caCertPath opts = [] \<longleftrightarrow> ic_caKeyPath opts = []) \<and>
     (if ic_returnCAKey opts then ic_caCertPEM opts = [] \<and> ic_caCertPath opts = []
      else ic_caCertPEM opts = [] \<or> ic_caCertPath opts = []) \<and>
     (case ic_auth opts of None \<Rightarrow> True | Some a \<Rightarrow> \<not> blank (au_username a) \<and> \<not> blank (au_password a))
     \<or> w' = w \<and> (\<exists>err. r = Inl err \<and> kinds err = {ErrInvalidDefinition}))"
proof -
  obtain r w' where run: "start_intercept parse ctx e opts w = Some (r, w')" "same_resources w w'" "ready e w'"
    "classified r" using starting.runs [OF assms] by blast
  have "case r of Inl err \<Rightarrow> kinds err \<noteq> {}
     | Inr i \<Rightarrow> ii_port (in_info i) \<noteq> 0 \<and> in_engine i = e \<and> in_auth i = ic_auth opts \<and>
         (in_ca i = None \<or> (\<exists>c k. in_ca i = Some \<lparr>ca_certPEM = c, ca_keyPEM = k\<rparr> \<and> c \<noteq> [] \<and> k \<noteq> []))"
  proof (cases r)
    case (Inl err)
    then show ?thesis using run(4) by simp
  next
    case (Inr i)
    note i = start_intercept_result [OF run(1) [unfolded Inr]]
    have "in_ca i = None \<or> (\<exists>c k. in_ca i = Some \<lparr>ca_certPEM = c, ca_keyPEM = k\<rparr> \<and> c \<noteq> [] \<and> k \<noteq> [])"
    proof (cases "in_ca i")
      case (Some m)
      then show ?thesis using i(4) [OF Some] by (cases m) simp
    qed simp
    then show ?thesis using i(1-3) Inr by simp
  qed
  moreover have "ca_source_ok opts \<and> auth_ok opts \<or> w' = w \<and> (\<exists>err. r = Inl err \<and> kinds err = {ErrInvalidDefinition})"
    using start_intercept_invalid [of opts parse ctx e w] run(1) by auto
  ultimately show ?thesis
    using run(1-3) unfolding ca_source_ok_def auth_ok_def by blast
qed

theorem intercept_start_validated_witness:
  "\<exists>err. start_intercept (\<lambda>_. None) None demo_engine
      \<lparr>ic_port = 0, ic_host = [], ic_caCertPEM = ''cert'', ic_caKeyPEM = [], ic_caCertPath = [], ic_caKeyPath = [],
       ic_returnCAKey = False, ic_auth = None, ic_rules = []\<rparr> demo_process = Some (Inl err, demo_process) \<and>
    kinds err = {ErrInvalidDefinition}"
proof -
  have "ready demo_engine demo_process"
    by (simp add: ready_def process_ok_def static_addr_def)
  from intercept_start_validated [OF this, of "\<lambda>_. None" None "\<lparr>ic_port = 0, ic_host = [], ic_caCertPEM = ''cert'',
      ic_caKeyPEM = [], ic_caCertPath = [], ic_caKeyPath = [], ic_returnCAKey = False, ic_auth = None, ic_rules = []\<rparr>"]
  show ?thesis by fastforce
qed

text \<open>C37. What Go prints of a listener, of its credentials and of its CA material does not depend on
  the password or on the private key, whatever bytes they hold.\<close>

theorem intercept_texts_hide_secrets:
  "intercept_string url_parse (i\<lparr>in_auth := Some \<lparr>au_username = user, au_password = p\<rparr>, in_ca := m\<rparr>) =
     intercept_string url_parse (i\<lparr>in_auth := Some \<lparr>au_username = user, au_password = p'\<rparr>, in_ca := m'\<rparr>) \<and>
   intercept_auth_string \<lparr>au_username = user, au_password = p\<rparr> =
     intercept_auth_string \<lparr>au_username = user, au_password = p'\<rparr> \<and>
   ca_material_string \<lparr>ca_certPEM = cert, ca_keyPEM = k\<rparr> = ca_material_string \<lparr>ca_certPEM = cert, ca_keyPEM = k'\<rparr>"
  by (rule conjI [OF intercept_string_hides]) (simp add: intercept_auth_string_def ca_material_string_def)

section \<open>The test kit and the conformance corpus\<close>

text \<open>C38. After any sequence of Engine and Close calls, Engine hands out a client that exists or ends
  the test as its options say, and hands out the same one, whatever the options, until it is
  closed; but Close after a failed start panics, because the shared variable then holds a nil
  engine pointer that is not a nil interface.\<close>

theorem shared_engine_lifecycle:
  assumes "reach (\<lambda>s. s = shared_initial) (kit_step launch close_client close_engine) s"
  shows "(case shared_engine launch opts s of
       (Value v, s') \<Rightarrow> v \<noteq> NilClient \<and> v \<noteq> Embedded None \<and> fst (shared_engine launch opts' s') = Value v
     | (Skipped msg, s') \<Rightarrow> ko_skipIfUnavailable opts \<and> fst (shared_close close_client close_engine s') = Panics
     | (Fatal msg, s') \<Rightarrow> \<not> ko_skipIfUnavailable opts \<and> fst (shared_close close_client close_engine s') = Panics
     | (Panics, s') \<Rightarrow> False) \<and>
    (fst (shared_close close_client close_engine s) = Panics \<longleftrightarrow> sk_err s \<noteq> None)"
proof -
  have inv: "shared_ok s" by (rule kit.inv_reach [OF assms])
  define s' where "s' = shared_start launch opts s"
  have s': "shared_ok s'" "sk_once s'"
    unfolding s'_def using shared_start_ok [OF inv] shared_start_once [OF inv] by simp_all
  have again: "shared_start launch opts' s' = s'" by (rule shared_start_again [OF s'(2)])
  have "case shared_engine launch opts s of
       (Value v, s') \<Rightarrow> v \<noteq> NilClient \<and> v \<noteq> Embedded None \<and> fst (shared_engine launch opts' s') = Value v
     | (Skipped msg, s') \<Rightarrow> ko_skipIfUnavailable opts \<and> fst (shared_close close_client close_engine s') = Panics
     | (Fatal msg, s') \<Rightarrow> \<not> ko_skipIfUnavailable opts \<and> fst (shared_close close_client close_engine s') = Panics
     | (Panics, s') \<Rightarrow> False"
    using s' again unfolding shared_engine_def s'_def [symmetric] Let_def
    by (cases "sk_err s'") (auto simp: shared_ok_def shared_close_def)
  moreover have "fst (shared_close close_client close_engine s) = Panics \<longleftrightarrow> sk_err s \<noteq> None"
    using inv by (auto simp: shared_ok_def shared_close_def split: client_value.split option.split)
  ultimately show ?thesis by blast
qed

theorem shared_engine_lifecycle_witness:
  "fst (shared_close (\<lambda>_::unit. None) (\<lambda>_::unit. None)
      (shared_start (\<lambda>_. Inl json_error) \<lparr>ko_client = None, ko_libraryPath = [], ko_skipIfUnavailable = True\<rparr> shared_initial)) = Panics"
proof -
  let ?launch = "\<lambda>_. Inl json_error"
  let ?opts = "\<lparr>ko_client = None, ko_libraryPath = [], ko_skipIfUnavailable = True\<rparr>"
  have "reach (\<lambda>s. s = shared_initial) (kit_step ?launch (\<lambda>_::unit. None) (\<lambda>_::unit. None)) shared_initial"
    by (rule reach_start) simp
  from shared_engine_lifecycle [OF this, of ?opts ?opts] show ?thesis
    by (simp add: shared_engine_def shared_start_def shared_initial_def Let_def)
qed





end
